theory Spec2Isabelle
  imports Complex_Main
begin

section \<open>Time and numbers\<close>

text \<open>
  A Python \<open>datetime\<close> is modelled as a rational number of seconds since a fixed
  epoch, and \<open>(a - b).total_seconds()\<close> as the exact difference. Python floats
  (\<open>accumulated_seconds\<close>, set weights) are modelled as rationals as well: rounding
  of floating-point arithmetic is outside this development.
\<close>

type_synonym datetime = rat

text \<open>Python's \<open>int(x)\<close> on a float truncates towards zero.\<close>

definition py_int :: "rat \<Rightarrow> int" where
  "py_int x = (if 0 \<le> x then \<lfloor>x\<rfloor> else \<lceil>x\<rceil>)"

section \<open>The workout timer (timer.py, models.py)\<close>

record TimerState =
  is_running :: bool
  is_paused :: bool
  start_time :: "datetime option"
  pause_time :: "datetime option"
  accumulated_seconds :: rat

text \<open>\<open>TimerState.initial()\<close>: the stopped snapshot.\<close>

definition initial :: TimerState where
  "initial = \<lparr>is_running = False, is_paused = False, start_time = None,
     pause_time = None, accumulated_seconds = 0\<rparr>"

text \<open>
  \<open>Timer._calculate_elapsed\<close>. The argument \<open>now\<close> is the value that
  \<open>datetime.now()\<close> returns at the call.
\<close>

definition calculate_elapsed :: "datetime \<Rightarrow> TimerState \<Rightarrow> rat" where
  "calculate_elapsed now s =
     (if \<not> is_running s then accumulated_seconds s
      else if is_paused s then accumulated_seconds s
      else case start_time s of
             None \<Rightarrow> accumulated_seconds s
           | Some st \<Rightarrow> accumulated_seconds s + (now - st))"

text \<open>
  A timer object: its \<open>_state\<close> and, for a \<open>MockTimer\<close>, the field \<open>_mock_now\<close>.
  A plain \<open>Timer\<close> is the object whose \<open>mock_now\<close> is \<open>None\<close>: with no mock time
  set, \<open>MockTimer._calculate_elapsed\<close> defers to the method of \<open>Timer\<close>. The two
  observer callbacks receive values and change nothing; they are left out.
\<close>

record timer =
  state :: TimerState
  mock_now :: "datetime option"

definition new_timer :: timer where
  "new_timer = \<lparr>state = initial, mock_now = None\<rparr>"

definition set_mock_time :: "datetime \<Rightarrow> timer \<Rightarrow> timer" where
  "set_mock_time dt t = t\<lparr>mock_now := Some dt\<rparr>"

text \<open>\<open>MockTimer._calculate_elapsed\<close>, the method every other method dispatches to.\<close>

definition mock_calculate_elapsed :: "datetime \<Rightarrow> timer \<Rightarrow> rat" where
  "mock_calculate_elapsed now t =
     (case mock_now t of
        None \<Rightarrow> calculate_elapsed now (state t)
      | Some m \<Rightarrow>
          if \<not> is_running (state t) then accumulated_seconds (state t)
          else if is_paused (state t) then accumulated_seconds (state t)
          else (case start_time (state t) of
                  None \<Rightarrow> accumulated_seconds (state t)
                | Some st \<Rightarrow> accumulated_seconds (state t) + (m - st)))"

definition elapsed_seconds :: "datetime \<Rightarrow> timer \<Rightarrow> int" where
  "elapsed_seconds now t = py_int (mock_calculate_elapsed now t)"

definition timer_is_running :: "timer \<Rightarrow> bool" where
  "timer_is_running t = (is_running (state t) \<and> \<not> is_paused (state t))"

definition timer_is_paused :: "timer \<Rightarrow> bool" where
  "timer_is_paused t = is_paused (state t)"

definition timer_is_stopped :: "timer \<Rightarrow> bool" where
  "timer_is_stopped t = (\<not> is_running (state t))"

definition start :: "datetime \<Rightarrow> timer \<Rightarrow> timer" where
  "start now t =
     (if is_running (state t) then t
      else t\<lparr>state := \<lparr>is_running = True, is_paused = False, start_time = Some now,
                 pause_time = None, accumulated_seconds = 0\<rparr>\<rparr>)"

definition pause :: "datetime \<Rightarrow> timer \<Rightarrow> timer" where
  "pause now t =
     (if \<not> is_running (state t) \<or> is_paused (state t) then t
      else let accumulated = mock_calculate_elapsed now t
           in t\<lparr>state := \<lparr>is_running = True, is_paused = True,
                  start_time = start_time (state t), pause_time = Some now,
                  accumulated_seconds = accumulated\<rparr>\<rparr>)"

definition resume :: "datetime \<Rightarrow> timer \<Rightarrow> timer" where
  "resume now t =
     (if \<not> is_paused (state t) then t
      else t\<lparr>state := \<lparr>is_running = True, is_paused = False, start_time = Some now,
                 pause_time = None,
                 accumulated_seconds = accumulated_seconds (state t)\<rparr>\<rparr>)"

text \<open>\<open>stop\<close> returns the final elapsed seconds and the reset timer.\<close>

definition stop :: "datetime \<Rightarrow> timer \<Rightarrow> int \<times> timer" where
  "stop now t = (let final_seconds = elapsed_seconds now t
                 in (final_seconds, t\<lparr>state := initial\<rparr>))"

definition restore :: "TimerState \<Rightarrow> timer \<Rightarrow> timer" where
  "restore s t = t\<lparr>state := s\<rparr>"

text \<open>
  The time that \<open>_calculate_elapsed\<close> reads: the mock time when one is set,
  \<open>datetime.now()\<close> otherwise.
\<close>

definition clock_seen :: "datetime \<Rightarrow> timer \<Rightarrow> datetime" where
  "clock_seen now t = (case mock_now t of None \<Rightarrow> now | Some m \<Rightarrow> m)"

text \<open>A test may call \<open>set_mock_time\<close> between two calls of the timer, or not.\<close>

definition maybe_set_mock_time :: "datetime option \<Rightarrow> timer \<Rightarrow> timer" where
  "maybe_set_mock_time m t = (case m of None \<Rightarrow> t | Some dt \<Rightarrow> set_mock_time dt t)"

section \<open>The connection and its transactions (db.py)\<close>

text \<open>
  The one \<open>sqlite3\<close> connection of \<open>Database\<close>: the committed content of the
  database, the content as the open transaction sees it (when one is open), and the
  number of calls of \<open>conn.commit()\<close>. The type \<open>'s\<close> is the content of the
  database.
\<close>

record 's connection =
  committed :: 's
  pending :: "'s option"
  commits :: nat

text \<open>What a cursor of the connection reads.\<close>

definition view :: "'s connection \<Rightarrow> 's" where
  "view c = (case pending c of None \<Rightarrow> committed c | Some s \<Rightarrow> s)"

text \<open>
  An SQL statement either fails as a whole with an error or yields the changed
  content. The errors of \<open>sqlite3\<close> are exceptions of class \<open>Exception\<close>.
\<close>

type_synonym ('e, 's) statement = "'s \<Rightarrow> 'e + 's"

text \<open>
  \<open>Database.connect\<close> keeps the default \<open>isolation_level\<close> of \<open>sqlite3\<close>, so
  the library begins a transaction by itself before a data-changing statement
  (\<open>INSERT\<close>, \<open>UPDATE\<close>, \<open>DELETE\<close>, \<open>REPLACE\<close>) and before no other. A step
  of the body of a \<open>with db.transaction()\<close> block executes a data-changing statement
  or a schema statement (\<open>CREATE TABLE\<close>, \<open>CREATE INDEX\<close>); the third kind of step
  is the body raising an exception that is no \<open>Exception\<close> (\<open>KeyboardInterrupt\<close>,
  \<open>SystemExit\<close>).
\<close>

datatype ('e, 's) step =
    Dml "('e, 's) statement"
  | Ddl "('e, 's) statement"
  | Interrupt 'e

fun effect :: "('e, 's) step \<Rightarrow> ('e, 's) statement" where
  "effect (Dml q) = q"
| "effect (Ddl q) = q"
| "effect (Interrupt e) = (\<lambda>s. Inl e)"

fun is_dml :: "('e, 's) step \<Rightarrow> bool" where
  "is_dml (Dml q) = True"
| "is_dml (Ddl q) = False"
| "is_dml (Interrupt e) = False"

fun is_statement :: "('e, 's) step \<Rightarrow> bool" where
  "is_statement (Dml q) = True"
| "is_statement (Ddl q) = True"
| "is_statement (Interrupt e) = False"

text \<open>What a step raised: an \<open>Exception\<close>, or a \<open>BaseException\<close> that is none.\<close>

datatype 'e raised = Exception 'e | BaseException 'e

text \<open>
  One step; for a statement this is \<open>cursor.execute\<close>. The result is what was
  raised, if anything. A data-changing statement opens a transaction when none is open,
  then runs in it. A schema statement runs in the open transaction when there is one;
  with none open it runs in autocommit mode and its effect is committed at once.
\<close>

fun execute :: "('e, 's) step \<Rightarrow> 's connection \<Rightarrow> 'e raised option \<times> 's connection" where
  "execute (Dml q) c =
     (let s = view c
      in case q s of
           Inl e \<Rightarrow> (Some (Exception e), c\<lparr>pending := Some s\<rparr>)
         | Inr s' \<Rightarrow> (None, c\<lparr>pending := Some s'\<rparr>))"
| "execute (Ddl q) c =
     (case pending c of
        Some s \<Rightarrow>
          (case q s of
             Inl e \<Rightarrow> (Some (Exception e), c)
           | Inr s' \<Rightarrow> (None, c\<lparr>pending := Some s'\<rparr>))
      | None \<Rightarrow>
          (case q (committed c) of
             Inl e \<Rightarrow> (Some (Exception e), c)
           | Inr s' \<Rightarrow> (None, c\<lparr>committed := s'\<rparr>)))"
| "execute (Interrupt e) c = (Some (BaseException e), c)"

text \<open>
  \<open>conn.commit()\<close> makes the pending content the committed one (and changes no
  content when no transaction is open); \<open>conn.rollback()\<close> drops the pending content.
\<close>

definition commit :: "'s connection \<Rightarrow> 's connection" where
  "commit c = c\<lparr>committed := view c, pending := None, commits := commits c + 1\<rparr>"

definition rollback :: "'s connection \<Rightarrow> 's connection" where
  "rollback c = c\<lparr>pending := None\<rparr>"

text \<open>The body of a \<open>with\<close> block: steps run in order until one raises.\<close>

fun execute_all :: "('e, 's) step list \<Rightarrow> 's connection \<Rightarrow> 'e raised option \<times> 's connection" where
  "execute_all [] c = (None, c)"
| "execute_all (q # qs) c =
     (case execute q c of
        (Some e, c') \<Rightarrow> (Some e, c')
      | (None, c') \<Rightarrow> execute_all qs c')"

text \<open>
  \<open>Database.transaction\<close>: run the body; commit when it ends normally; the clause
  \<open>except Exception\<close> rolls back and raises the exception again. An exception of
  another class passes through with neither commit nor rollback. The result is the
  exception that reaches the caller, if any.
\<close>

definition transaction :: "('e, 's) step list \<Rightarrow> 's connection \<Rightarrow> 'e option \<times> 's connection" where
  "transaction body c =
     (case execute_all body c of
        (None, c') \<Rightarrow> (None, commit c')
      | (Some (Exception e), c') \<Rightarrow> (Some e, rollback c')
      | (Some (BaseException e), c') \<Rightarrow> (Some e, c'))"

text \<open>
  The schema statements at the head of a body, before its first data-changing
  statement: on a connection with no transaction open these run in autocommit mode.
\<close>

fun autocommitted :: "('e, 's) step list \<Rightarrow> ('e, 's) step list" where
  "autocommitted [] = []"
| "autocommitted (q # qs) = (if is_dml q then [] else q # autocommitted qs)"

text \<open>The statements alone, on a database content: the first error, or the final content.\<close>

fun run_all :: "('e, 's) statement list \<Rightarrow> 's \<Rightarrow> 'e + 's" where
  "run_all [] s = Inr s"
| "run_all (q # qs) s = (case q s of Inl e \<Rightarrow> Inl e | Inr s' \<Rightarrow> run_all qs s')"

text \<open>Method calls one after the other; an exception ends the sequence.\<close>

fun calls :: "('c \<Rightarrow> 'e option \<times> 'c) list \<Rightarrow> 'c \<Rightarrow> 'e option \<times> 'c" where
  "calls [] c = (None, c)"
| "calls (f # fs) c =
     (case f c of
        (Some e, c') \<Rightarrow> (Some e, c')
      | (None, c') \<Rightarrow> calls fs c')"

section \<open>Domain objects (models.py)\<close>

text \<open>
  A \<open>UUID\<close> is modelled by its 128-bit value as a natural number; \<open>str\<close> and
  \<open>UUID(...)\<close> are inverse to each other on the identifiers the application stores.
\<close>

type_synonym uuid = nat

record WorkoutSet =
  set_id :: uuid
  set_session_exercise_id :: uuid
  set_reps :: int
  set_weight :: "rat option"
  set_created_at :: datetime

record SessionExercise =
  se_id :: uuid
  se_session_id :: uuid
  se_name :: string
  se_order_index :: int
  se_uses_weight :: bool
  se_sets :: "WorkoutSet list"

record WorkoutSession =
  ws_id :: uuid
  ws_template_id :: "uuid option"
  ws_template_name :: "string option"
  ws_started_at :: datetime
  ws_ended_at :: "datetime option"
  ws_duration_seconds :: "int option"
  ws_notes :: "string option"
  ws_exercises :: "SessionExercise list"

record TemplateExercise =
  te_id :: uuid
  te_template_id :: uuid
  te_name :: string
  te_order_index :: int
  te_uses_weight :: bool

record WorkoutTemplate =
  t_id :: uuid
  t_name :: string
  t_created_at :: datetime
  t_exercises :: "TemplateExercise list"

section \<open>The tables (migrations.py, migration 001)\<close>

text \<open>
  One record per table row, the columns as the schema declares them. A table is the
  list of its rows in rowid order: an \<open>INSERT\<close> appends, an \<open>UPDATE\<close> changes a row
  in place.
\<close>

record template_row =
  tr_id :: uuid
  tr_name :: string
  tr_created_at :: datetime

record template_exercise_row =
  ter_id :: uuid
  ter_template_id :: uuid
  ter_name :: string
  ter_order_index :: int
  ter_uses_weight :: int

record session_row =
  sr_id :: uuid
  sr_template_id :: "uuid option"
  sr_template_name :: "string option"
  sr_started_at :: datetime
  sr_ended_at :: "datetime option"
  sr_duration_seconds :: "int option"
  sr_notes :: "string option"

record session_exercise_row =
  ser_id :: uuid
  ser_session_id :: uuid
  ser_name :: string
  ser_order_index :: int
  ser_uses_weight :: int

record set_row =
  sw_id :: uuid
  sw_session_exercise_id :: uuid
  sw_reps :: int
  sw_weight :: "rat option"
  sw_created_at :: datetime

record store =
  workout_templates :: "template_row list"
  template_exercises :: "template_exercise_row list"
  workout_sessions :: "session_row list"
  session_exercises :: "session_exercise_row list"
  sets :: "set_row list"
  app_state :: "(string \<times> string) list"

definition empty_store :: store where
  "empty_store = \<lparr>workout_templates = [], template_exercises = [], workout_sessions = [],
     session_exercises = [], sets = [], app_state = []\<rparr>"

text \<open>
  What the database code raises: the two errors of \<open>sqlite3\<close> that the statements
  below raise, both of class \<open>Exception\<close>, and \<open>KeyboardInterrupt\<close>, which is
  a \<open>BaseException\<close> and no \<open>Exception\<close> and which no statement raises.
\<close>

datatype db_exception = IntegrityError | OperationalError | KeyboardInterrupt

fun is_Exception :: "db_exception \<Rightarrow> bool" where
  "is_Exception IntegrityError = True"
| "is_Exception OperationalError = True"
| "is_Exception KeyboardInterrupt = False"

text \<open>Whether a table holds a row with the given primary key.\<close>

definition has_key :: "('r \<Rightarrow> 'k) \<Rightarrow> 'k \<Rightarrow> 'r list \<Rightarrow> bool" where
  "has_key key k rows = (k \<in> set (map key rows))"

text \<open>\<open>UPDATE ... WHERE key = k\<close>.\<close>

definition update_where :: "('r \<Rightarrow> 'k) \<Rightarrow> 'k \<Rightarrow> ('r \<Rightarrow> 'r) \<Rightarrow> 'r list \<Rightarrow> 'r list" where
  "update_where key k f rows = map (\<lambda>r. if key r = k then f r else r) rows"

text \<open>\<open>bool(...)\<close> of an integer column and its inverse \<open>1 if b else 0\<close>.\<close>

definition py_bool :: "int \<Rightarrow> bool" where
  "py_bool n = (n \<noteq> 0)"

definition bool_to_int :: "bool \<Rightarrow> int" where
  "bool_to_int b = (if b then 1 else 0)"

section \<open>SQL statements of the repositories (repositories.py)\<close>

text \<open>
  Each statement is one \<open>cursor.execute\<close> of the source, on the tables of migration
  001 with foreign keys enforced: a primary key that is already taken and a parent row
  that is missing both raise \<open>sqlite3.IntegrityError\<close>. \<open>ON CONFLICT(id) DO UPDATE\<close>
  changes the listed columns of the row that holds the key and inserts nothing.
\<close>

definition upsert_template :: "uuid \<Rightarrow> string \<Rightarrow> datetime \<Rightarrow> (db_exception, store) statement" where
  "upsert_template i n ca s =
     (if has_key tr_id i (workout_templates s)
      then Inr (s\<lparr>workout_templates :=
                   update_where tr_id i (\<lambda>r. r\<lparr>tr_name := n\<rparr>) (workout_templates s)\<rparr>)
      else Inr (s\<lparr>workout_templates :=
                   workout_templates s @ [\<lparr>tr_id = i, tr_name = n, tr_created_at = ca\<rparr>]\<rparr>))"

definition delete_template_exercises :: "uuid \<Rightarrow> (db_exception, store) statement" where
  "delete_template_exercises tid s =
     Inr (s\<lparr>template_exercises :=
              filter (\<lambda>r. ter_template_id r \<noteq> tid) (template_exercises s)\<rparr>)"

definition insert_template_exercise :: "template_exercise_row \<Rightarrow> (db_exception, store) statement" where
  "insert_template_exercise row s =
     (if has_key ter_id (ter_id row) (template_exercises s) then Inl IntegrityError
      else if \<not> has_key tr_id (ter_template_id row) (workout_templates s) then Inl IntegrityError
      else Inr (s\<lparr>template_exercises := template_exercises s @ [row]\<rparr>))"

text \<open>
  \<open>DELETE FROM workout_templates WHERE id = ?\<close>: the template's exercises go with it
  (\<open>ON DELETE CASCADE\<close>) and sessions started from it lose the reference
  (\<open>ON DELETE SET NULL\<close>).
\<close>

definition delete_template :: "uuid \<Rightarrow> (db_exception, store) statement" where
  "delete_template tid s =
     (if has_key tr_id tid (workout_templates s)
      then Inr (s\<lparr>workout_templates := filter (\<lambda>r. tr_id r \<noteq> tid) (workout_templates s),
                  template_exercises :=
                    filter (\<lambda>r. ter_template_id r \<noteq> tid) (template_exercises s),
                  workout_sessions :=
                    map (\<lambda>r. if sr_template_id r = Some tid then r\<lparr>sr_template_id := None\<rparr> else r)
                      (workout_sessions s)\<rparr>)
      else Inr s)"

definition template_ref_ok :: "uuid option \<Rightarrow> store \<Rightarrow> bool" where
  "template_ref_ok ref s =
     (case ref of None \<Rightarrow> True | Some tid \<Rightarrow> has_key tr_id tid (workout_templates s))"

definition upsert_session :: "session_row \<Rightarrow> (db_exception, store) statement" where
  "upsert_session row s =
     (if \<not> template_ref_ok (sr_template_id row) s then Inl IntegrityError
      else if has_key sr_id (sr_id row) (workout_sessions s)
      then Inr (s\<lparr>workout_sessions :=
                   update_where sr_id (sr_id row)
                     (\<lambda>r. r\<lparr>sr_template_id := sr_template_id row,
                            sr_template_name := sr_template_name row,
                            sr_ended_at := sr_ended_at row,
                            sr_duration_seconds := sr_duration_seconds row,
                            sr_notes := sr_notes row\<rparr>)
                     (workout_sessions s)\<rparr>)
      else Inr (s\<lparr>workout_sessions := workout_sessions s @ [row]\<rparr>))"

definition upsert_session_exercise :: "session_exercise_row \<Rightarrow> (db_exception, store) statement" where
  "upsert_session_exercise row s =
     (if has_key ser_id (ser_id row) (session_exercises s)
      then Inr (s\<lparr>session_exercises :=
                   update_where ser_id (ser_id row)
                     (\<lambda>r. r\<lparr>ser_name := ser_name row,
                            ser_order_index := ser_order_index row,
                            ser_uses_weight := ser_uses_weight row\<rparr>)
                     (session_exercises s)\<rparr>)
      else if \<not> has_key sr_id (ser_session_id row) (workout_sessions s) then Inl IntegrityError
      else Inr (s\<lparr>session_exercises := session_exercises s @ [row]\<rparr>))"

definition delete_session_exercise :: "uuid \<Rightarrow> (db_exception, store) statement" where
  "delete_session_exercise eid s =
     (if has_key ser_id eid (session_exercises s)
      then Inr (s\<lparr>session_exercises := filter (\<lambda>r. ser_id r \<noteq> eid) (session_exercises s),
                  sets := filter (\<lambda>r. sw_session_exercise_id r \<noteq> eid) (sets s)\<rparr>)
      else Inr s)"

definition upsert_set :: "set_row \<Rightarrow> (db_exception, store) statement" where
  "upsert_set row s =
     (if has_key sw_id (sw_id row) (sets s)
      then Inr (s\<lparr>sets :=
                   update_where sw_id (sw_id row)
                     (\<lambda>r. r\<lparr>sw_reps := sw_reps row, sw_weight := sw_weight row\<rparr>) (sets s)\<rparr>)
      else if \<not> has_key ser_id (sw_session_exercise_id row) (session_exercises s)
      then Inl IntegrityError
      else Inr (s\<lparr>sets := sets s @ [row]\<rparr>))"

definition delete_set_row :: "uuid \<Rightarrow> (db_exception, store) statement" where
  "delete_set_row sid s = Inr (s\<lparr>sets := filter (\<lambda>r. sw_id r \<noteq> sid) (sets s)\<rparr>)"

definition update_session_ended :: "datetime \<Rightarrow> int \<Rightarrow> uuid \<Rightarrow> (db_exception, store) statement" where
  "update_session_ended now duration sid s =
     Inr (s\<lparr>workout_sessions :=
              update_where sr_id sid
                (\<lambda>r. r\<lparr>sr_ended_at := Some now, sr_duration_seconds := Some duration\<rparr>)
                (workout_sessions s)\<rparr>)"

definition delete_session :: "uuid \<Rightarrow> (db_exception, store) statement" where
  "delete_session sid s =
     (if has_key sr_id sid (workout_sessions s)
      then let gone = map ser_id (filter (\<lambda>r. ser_session_id r = sid) (session_exercises s))
           in Inr (s\<lparr>workout_sessions := filter (\<lambda>r. sr_id r \<noteq> sid) (workout_sessions s),
                     session_exercises :=
                       filter (\<lambda>r. ser_session_id r \<noteq> sid) (session_exercises s),
                     sets := filter (\<lambda>r. sw_session_exercise_id r \<notin> set gone) (sets s)\<rparr>)
      else Inr s)"

definition upsert_app_state :: "string \<Rightarrow> string \<Rightarrow> (db_exception, store) statement" where
  "upsert_app_state k v s =
     (if has_key fst k (app_state s)
      then Inr (s\<lparr>app_state := update_where fst k (\<lambda>r. (fst r, v)) (app_state s)\<rparr>)
      else Inr (s\<lparr>app_state := app_state s @ [(k, v)]\<rparr>))"

definition delete_app_state :: "string \<Rightarrow> (db_exception, store) statement" where
  "delete_app_state k s = Inr (s\<lparr>app_state := filter (\<lambda>r. fst r \<noteq> k) (app_state s)\<rparr>)"

section \<open>The repositories (repositories.py)\<close>

text \<open>
  The repositories work on the connection of an initialised database. A method that
  writes returns the exception it raises, if any, and the connection afterwards; a
  method that reads works on what a cursor sees. \<open>ORDER BY\<close> is the stable sort
  \<open>sort_key\<close>: rows with equal keys stay in table order, which SQL leaves open.
\<close>

type_synonym db = "store connection"

subsection \<open>TemplateRepository\<close>

definition row_to_template_exercise :: "template_exercise_row \<Rightarrow> TemplateExercise" where
  "row_to_template_exercise r =
     \<lparr>te_id = ter_id r, te_template_id = ter_template_id r, te_name = ter_name r,
      te_order_index = ter_order_index r, te_uses_weight = py_bool (ter_uses_weight r)\<rparr>"

definition TemplateRepository_get_by_id :: "uuid \<Rightarrow> db \<Rightarrow> WorkoutTemplate option" where
  "TemplateRepository_get_by_id template_id c =
     (let s = view c
      in case find (\<lambda>r. tr_id r = template_id) (workout_templates s) of
           None \<Rightarrow> None
         | Some row \<Rightarrow>
             Some \<lparr>t_id = tr_id row, t_name = tr_name row, t_created_at = tr_created_at row,
                   t_exercises =
                     map row_to_template_exercise
                       (sort_key ter_order_index
                         (filter (\<lambda>r. ter_template_id r = template_id)
                           (template_exercises s)))\<rparr>)"

text \<open>The row written for an exercise of the template \<open>tid\<close>.\<close>

definition template_exercise_to_row :: "uuid \<Rightarrow> TemplateExercise \<Rightarrow> template_exercise_row" where
  "template_exercise_to_row tid e =
     \<lparr>ter_id = te_id e, ter_template_id = tid, ter_name = te_name e,
      ter_order_index = te_order_index e, ter_uses_weight = bool_to_int (te_uses_weight e)\<rparr>"

definition TemplateRepository_save_body :: "WorkoutTemplate \<Rightarrow> (db_exception, store) statement list" where
  "TemplateRepository_save_body t =
     upsert_template (t_id t) (t_name t) (t_created_at t) #
     delete_template_exercises (t_id t) #
     map (\<lambda>e. insert_template_exercise (template_exercise_to_row (t_id t) e)) (t_exercises t)"

definition TemplateRepository_save :: "WorkoutTemplate \<Rightarrow> db \<Rightarrow> db_exception option \<times> db" where
  "TemplateRepository_save t c = transaction (map Dml (TemplateRepository_save_body t)) c"

definition TemplateRepository_delete :: "uuid \<Rightarrow> db \<Rightarrow> db_exception option \<times> db" where
  "TemplateRepository_delete template_id c = transaction [Dml (delete_template template_id)] c"

subsection \<open>SessionRepository\<close>

definition row_to_set :: "set_row \<Rightarrow> WorkoutSet" where
  "row_to_set r =
     \<lparr>set_id = sw_id r, set_session_exercise_id = sw_session_exercise_id r,
      set_reps = sw_reps r, set_weight = sw_weight r, set_created_at = sw_created_at r\<rparr>"

definition set_to_row :: "WorkoutSet \<Rightarrow> set_row" where
  "set_to_row w =
     \<lparr>sw_id = set_id w, sw_session_exercise_id = set_session_exercise_id w,
      sw_reps = set_reps w, sw_weight = set_weight w, sw_created_at = set_created_at w\<rparr>"

definition session_exercise_to_row :: "SessionExercise \<Rightarrow> session_exercise_row" where
  "session_exercise_to_row e =
     \<lparr>ser_id = se_id e, ser_session_id = se_session_id e, ser_name = se_name e,
      ser_order_index = se_order_index e, ser_uses_weight = bool_to_int (se_uses_weight e)\<rparr>"

definition session_to_row :: "WorkoutSession \<Rightarrow> session_row" where
  "session_to_row x =
     \<lparr>sr_id = ws_id x, sr_template_id = ws_template_id x,
      sr_template_name = ws_template_name x, sr_started_at = ws_started_at x,
      sr_ended_at = ws_ended_at x, sr_duration_seconds = ws_duration_seconds x,
      sr_notes = ws_notes x\<rparr>"

text \<open>\<open>_load_exercises\<close>: the exercises of a session, each with its sets.\<close>

definition load_sets :: "store \<Rightarrow> uuid \<Rightarrow> WorkoutSet list" where
  "load_sets s eid =
     map row_to_set
       (sort_key sw_created_at (filter (\<lambda>r. sw_session_exercise_id r = eid) (sets s)))"

definition load_exercises :: "store \<Rightarrow> uuid \<Rightarrow> SessionExercise list" where
  "load_exercises s sid =
     map (\<lambda>r. \<lparr>se_id = ser_id r, se_session_id = ser_session_id r, se_name = ser_name r,
               se_order_index = ser_order_index r,
               se_uses_weight = py_bool (ser_uses_weight r),
               se_sets = load_sets s (ser_id r)\<rparr>)
       (sort_key ser_order_index
         (filter (\<lambda>r. ser_session_id r = sid) (session_exercises s)))"

text \<open>\<open>_row_to_session\<close>, with the exercises that \<open>_load_exercises\<close> appends.\<close>

definition row_to_session :: "session_row \<Rightarrow> SessionExercise list \<Rightarrow> WorkoutSession" where
  "row_to_session row es =
     \<lparr>ws_id = sr_id row, ws_template_id = sr_template_id row,
      ws_template_name = sr_template_name row, ws_started_at = sr_started_at row,
      ws_ended_at = sr_ended_at row, ws_duration_seconds = sr_duration_seconds row,
      ws_notes = sr_notes row, ws_exercises = es\<rparr>"

definition SessionRepository_get_by_id :: "uuid \<Rightarrow> db \<Rightarrow> WorkoutSession option" where
  "SessionRepository_get_by_id session_id c =
     (let s = view c
      in case find (\<lambda>r. sr_id r = session_id) (workout_sessions s) of
           None \<Rightarrow> None
         | Some row \<Rightarrow> Some (row_to_session row (load_exercises s (sr_id row))))"

definition SessionRepository_save :: "WorkoutSession \<Rightarrow> db \<Rightarrow> db_exception option \<times> db" where
  "SessionRepository_save x c = transaction [Dml (upsert_session (session_to_row x))] c"

definition SessionRepository_save_exercise :: "SessionExercise \<Rightarrow> db \<Rightarrow> db_exception option \<times> db" where
  "SessionRepository_save_exercise e c =
     transaction [Dml (upsert_session_exercise (session_exercise_to_row e))] c"

definition SessionRepository_delete_exercise :: "uuid \<Rightarrow> db \<Rightarrow> db_exception option \<times> db" where
  "SessionRepository_delete_exercise exercise_id c =
     transaction [Dml (delete_session_exercise exercise_id)] c"

definition SessionRepository_save_set :: "WorkoutSet \<Rightarrow> db \<Rightarrow> db_exception option \<times> db" where
  "SessionRepository_save_set w c = transaction [Dml (upsert_set (set_to_row w))] c"

definition SessionRepository_delete_set :: "uuid \<Rightarrow> db \<Rightarrow> db_exception option \<times> db" where
  "SessionRepository_delete_set sid c = transaction [Dml (delete_set_row sid)] c"

text \<open>\<open>end_session\<close>; \<open>now\<close> is the value of \<open>datetime.now()\<close> at the call.\<close>

definition SessionRepository_end_session :: "datetime \<Rightarrow> uuid \<Rightarrow> int \<Rightarrow> db \<Rightarrow> db_exception option \<times> db" where
  "SessionRepository_end_session now session_id duration_seconds c =
     transaction [Dml (update_session_ended now duration_seconds session_id)] c"

definition SessionRepository_delete :: "uuid \<Rightarrow> db \<Rightarrow> db_exception option \<times> db" where
  "SessionRepository_delete session_id c = transaction [Dml (delete_session session_id)] c"

text \<open>
  \<open>get_last_weight_for_exercise\<close>: the join of \<open>sets\<close> with \<open>session_exercises\<close>,
  the \<open>WHERE\<close> clause, \<open>ORDER BY s.created_at DESC\<close> and \<open>LIMIT 1\<close>.
\<close>

definition weighted_sets_of :: "store \<Rightarrow> string \<Rightarrow> set_row list" where
  "weighted_sets_of s exercise_name =
     concat (map (\<lambda>r. map (\<lambda>e. r)
                        (filter (\<lambda>e. sw_session_exercise_id r = ser_id e \<and>
                                      ser_name e = exercise_name \<and> sw_weight r \<noteq> None)
                          (session_exercises s)))
              (sets s))"

definition SessionRepository_get_last_weight_for_exercise :: "string \<Rightarrow> db \<Rightarrow> rat option" where
  "SessionRepository_get_last_weight_for_exercise exercise_name c =
     (case sort_key (\<lambda>r. - sw_created_at r) (weighted_sets_of (view c) exercise_name) of
        [] \<Rightarrow> None
      | row # _ \<Rightarrow> sw_weight row)"

text \<open>
  Saving a whole session the way the callers and the tests do: the session itself, then
  each exercise followed by its sets.
\<close>

definition save_session_calls :: "WorkoutSession \<Rightarrow> (db \<Rightarrow> db_exception option \<times> db) list" where
  "save_session_calls x =
     SessionRepository_save x #
     concat (map (\<lambda>e. SessionRepository_save_exercise e #
                       map SessionRepository_save_set (se_sets e))
              (ws_exercises x))"

definition save_session_aggregate :: "WorkoutSession \<Rightarrow> db \<Rightarrow> db_exception option \<times> db" where
  "save_session_aggregate x c = calls (save_session_calls x) c"

subsection \<open>AppStateRepository\<close>

definition AppStateRepository_get :: "string \<Rightarrow> db \<Rightarrow> string option" where
  "AppStateRepository_get k c = map_option snd (find (\<lambda>r. fst r = k) (app_state (view c)))"

definition AppStateRepository_set :: "string \<Rightarrow> string \<Rightarrow> db \<Rightarrow> db_exception option \<times> db" where
  "AppStateRepository_set k v c = transaction [Dml (upsert_app_state k v)] c"

definition AppStateRepository_delete :: "string \<Rightarrow> db \<Rightarrow> db_exception option \<times> db" where
  "AppStateRepository_delete k c = transaction [Dml (delete_app_state k)] c"

subsection \<open>The persisted timer snapshot\<close>

text \<open>
  \<open>json.loads\<close> and \<open>datetime.fromisoformat\<close> belong to the Python library; they
  are parameters here: \<open>loads v\<close> is \<open>None\<close> where \<open>json.loads\<close> raises
  \<open>JSONDecodeError\<close>, and \<open>fromisoformat x\<close> is \<open>None\<close> where the library raises
  \<open>ValueError\<close>. A JSON object is the dictionary \<open>json.loads\<close> builds, as a list of
  keys with their values.
\<close>

datatype json =
    JNull
  | JBool bool
  | JNumber rat
  | JString string
  | JArray "json list"
  | JObject "(string \<times> json) list"

datatype py_exception = JSONDecodeError | KeyError | TypeError | ValueError

text \<open>\<open>data[key]\<close> with a string key.\<close>

fun subscript :: "json \<Rightarrow> string \<Rightarrow> py_exception + json" where
  "subscript (JObject kvs) k = (case map_of kvs k of None \<Rightarrow> Inl KeyError | Some v \<Rightarrow> Inr v)"
| "subscript _ k = Inl TypeError"

text \<open>The truth value Python gives a decoded JSON value.\<close>

fun truthy :: "json \<Rightarrow> bool" where
  "truthy JNull = False"
| "truthy (JBool b) = b"
| "truthy (JNumber n) = (n \<noteq> 0)"
| "truthy (JString x) = (x \<noteq> [])"
| "truthy (JArray xs) = (xs \<noteq> [])"
| "truthy (JObject kvs) = (kvs \<noteq> [])"

definition sum_bind :: "'e + 'a \<Rightarrow> ('a \<Rightarrow> 'e + 'b) \<Rightarrow> 'e + 'b" where
  "sum_bind m f = (case m of Inl e \<Rightarrow> Inl e | Inr x \<Rightarrow> f x)"

text \<open>\<open>datetime.fromisoformat(data[key]) if data[key] else None\<close>.\<close>

definition optional_time :: "(string \<Rightarrow> datetime option) \<Rightarrow> json \<Rightarrow> string \<Rightarrow> py_exception + datetime option" where
  "optional_time fromisoformat data k =
     sum_bind (subscript data k) (\<lambda>cond.
       if truthy cond
       then sum_bind (subscript data k) (\<lambda>v.
              case v of
                JString x \<Rightarrow>
                  (case fromisoformat x of None \<Rightarrow> Inl ValueError | Some d \<Rightarrow> Inr (Some d))
              | _ \<Rightarrow> Inl TypeError)
       else Inr None)"

text \<open>
  The \<open>TimerState\<close> built from the decoded snapshot. Its constructor checks no types:
  three of the fields hold whatever JSON value the snapshot gave them.
\<close>

record raw_timer_state =
  raw_is_running :: json
  raw_is_paused :: json
  raw_start_time :: "datetime option"
  raw_pause_time :: "datetime option"
  raw_accumulated_seconds :: json

text \<open>The \<open>try\<close> block of \<open>get_timer_state\<close>.\<close>

definition decode_timer_state :: "(string \<Rightarrow> json option) \<Rightarrow> (string \<Rightarrow> datetime option) \<Rightarrow> string \<Rightarrow> py_exception + raw_timer_state" where
  "decode_timer_state loads fromisoformat v =
     (case loads v of
        None \<Rightarrow> Inl JSONDecodeError
      | Some data \<Rightarrow>
          sum_bind (subscript data ''is_running'') (\<lambda>r.
          sum_bind (subscript data ''is_paused'') (\<lambda>p.
          sum_bind (optional_time fromisoformat data ''start_time'') (\<lambda>st.
          sum_bind (optional_time fromisoformat data ''pause_time'') (\<lambda>pt.
          sum_bind (subscript data ''accumulated_seconds'') (\<lambda>a.
            Inr \<lparr>raw_is_running = r, raw_is_paused = p, raw_start_time = st,
                 raw_pause_time = pt, raw_accumulated_seconds = a\<rparr>))))))"

text \<open>
  \<open>get_timer_state\<close>: \<open>Inr None\<close> is the answer "no saved state", \<open>Inl e\<close> an
  exception that leaves the method.
\<close>

definition AppStateRepository_get_timer_state :: "(string \<Rightarrow> json option) \<Rightarrow> (string \<Rightarrow> datetime option) \<Rightarrow> db \<Rightarrow> py_exception + raw_timer_state option" where
  "AppStateRepository_get_timer_state loads fromisoformat c =
     (case AppStateRepository_get ''timer_state'' c of
        None \<Rightarrow> Inr None
      | Some v \<Rightarrow>
          (case decode_timer_state loads fromisoformat v of
             Inr st \<Rightarrow> Inr (Some st)
           | Inl JSONDecodeError \<Rightarrow> Inr None
           | Inl KeyError \<Rightarrow> Inr None
           | Inl e \<Rightarrow> Inl e))"

section \<open>The migration engine (migrations.py)\<close>

text \<open>
  For the migrations the database is its catalogue (the names of the tables and of the
  indexes, as \<open>sqlite_master\<close> lists them), the version ledger and the rows of the
  application's tables. A statement on a table that does not exist raises
  \<open>sqlite3.OperationalError\<close>.
\<close>

record database =
  tables :: "string list"
  indexes :: "string list"
  schema_version :: "(int \<times> datetime) list"
  content :: store

definition empty_database :: database where
  "empty_database = \<lparr>tables = [], indexes = [], schema_version = [], content = empty_store\<rparr>"

type_synonym dbconn = "database connection"

definition create_table_if_not_exists :: "string \<Rightarrow> (db_exception, database) statement" where
  "create_table_if_not_exists name d =
     Inr (if name \<in> set (tables d) then d else d\<lparr>tables := tables d @ [name]\<rparr>)"

definition create_index_if_not_exists :: "string \<Rightarrow> string \<Rightarrow> (db_exception, database) statement" where
  "create_index_if_not_exists name tbl d =
     (if name \<in> set (indexes d) then Inr d
      else if tbl \<notin> set (tables d) then Inl OperationalError
      else Inr (d\<lparr>indexes := indexes d @ [name]\<rparr>))"

text \<open>A statement of the application's tables, run on the database.\<close>

definition on_table :: "string \<Rightarrow> (db_exception, store) statement \<Rightarrow> (db_exception, database) statement" where
  "on_table tbl q d =
     (if tbl \<notin> set (tables d) then Inl OperationalError
      else case q (content d) of
             Inl e \<Rightarrow> Inl e
           | Inr s \<Rightarrow> Inr (d\<lparr>content := s\<rparr>))"

definition insert_template :: "template_row \<Rightarrow> (db_exception, store) statement" where
  "insert_template row s =
     (if has_key tr_id (tr_id row) (workout_templates s) then Inl IntegrityError
      else Inr (s\<lparr>workout_templates := workout_templates s @ [row]\<rparr>))"

definition insert_schema_version :: "int \<Rightarrow> datetime \<Rightarrow> (db_exception, database) statement" where
  "insert_schema_version version applied_at d =
     (if ''schema_version'' \<notin> set (tables d) then Inl OperationalError
      else if has_key fst version (schema_version d) then Inl IntegrityError
      else Inr (d\<lparr>schema_version := schema_version d @ [(version, applied_at)]\<rparr>))"

text \<open>
  What a run draws from its environment: \<open>env_uuid4 k\<close> is the value of the \<open>k\<close>-th
  call of \<open>uuid4()\<close> in the seed migration, \<open>env_now k\<close> the value of its \<open>k\<close>-th
  call of \<open>datetime.now()\<close>, and \<open>env_applied_at v\<close> the time written to the ledger
  for version \<open>v\<close>.
\<close>

record env =
  env_uuid4 :: "nat \<Rightarrow> uuid"
  env_now :: "nat \<Rightarrow> datetime"
  env_applied_at :: "int \<Rightarrow> datetime"

definition migration_001_initial_schema :: "dbconn \<Rightarrow> db_exception option \<times> dbconn" where
  "migration_001_initial_schema c =
     transaction
       [Ddl (create_table_if_not_exists ''workout_templates''),
        Ddl (create_table_if_not_exists ''template_exercises''),
        Ddl (create_table_if_not_exists ''workout_sessions''),
        Ddl (create_table_if_not_exists ''session_exercises''),
        Ddl (create_table_if_not_exists ''sets''),
        Ddl (create_table_if_not_exists ''app_state''),
        Ddl (create_index_if_not_exists ''idx_template_exercises_template_id'' ''template_exercises''),
        Ddl (create_index_if_not_exists ''idx_session_exercises_session_id'' ''session_exercises''),
        Ddl (create_index_if_not_exists ''idx_sets_session_exercise_id'' ''sets''),
        Ddl (create_index_if_not_exists ''idx_workout_sessions_started_at'' ''workout_sessions'')]
       c"

definition seed_templates :: "(string \<times> (string \<times> bool) list) list" where
  "seed_templates =
     [(''Push Day'',
         [(''Bench Press'', True), (''Overhead Press'', True),
          (''Incline Dumbbell Press'', True), (''Tricep Pushdowns'', True),
          (''Lateral Raises'', True)]),
      (''Pull Day'',
         [(''Deadlift'', True), (''Barbell Rows'', True), (''Pull-ups'', False),
          (''Face Pulls'', True), (''Bicep Curls'', True)]),
      (''Leg Day'',
         [(''Squats'', True), (''Romanian Deadlifts'', True), (''Leg Press'', True),
          (''Leg Curls'', True), (''Calf Raises'', True)])]"

text \<open>
  The statements of the seed migration. \<open>k\<close> counts the calls of \<open>uuid4()\<close> made so
  far and \<open>j\<close> the templates written so far.
\<close>

fun seed_exercise_statements :: "env \<Rightarrow> uuid \<Rightarrow> nat \<Rightarrow> nat \<Rightarrow> (string \<times> bool) list \<Rightarrow> (db_exception, database) statement list" where
  "seed_exercise_statements e template_id k order_idx [] = []"
| "seed_exercise_statements e template_id k order_idx ((name, uses_weight) # rest) =
     on_table ''template_exercises''
       (insert_template_exercise
          \<lparr>ter_id = env_uuid4 e k, ter_template_id = template_id, ter_name = name,
           ter_order_index = int order_idx, ter_uses_weight = bool_to_int uses_weight\<rparr>) #
     seed_exercise_statements e template_id (Suc k) (Suc order_idx) rest"

fun seed_statements :: "env \<Rightarrow> nat \<Rightarrow> nat \<Rightarrow> (string \<times> (string \<times> bool) list) list \<Rightarrow> (db_exception, database) statement list" where
  "seed_statements e k j [] = []"
| "seed_statements e k j ((name, exercises) # rest) =
     on_table ''workout_templates''
       (insert_template \<lparr>tr_id = env_uuid4 e k, tr_name = name, tr_created_at = env_now e j\<rparr>) #
     seed_exercise_statements e (env_uuid4 e k) (Suc k) 0 exercises @
     seed_statements e (Suc k + length exercises) (Suc j) rest"

definition migration_002_seed_templates :: "env \<Rightarrow> dbconn \<Rightarrow> db_exception option \<times> dbconn" where
  "migration_002_seed_templates e c =
     transaction (map Dml (seed_statements e 0 0 seed_templates)) c"

definition MIGRATIONS :: "env \<Rightarrow> (int \<times> string \<times> (dbconn \<Rightarrow> db_exception option \<times> dbconn)) list" where
  "MIGRATIONS e =
     [(1, ''initial_schema'', migration_001_initial_schema),
      (2, ''seed_templates'', migration_002_seed_templates e)]"

definition get_current_version :: "dbconn \<Rightarrow> int" where
  "get_current_version c =
     (let d = view c
      in if ''schema_version'' \<notin> set (tables d) then 0
         else case sort_key (\<lambda>v. - v) (map fst (schema_version d)) of
                [] \<Rightarrow> 0
              | version # _ \<Rightarrow> version)"

text \<open>The lines \<open>apply_migrations\<close> prints, one per event.\<close>

datatype log_line =
    Applying int string
  | Applied int
  | MigrationFailed int db_exception

text \<open>
  The loop of \<open>apply_migrations\<close> over the list of migrations; its clause
  \<open>except Exception\<close> prints the failure line.
\<close>

fun apply_pending :: "env \<Rightarrow> int \<Rightarrow> (int \<times> string \<times> (dbconn \<Rightarrow> db_exception option \<times> dbconn)) list \<Rightarrow> dbconn \<Rightarrow> log_line list \<times> db_exception option \<times> dbconn" where
  "apply_pending e current_version [] c = ([], None, c)"
| "apply_pending e current_version ((version, name, migration_fn) # rest) c =
     (if version > current_version
      then case migration_fn c of
             (Some err, c1) \<Rightarrow>
               (Applying version name #
                  (if is_Exception err then [MigrationFailed version err] else []),
                Some err, c1)
           | (None, c1) \<Rightarrow>
               (case transaction [Dml (insert_schema_version version (env_applied_at e version))] c1 of
                  (Some err, c2) \<Rightarrow>
                    (Applying version name #
                       (if is_Exception err then [MigrationFailed version err] else []),
                     Some err, c2)
                | (None, c2) \<Rightarrow>
                    (case apply_pending e current_version rest c2 of
                       (printed, raised, c3) \<Rightarrow>
                         (Applying version name # Applied version # printed, raised, c3)))
      else apply_pending e current_version rest c)"

definition apply_migrations :: "env \<Rightarrow> dbconn \<Rightarrow> log_line list \<times> db_exception option \<times> dbconn" where
  "apply_migrations e c =
     (case transaction [Ddl (create_table_if_not_exists ''schema_version'')] c of
        (Some err, c0) \<Rightarrow> ([], Some err, c0)
      | (None, c0) \<Rightarrow> apply_pending e (get_current_version c0) (MIGRATIONS e) c0)"

section \<open>Well-formed aggregates\<close>

text \<open>
  What the application keeps true of the aggregates it builds: every child names its
  parent, children have identifiers of their own, the exercises are listed by
  increasing \<open>order_index\<close> and the sets of an exercise by increasing
  \<open>created_at\<close>.
\<close>

definition template_wf :: "WorkoutTemplate \<Rightarrow> bool" where
  "template_wf t \<longleftrightarrow>
     (\<forall>e \<in> set (t_exercises t). te_template_id e = t_id t) \<and>
     distinct (map te_id (t_exercises t)) \<and>
     sorted_wrt (<) (map te_order_index (t_exercises t))"

definition all_sets :: "WorkoutSession \<Rightarrow> WorkoutSet list" where
  "all_sets x = concat (map se_sets (ws_exercises x))"

definition session_wf :: "WorkoutSession \<Rightarrow> bool" where
  "session_wf x \<longleftrightarrow>
     (\<forall>e \<in> set (ws_exercises x).
        se_session_id e = ws_id x \<and>
        (\<forall>w \<in> set (se_sets e). set_session_exercise_id w = se_id e) \<and>
        sorted_wrt (<) (map set_created_at (se_sets e))) \<and>
     distinct (map se_id (ws_exercises x)) \<and>
     sorted_wrt (<) (map se_order_index (ws_exercises x)) \<and>
     distinct (map set_id (all_sets x))"

text \<open>
  The store can take the template: a stored row of the same template has the same
  \<open>created_at\<close>, and no exercise identifier of the template is in use by another
  template.
\<close>

definition template_fits :: "WorkoutTemplate \<Rightarrow> store \<Rightarrow> bool" where
  "template_fits t s \<longleftrightarrow>
     (\<forall>r \<in> set (workout_templates s). tr_id r = t_id t \<longrightarrow> tr_created_at r = t_created_at t) \<and>
     (\<forall>r \<in> set (template_exercises s).
        ter_id r \<in> set (map te_id (t_exercises t)) \<longrightarrow> ter_template_id r = t_id t)"

text \<open>
  The store can take the session. A stored row of the same session has the same
  \<open>started_at\<close>. The stored exercises of the session are the rows that carry an
  identifier of one of its in-memory exercises. A stored set under one of these exercises
  carries the identifier of one of its in-memory sets, and a stored set that carries the
  identifier of an in-memory set is under the same exercise with the same
  \<open>created_at\<close>. The primary keys of the two child tables are unique.
\<close>

definition session_fits :: "WorkoutSession \<Rightarrow> store \<Rightarrow> bool" where
  "session_fits x s \<longleftrightarrow>
     (\<forall>r \<in> set (workout_sessions s). sr_id r = ws_id x \<longrightarrow> sr_started_at r = ws_started_at x) \<and>
     distinct (map ser_id (session_exercises s)) \<and>
     (\<forall>r \<in> set (session_exercises s).
        (ser_session_id r = ws_id x) = (ser_id r \<in> set (map se_id (ws_exercises x)))) \<and>
     distinct (map sw_id (sets s)) \<and>
     (\<forall>r \<in> set (sets s). \<forall>e \<in> set (ws_exercises x).
        (sw_session_exercise_id r = se_id e \<longrightarrow> sw_id r \<in> set (map set_id (se_sets e))) \<and>
        (\<forall>w \<in> set (se_sets e). sw_id r = set_id w \<longrightarrow>
           sw_session_exercise_id r = se_id e \<and> sw_created_at r = set_created_at w))"

text \<open>
  A session that is new to the store: the store holds no row of it, none of its exercises
  or sets, and no row that refers to them.
\<close>

definition session_new_to :: "WorkoutSession \<Rightarrow> store \<Rightarrow> bool" where
  "session_new_to x s \<longleftrightarrow>
     \<not> has_key sr_id (ws_id x) (workout_sessions s) \<and>
     (\<forall>r \<in> set (session_exercises s).
        ser_session_id r \<noteq> ws_id x \<and> ser_id r \<notin> set (map se_id (ws_exercises x))) \<and>
     (\<forall>r \<in> set (sets s).
        sw_session_exercise_id r \<notin> set (map se_id (ws_exercises x)) \<and>
        sw_id r \<notin> set (map set_id (all_sets x)))"

text \<open>Primary keys are unique in every table of a store that SQLite holds.\<close>

definition keys_unique :: "store \<Rightarrow> bool" where
  "keys_unique s \<longleftrightarrow>
     distinct (map tr_id (workout_templates s)) \<and>
     distinct (map ter_id (template_exercises s)) \<and>
     distinct (map sr_id (workout_sessions s)) \<and>
     distinct (map ser_id (session_exercises s)) \<and>
     distinct (map sw_id (sets s)) \<and>
     distinct (map fst (app_state s))"

section \<open>Example data\<close>

text \<open>
  A store with one template of three exercises, one running session started from it
  with one exercise and three sets, and a timer snapshot whose \<open>start_time\<close> is no
  timestamp.
\<close>

definition demo_snapshot :: string where
  "demo_snapshot = ''{\"is_running\": true, \"is_paused\": false, \"start_time\": \"soon\", \"pause_time\": null, \"accumulated_seconds\": 12.5}''"

definition demo_store :: store where
  "demo_store =
     \<lparr>workout_templates = [\<lparr>tr_id = 1, tr_name = ''Leg Day'', tr_created_at = 10\<rparr>],
      template_exercises =
        [\<lparr>ter_id = 11, ter_template_id = 1, ter_name = ''Squats'', ter_order_index = 0,
          ter_uses_weight = 1\<rparr>,
         \<lparr>ter_id = 12, ter_template_id = 1, ter_name = ''Leg Press'', ter_order_index = 1,
          ter_uses_weight = 1\<rparr>,
         \<lparr>ter_id = 13, ter_template_id = 1, ter_name = ''Calf Raises'', ter_order_index = 2,
          ter_uses_weight = 1\<rparr>],
      workout_sessions =
        [\<lparr>sr_id = 2, sr_template_id = Some 1, sr_template_name = Some ''Leg Day'',
          sr_started_at = 100, sr_ended_at = None, sr_duration_seconds = None,
          sr_notes = None\<rparr>],
      session_exercises =
        [\<lparr>ser_id = 21, ser_session_id = 2, ser_name = ''Squats'', ser_order_index = 0,
          ser_uses_weight = 1\<rparr>],
      sets =
        [\<lparr>sw_id = 31, sw_session_exercise_id = 21, sw_reps = 5, sw_weight = Some 135,
          sw_created_at = 110\<rparr>,
         \<lparr>sw_id = 32, sw_session_exercise_id = 21, sw_reps = 5, sw_weight = Some 155,
          sw_created_at = 120\<rparr>,
         \<lparr>sw_id = 33, sw_session_exercise_id = 21, sw_reps = 5, sw_weight = Some 175,
          sw_created_at = 130\<rparr>],
      app_state = [(''timer_state'', demo_snapshot)]\<rparr>"

definition demo_db :: db where
  "demo_db = \<lparr>committed = demo_store, pending = None, commits = 0\<rparr>"

text \<open>What \<open>json.loads\<close> returns for the snapshot of the example.\<close>

definition demo_loads :: "string \<Rightarrow> json option" where
  "demo_loads v =
     (if v = demo_snapshot
      then Some (JObject
             [(''is_running'', JBool True), (''is_paused'', JBool False),
              (''start_time'', JString ''soon''), (''pause_time'', JNull),
              (''accumulated_seconds'', JNumber (25 / 2))])
      else None)"

text \<open>The session of the example as the application holds it, and a new one.\<close>

definition demo_session :: WorkoutSession where
  "demo_session =
     \<lparr>ws_id = 2, ws_template_id = Some 1, ws_template_name = Some ''Leg Day'',
      ws_started_at = 100, ws_ended_at = None, ws_duration_seconds = None, ws_notes = None,
      ws_exercises = []\<rparr>"

definition new_session :: WorkoutSession where
  "new_session =
     \<lparr>ws_id = 3, ws_template_id = None, ws_template_name = None, ws_started_at = 200,
      ws_ended_at = None, ws_duration_seconds = None, ws_notes = None,
      ws_exercises =
        [\<lparr>se_id = 41, se_session_id = 3, se_name = ''Bench Press'', se_order_index = 0,
          se_uses_weight = True,
          se_sets =
            [\<lparr>set_id = 51, set_session_exercise_id = 41, set_reps = 10,
              set_weight = Some 135, set_created_at = 210\<rparr>,
             \<lparr>set_id = 52, set_session_exercise_id = 41, set_reps = 8,
              set_weight = Some 145, set_created_at = 220\<rparr>]\<rparr>,
         \<lparr>se_id = 42, se_session_id = 3, se_name = ''Pull-ups'', se_order_index = 1,
          se_uses_weight = False,
          se_sets =
            [\<lparr>set_id = 53, set_session_exercise_id = 42, set_reps = 12,
              set_weight = None, set_created_at = 230\<rparr>]\<rparr>]\<rparr>"

definition new_template :: WorkoutTemplate where
  "new_template =
     \<lparr>t_id = 6, t_name = ''Full Body'', t_created_at = 300,
      t_exercises =
        [\<lparr>te_id = 61, te_template_id = 6, te_name = ''Squats'', te_order_index = 0,
          te_uses_weight = True\<rparr>,
         \<lparr>te_id = 62, te_template_id = 6, te_name = ''Pull-ups'', te_order_index = 1,
          te_uses_weight = False\<rparr>]\<rparr>"

text \<open>A template whose exercises are listed against their \<open>order_index\<close>.\<close>

definition unordered_template :: WorkoutTemplate where
  "unordered_template =
     \<lparr>t_id = 7, t_name = ''Arms'', t_created_at = 400,
      t_exercises =
        [\<lparr>te_id = 71, te_template_id = 7, te_name = ''Curls'', te_order_index = 1,
          te_uses_weight = True\<rparr>,
         \<lparr>te_id = 72, te_template_id = 7, te_name = ''Dips'', te_order_index = 0,
          te_uses_weight = False\<rparr>]\<rparr>"

text \<open>An environment for the migrations: the identifiers 100, 101, ... and one time.\<close>

definition demo_env :: env where
  "demo_env = \<lparr>env_uuid4 = (\<lambda>k. 100 + k), env_now = (\<lambda>k. 5), env_applied_at = (\<lambda>v. 6)\<rparr>"

definition fresh_connection :: dbconn where
  "fresh_connection = \<lparr>committed = empty_database, pending = None, commits = 0\<rparr>"

text \<open>The template of the example as \<open>get_by_id\<close> loads it.\<close>

definition demo_template :: WorkoutTemplate where
  "demo_template =
     \<lparr>t_id = 1, t_name = ''Leg Day'', t_created_at = 10,
      t_exercises =
        [\<lparr>te_id = 11, te_template_id = 1, te_name = ''Squats'', te_order_index = 0,
          te_uses_weight = True\<rparr>,
         \<lparr>te_id = 12, te_template_id = 1, te_name = ''Leg Press'', te_order_index = 1,
          te_uses_weight = True\<rparr>,
         \<lparr>te_id = 13, te_template_id = 1, te_name = ''Calf Raises'', te_order_index = 2,
          te_uses_weight = True\<rparr>]\<rparr>"

text \<open>
  A changed copy of the stored session, and a changed copy of the stored set 32 that
  also claims another exercise and another creation time.
\<close>

definition edited_session :: WorkoutSession where
  "edited_session =
     \<lparr>ws_id = 2, ws_template_id = None, ws_template_name = Some ''Legs'',
      ws_started_at = 999, ws_ended_at = Some 400, ws_duration_seconds = Some 300,
      ws_notes = Some ''heavy'', ws_exercises = []\<rparr>"

definition edited_set :: WorkoutSet where
  "edited_set =
     \<lparr>set_id = 32, set_session_exercise_id = 99, set_reps = 3, set_weight = None,
      set_created_at = 999\<rparr>"

text \<open>
  The stored session as the application holds it during the workout, after the user has
  written a note, renamed the exercise, corrected the second set, logged a fourth set
  and added a second exercise with one set.
\<close>

definition resaved_session :: WorkoutSession where
  "resaved_session =
     \<lparr>ws_id = 2, ws_template_id = Some 1, ws_template_name = Some ''Leg Day'',
      ws_started_at = 100, ws_ended_at = None, ws_duration_seconds = None,
      ws_notes = Some ''heavy'',
      ws_exercises =
        [\<lparr>se_id = 21, se_session_id = 2, se_name = ''Back Squats'', se_order_index = 0,
          se_uses_weight = True,
          se_sets =
            [\<lparr>set_id = 31, set_session_exercise_id = 21, set_reps = 5,
              set_weight = Some 135, set_created_at = 110\<rparr>,
             \<lparr>set_id = 32, set_session_exercise_id = 21, set_reps = 4,
              set_weight = Some 160, set_created_at = 120\<rparr>,
             \<lparr>set_id = 33, set_session_exercise_id = 21, set_reps = 5,
              set_weight = Some 175, set_created_at = 130\<rparr>,
             \<lparr>set_id = 34, set_session_exercise_id = 21, set_reps = 3,
              set_weight = Some 185, set_created_at = 140\<rparr>]\<rparr>,
         \<lparr>se_id = 22, se_session_id = 2, se_name = ''Calf Raises'', se_order_index = 1,
          se_uses_weight = False,
          se_sets =
            [\<lparr>set_id = 35, set_session_exercise_id = 22, set_reps = 15,
              set_weight = None, set_created_at = 150\<rparr>]\<rparr>]\<rparr>"

text \<open>The catalogue after the two migrations have run on an empty database.\<close>

definition migrated_tables :: "string list" where
  "migrated_tables = [''schema_version'', ''workout_templates'', ''template_exercises'',
     ''workout_sessions'', ''session_exercises'', ''sets'', ''app_state'']"

definition migrated_indexes :: "string list" where
  "migrated_indexes = [''idx_template_exercises_template_id'',
     ''idx_session_exercises_session_id'', ''idx_sets_session_exercise_id'',
     ''idx_workout_sessions_started_at'']"

section \<open>Results of the saves, for the proofs\<close>

text \<open>The store after a template has been saved into \<open>s\<close>.\<close>

definition saved_template_store :: "WorkoutTemplate \<Rightarrow> store \<Rightarrow> store" where
  "saved_template_store t s =
     s\<lparr>workout_templates :=
         (if has_key tr_id (t_id t) (workout_templates s)
          then update_where tr_id (t_id t) (\<lambda>r. r\<lparr>tr_name := t_name t\<rparr>) (workout_templates s)
          else workout_templates s @
                 [\<lparr>tr_id = t_id t, tr_name = t_name t, tr_created_at = t_created_at t\<rparr>]),
       template_exercises :=
         filter (\<lambda>r. ter_template_id r \<noteq> t_id t) (template_exercises s) @
         map (template_exercise_to_row (t_id t)) (t_exercises t)\<rparr>"

text \<open>
  \<open>INSERT ... ON CONFLICT(id) DO UPDATE SET ...\<close> on one table, foreign keys
  aside: the row that holds the key takes the listed columns of the new row, and with
  no such row the new row is appended.
\<close>

definition put_row :: "('r \<Rightarrow> 'k) \<Rightarrow> ('r \<Rightarrow> 'r \<Rightarrow> 'r) \<Rightarrow> 'r \<Rightarrow> 'r list \<Rightarrow> 'r list" where
  "put_row key columns new rows =
     (if has_key key (key new) rows then update_where key (key new) (columns new) rows
      else rows @ [new])"

text \<open>The columns that the three upserts of a session set on a conflict.\<close>

definition session_columns :: "session_row \<Rightarrow> session_row \<Rightarrow> session_row" where
  "session_columns new r =
     r\<lparr>sr_template_id := sr_template_id new, sr_template_name := sr_template_name new,
       sr_ended_at := sr_ended_at new, sr_duration_seconds := sr_duration_seconds new,
       sr_notes := sr_notes new\<rparr>"

definition exercise_columns :: "session_exercise_row \<Rightarrow> session_exercise_row \<Rightarrow> session_exercise_row" where
  "exercise_columns new r =
     r\<lparr>ser_name := ser_name new, ser_order_index := ser_order_index new,
       ser_uses_weight := ser_uses_weight new\<rparr>"

definition set_columns :: "set_row \<Rightarrow> set_row \<Rightarrow> set_row" where
  "set_columns new r = r\<lparr>sw_reps := sw_reps new, sw_weight := sw_weight new\<rparr>"

text \<open>
  The statements behind the calls that save a whole session, and the store after
  they have run on \<open>s\<close>.
\<close>

definition exercise_statements :: "SessionExercise list \<Rightarrow> (db_exception, store) statement list" where
  "exercise_statements es =
     concat (map (\<lambda>e. upsert_session_exercise (session_exercise_to_row e) #
                       map (\<lambda>w. upsert_set (set_to_row w)) (se_sets e)) es)"

definition session_statements :: "WorkoutSession \<Rightarrow> (db_exception, store) statement list" where
  "session_statements x =
     upsert_session (session_to_row x) #
     concat (map (\<lambda>e. upsert_session_exercise (session_exercise_to_row e) #
                       map (\<lambda>w. upsert_set (set_to_row w)) (se_sets e))
              (ws_exercises x))"

definition saved_session_store :: "WorkoutSession \<Rightarrow> store \<Rightarrow> store" where
  "saved_session_store x s =
     s\<lparr>workout_sessions :=
         put_row sr_id session_columns (session_to_row x) (workout_sessions s),
       session_exercises :=
         fold (put_row ser_id exercise_columns)
           (map session_exercise_to_row (ws_exercises x)) (session_exercises s),
       sets := fold (put_row sw_id set_columns) (map set_to_row (all_sets x)) (sets s)\<rparr>"

text \<open>
  What every statement of the migration engine respects: the catalogue and the ledger
  only grow.
\<close>

definition grows :: "database \<Rightarrow> database \<Rightarrow> bool" where
  "grows d d' \<longleftrightarrow> set (tables d) \<subseteq> set (tables d') \<and>
     set (schema_version d) \<subseteq> set (schema_version d')"

definition growing :: "(db_exception, database) statement \<Rightarrow> bool" where
  "growing q \<longleftrightarrow> (\<forall>d d'. q d = Inr d' \<longrightarrow> grows d d')"

definition well_behaved :: "(dbconn \<Rightarrow> db_exception option \<times> dbconn) \<Rightarrow> bool" where
  "well_behaved f \<longleftrightarrow>
     (\<forall>c r c'. pending c = None \<and> f c = (r, c') \<longrightarrow>
        pending c' = None \<and> grows (committed c) (committed c'))"

section \<open>Verification: the timer\<close>

lemma py_int_numeral [simp]: "py_int (numeral k) = numeral k"
  by (simp add: py_int_def)

lemma py_int_zero [simp]: "py_int 0 = 0"
  by (simp add: py_int_def)

text \<open>
  C1. Timer additivity, with every clock reading taken relative to the \<open>start_time\<close>
  that the timer recorded. From any stopped timer, \<open>start()\<close> records
  \<open>datetime.now()\<close> (\<open>r0\<close>) and the timer runs. When the time that \<open>pause()\<close>
  reads (the mock time if one is set, \<open>datetime.now()\<close> otherwise) is \<open>r0 + 30\<close>,
  \<open>pause()\<close> leaves the timer paused with 30 seconds banked, and the elapsed seconds
  are 30 at every later reading of either clock. \<open>resume()\<close> records
  \<open>datetime.now()\<close> again (\<open>r2\<close>, whatever time has passed), keeps the 30 seconds
  and the timer runs. When the time read then is \<open>r2 + 30\<close>, the elapsed seconds are
  60, \<open>stop()\<close> returns 60 and leaves the initial snapshot. Between the calls a test
  may set the mock time (\<open>m1\<close>, \<open>m2\<close>, \<open>m3\<close>) or not.
\<close>

theorem timer_additivity:
  assumes "timer_is_stopped t0"
    and "t1 = maybe_set_mock_time m1 (start r0 t0)"
    and "clock_seen p1 t1 = r0 + 30"
    and "t2 = pause p1 t1"
    and "t3 = maybe_set_mock_time m3 (resume r2 (maybe_set_mock_time m2 t2))"
    and "clock_seen p3 t3 = r2 + 30"
  shows "timer_is_running t1 \<and>
         timer_is_paused t2 \<and> accumulated_seconds (state t2) = 30 \<and>
         (\<forall>now m. elapsed_seconds now (maybe_set_mock_time m t2) = 30) \<and>
         timer_is_running t3 \<and> accumulated_seconds (state t3) = 30 \<and>
         start_time (state t3) = Some r2 \<and>
         elapsed_seconds p3 t3 = 60 \<and>
         fst (stop p3 t3) = 60 \<and>
         state (snd (stop p3 t3)) = initial"
proof -
  have s1: "state t1 = \<lparr>is_running = True, is_paused = False, start_time = Some r0,
      pause_time = None, accumulated_seconds = 0\<rparr>"
    using assms(1,2)
    by (simp add: timer_is_stopped_def start_def maybe_set_mock_time_def set_mock_time_def
        split: option.splits)
  have e1: "mock_calculate_elapsed p1 t1 = 30"
    using assms(3) s1
    by (simp add: mock_calculate_elapsed_def calculate_elapsed_def clock_seen_def
        split: option.splits)
  have s2: "state t2 = \<lparr>is_running = True, is_paused = True, start_time = Some r0,
      pause_time = Some p1, accumulated_seconds = 30\<rparr>"
    using assms(4) s1 e1 by (simp add: pause_def)
  have plateau: "elapsed_seconds now (maybe_set_mock_time m t2) = 30" for now m
    using s2
    by (simp add: elapsed_seconds_def mock_calculate_elapsed_def calculate_elapsed_def
        maybe_set_mock_time_def set_mock_time_def split: option.splits)
  have s3: "state t3 = \<lparr>is_running = True, is_paused = False, start_time = Some r2,
      pause_time = None, accumulated_seconds = 30\<rparr>"
    using assms(5) s2
    by (simp add: resume_def maybe_set_mock_time_def set_mock_time_def split: option.splits)
  have e3: "elapsed_seconds p3 t3 = 60"
    using assms(6) s3
    by (simp add: elapsed_seconds_def mock_calculate_elapsed_def calculate_elapsed_def
        clock_seen_def split: option.splits)
  show ?thesis
    using s1 s2 s3 e3 plateau
    by (simp add: timer_is_running_def timer_is_paused_def stop_def)
qed

theorem timer_additivity_witness:
  "timer_is_paused
     (pause (1000 + 1 / 100) (set_mock_time (1000 + 30) (start 1000 new_timer))) \<and>
   elapsed_seconds (1000 + 1 / 100)
     (pause (1000 + 1 / 100) (set_mock_time (1000 + 30) (start 1000 new_timer))) = 30 \<and>
   elapsed_seconds (1000 + 3 / 100)
     (set_mock_time (1000 + 2 / 100 + 30)
        (resume (1000 + 2 / 100)
           (pause (1000 + 1 / 100) (set_mock_time (1000 + 30) (start 1000 new_timer))))) = 60 \<and>
   fst (stop (1000 + 3 / 100)
     (set_mock_time (1000 + 2 / 100 + 30)
        (resume (1000 + 2 / 100)
           (pause (1000 + 1 / 100) (set_mock_time (1000 + 30) (start 1000 new_timer)))))) = 60 \<and>
   timer_is_paused (pause 1030 (start 1000 new_timer)) \<and>
   elapsed_seconds 1040 (pause 1030 (start 1000 new_timer)) = 30 \<and>
   elapsed_seconds 1075 (resume 1045 (pause 1030 (start 1000 new_timer))) = 60 \<and>
   fst (stop 1075 (resume 1045 (pause 1030 (start 1000 new_timer)))) = 60"
proof -
  have stopped: "timer_is_stopped new_timer"
    by (simp add: timer_is_stopped_def new_timer_def initial_def)
  have mock1: "clock_seen (1000 + 1 / 100)
      (maybe_set_mock_time (Some (1000 + 30)) (start 1000 new_timer)) = 1000 + 30"
    by (simp add: clock_seen_def maybe_set_mock_time_def set_mock_time_def)
  have mock2: "clock_seen (1000 + 3 / 100)
      (maybe_set_mock_time (Some (1000 + 2 / 100 + 30))
        (resume (1000 + 2 / 100) (maybe_set_mock_time None
          (pause (1000 + 1 / 100)
            (maybe_set_mock_time (Some (1000 + 30)) (start 1000 new_timer))))))
      = 1000 + 2 / 100 + 30"
    by (simp add: clock_seen_def maybe_set_mock_time_def set_mock_time_def)
  have real1: "clock_seen 1030 (maybe_set_mock_time None (start 1000 new_timer)) = 1000 + 30"
    by (simp add: clock_seen_def maybe_set_mock_time_def start_def new_timer_def initial_def)
  have real2: "clock_seen 1075
      (maybe_set_mock_time None
        (resume 1045 (maybe_set_mock_time None
          (pause 1030 (maybe_set_mock_time None (start 1000 new_timer))))))
      = 1045 + 30"
    by (simp add: clock_seen_def maybe_set_mock_time_def start_def pause_def resume_def
        new_timer_def initial_def)
  note mocked = timer_additivity [OF stopped refl mock1 refl refl mock2]
  note plain = timer_additivity [OF stopped refl real1 refl refl real2]
  from mocked have "elapsed_seconds (1000 + 1 / 100)
      (maybe_set_mock_time None
        (pause (1000 + 1 / 100)
          (maybe_set_mock_time (Some (1000 + 30)) (start 1000 new_timer)))) = 30"
    by blast
  moreover from plain have "elapsed_seconds 1040
      (maybe_set_mock_time None
        (pause 1030 (maybe_set_mock_time None (start 1000 new_timer)))) = 30"
    by blast
  ultimately show ?thesis
    using mocked plain by (simp add: maybe_set_mock_time_def)
qed

text \<open>
  The mock time of \<open>MockTimer\<close> reaches \<open>_calculate_elapsed\<close> only; \<open>start\<close> and
  \<open>resume\<close> record \<open>datetime.now()\<close>. A virtual clock that is advanced by setting
  the mock time to 30 and then 60 seconds after the start, while \<open>datetime.now()\<close>
  moves by hundredths of a second, gives 30 after \<open>pause()\<close> but 89 after
  \<open>resume()\<close>: the second segment is measured from the real time of \<open>resume()\<close>.
\<close>

theorem timer_additivity_counterexample:
  "elapsed_seconds (1000 + 1 / 100)
     (pause (1000 + 1 / 100) (set_mock_time (1000 + 30) (start 1000 new_timer))) = 30 \<and>
   elapsed_seconds (1000 + 3 / 100)
     (set_mock_time (1000 + 60)
        (resume (1000 + 2 / 100)
           (pause (1000 + 1 / 100) (set_mock_time (1000 + 30) (start 1000 new_timer))))) = 89 \<and>
   fst (stop (1000 + 3 / 100)
     (set_mock_time (1000 + 60)
        (resume (1000 + 2 / 100)
           (pause (1000 + 1 / 100) (set_mock_time (1000 + 30) (start 1000 new_timer)))))) = 89"
  by (simp add: start_def pause_def resume_def stop_def new_timer_def initial_def
      set_mock_time_def elapsed_seconds_def mock_calculate_elapsed_def py_int_def
      floor_eq_iff)

text \<open>
  C2. For every timer state and every current time, \<open>_calculate_elapsed\<close> is
  \<open>accumulated_seconds\<close> when the timer is stopped or paused, and
  \<open>accumulated_seconds + (now - start_time)\<close> when it is running (with no
  \<open>start_time\<close> recorded, \<open>accumulated_seconds\<close> alone). The property
  \<open>elapsed_seconds\<close> is the integer part of that value; while the timer is stopped or
  paused it depends neither on the current time nor on the mock time.
\<close>

theorem elapsed_by_state:
  "(\<not> is_running s \<or> is_paused s \<longrightarrow>
      calculate_elapsed now s = accumulated_seconds s) \<and>
   (is_running s \<and> \<not> is_paused s \<longrightarrow>
      calculate_elapsed now s =
        (case start_time s of
           Some st \<Rightarrow> accumulated_seconds s + (now - st)
         | None \<Rightarrow> accumulated_seconds s)) \<and>
   (timer_is_stopped t \<or> timer_is_paused t \<longrightarrow>
      elapsed_seconds now t = py_int (accumulated_seconds (state t)) \<and>
      elapsed_seconds now' (set_mock_time m t) = elapsed_seconds now t) \<and>
   (timer_is_running t \<longrightarrow>
      elapsed_seconds now t =
        py_int (case start_time (state t) of
                  Some st \<Rightarrow> accumulated_seconds (state t) +
                    ((case mock_now t of None \<Rightarrow> now | Some clock \<Rightarrow> clock) - st)
                | None \<Rightarrow> accumulated_seconds (state t)))"
  by (auto simp: calculate_elapsed_def elapsed_seconds_def mock_calculate_elapsed_def
      timer_is_stopped_def timer_is_paused_def timer_is_running_def set_mock_time_def
      split: option.splits)

theorem elapsed_by_state_witness:
  "calculate_elapsed 500
     \<lparr>is_running = True, is_paused = True, start_time = Some 100, pause_time = Some 130,
      accumulated_seconds = 30\<rparr> = 30 \<and>
   calculate_elapsed 500
     \<lparr>is_running = True, is_paused = False, start_time = Some 470, pause_time = None,
      accumulated_seconds = 30\<rparr> = 60 \<and>
   elapsed_seconds 900
     (set_mock_time 700
        \<lparr>state = \<lparr>is_running = True, is_paused = True, start_time = Some 100,
                  pause_time = Some 130, accumulated_seconds = 30\<rparr>,
         mock_now = None\<rparr>) = 30 \<and>
   elapsed_seconds 500
     \<lparr>state = \<lparr>is_running = True, is_paused = False, start_time = Some 470,
               pause_time = None, accumulated_seconds = 30\<rparr>,
      mock_now = None\<rparr> = 60"
  using
    elapsed_by_state [of
      "\<lparr>is_running = True, is_paused = True, start_time = Some 100, pause_time = Some 130,
        accumulated_seconds = 30\<rparr>" 500
      "\<lparr>state = \<lparr>is_running = True, is_paused = True, start_time = Some 100,
                 pause_time = Some 130, accumulated_seconds = 30\<rparr>,
        mock_now = None\<rparr>" 900 700]
    elapsed_by_state [of
      "\<lparr>is_running = True, is_paused = False, start_time = Some 470, pause_time = None,
        accumulated_seconds = 30\<rparr>" 500
      "\<lparr>state = \<lparr>is_running = True, is_paused = False, start_time = Some 470,
                 pause_time = None, accumulated_seconds = 30\<rparr>,
        mock_now = None\<rparr>" 900 700]
  by (simp add: timer_is_stopped_def timer_is_paused_def timer_is_running_def)

section \<open>Verification: transactions\<close>

lemma run_all_append:
  "run_all (xs @ ys) s = (case run_all xs s of Inl e \<Rightarrow> Inl e | Inr s' \<Rightarrow> run_all ys s')"
  by (induction xs arbitrary: s) (auto split: sum.splits)

text \<open>
  One step that succeeds. It changes the committed content only as a schema statement
  on a connection with no transaction open.
\<close>

lemma execute_success:
  assumes "effect q (view c) = Inr s1"
  shows "\<exists>a p. execute q c = (None, c\<lparr>committed := a, pending := p\<rparr>) \<and>
      view (c\<lparr>committed := a, pending := p\<rparr>) = s1 \<and>
      (pending c \<noteq> None \<or> is_dml q \<longrightarrow> a = committed c \<and> p \<noteq> None) \<and>
      (pending c = None \<and> \<not> is_dml q \<longrightarrow> a = s1 \<and> p = None)"
proof (cases q)
  case (Dml f)
  then have "execute q c = (None, c\<lparr>committed := committed c, pending := Some s1\<rparr>) \<and>
      view (c\<lparr>committed := committed c, pending := Some s1\<rparr>) = s1"
    using assms by (simp add: view_def)
  then show ?thesis using Dml by (intro exI[of _ "committed c"] exI[of _ "Some s1"]) simp
next
  case (Ddl f)
  show ?thesis
  proof (cases "pending c")
    case None
    then have "execute q c = (None, c\<lparr>committed := s1, pending := None\<rparr>) \<and>
        view (c\<lparr>committed := s1, pending := None\<rparr>) = s1"
      using assms Ddl by (simp add: view_def)
    then show ?thesis using None Ddl by (intro exI[of _ s1] exI[of _ None]) simp
  next
    case (Some s)
    then have "execute q c = (None, c\<lparr>committed := committed c, pending := Some s1\<rparr>) \<and>
        view (c\<lparr>committed := committed c, pending := Some s1\<rparr>) = s1"
      using assms Ddl by (simp add: view_def)
    then show ?thesis using Some Ddl
      by (intro exI[of _ "committed c"] exI[of _ "Some s1"]) simp
  qed
next
  case (Interrupt e)
  then show ?thesis using assms by simp
qed

text \<open>A body whose steps all succeed: the connection then sees what they produced.\<close>

lemma execute_all_success:
  "run_all (map effect body) (view c) = Inr s' \<Longrightarrow>
   \<exists>a p. execute_all body c = (None, c\<lparr>committed := a, pending := p\<rparr>) \<and>
         view (c\<lparr>committed := a, pending := p\<rparr>) = s'"
proof (induction body arbitrary: c)
  case Nil
  then have "execute_all [] c = (None, c\<lparr>committed := committed c, pending := pending c\<rparr>) \<and>
      view (c\<lparr>committed := committed c, pending := pending c\<rparr>) = s'"
    by simp
  then show ?case by blast
next
  case (Cons q body)
  from Cons.prems obtain s1 where s1: "effect q (view c) = Inr s1"
    and rest: "run_all (map effect body) s1 = Inr s'"
    by (auto split: sum.splits)
  from execute_success[OF s1] obtain a p where
    e: "execute q c = (None, c\<lparr>committed := a, pending := p\<rparr>)"
    and v: "view (c\<lparr>committed := a, pending := p\<rparr>) = s1" by blast
  let ?c1 = "c\<lparr>committed := a, pending := p\<rparr>"
  from Cons.IH[of ?c1] rest v obtain a' p' where
    "execute_all body ?c1 = (None, ?c1\<lparr>committed := a', pending := p'\<rparr>)"
    "view (?c1\<lparr>committed := a', pending := p'\<rparr>) = s'"
    by auto
  then have "execute_all (q # body) c = (None, c\<lparr>committed := a', pending := p'\<rparr>) \<and>
      view (c\<lparr>committed := a', pending := p'\<rparr>) = s'"
    using e by simp
  then show ?case by blast
qed

lemma transaction_success:
  assumes "run_all (map effect body) (view c) = Inr s'"
  shows "transaction body c =
     (None, c\<lparr>committed := s', pending := None, commits := commits c + 1\<rparr>)"
proof -
  from execute_all_success[OF assms] obtain a p where
    e: "execute_all body c = (None, c\<lparr>committed := a, pending := p\<rparr>)"
    and v: "view (c\<lparr>committed := a, pending := p\<rparr>) = s'" by blast
  show ?thesis
    unfolding transaction_def e using v by (simp add: commit_def)
qed

text \<open>
  A body in which the steps \<open>pre\<close> succeed and the next statement raises. Of the body's
  effects, only the schema statements that ran in autocommit mode stay committed.
\<close>

lemma execute_all_failure:
  "run_all (map effect pre) (view c) = Inr mid \<Longrightarrow> effect q mid = Inl e \<Longrightarrow>
   is_statement q \<Longrightarrow>
   \<exists>a p. execute_all (pre @ q # post) c = (Some (Exception e), c\<lparr>committed := a, pending := p\<rparr>) \<and>
         (pending c \<noteq> None \<longrightarrow> a = committed c) \<and>
         (pending c = None \<longrightarrow>
            run_all (map effect (autocommitted pre)) (committed c) = Inr a)"
proof (induction pre arbitrary: c)
  case Nil
  then have f: "effect q (view c) = Inl e" by simp
  show ?case
  proof (cases q)
    case (Dml f')
    then have "execute_all ([] @ q # post) c =
        (Some (Exception e), c\<lparr>committed := committed c, pending := Some (view c)\<rparr>)"
      using f by simp
    then show ?thesis
      by (intro exI[of _ "committed c"] exI[of _ "Some (view c)"]) simp
  next
    case (Ddl f')
    then have "execute_all ([] @ q # post) c =
        (Some (Exception e), c\<lparr>committed := committed c, pending := pending c\<rparr>)"
      using f by (cases "pending c") (simp_all add: view_def)
    then show ?thesis
      by (intro exI[of _ "committed c"] exI[of _ "pending c"]) simp
  next
    case (Interrupt e')
    then show ?thesis using Nil.prems by simp
  qed
next
  case (Cons x pre)
  from Cons.prems(1) obtain s1 where s1: "effect x (view c) = Inr s1"
    and rest: "run_all (map effect pre) s1 = Inr mid"
    by (auto split: sum.splits)
  from execute_success[OF s1] obtain a p where
    e: "execute x c = (None, c\<lparr>committed := a, pending := p\<rparr>)"
    and v: "view (c\<lparr>committed := a, pending := p\<rparr>) = s1"
    and k: "pending c \<noteq> None \<or> is_dml x \<longrightarrow> a = committed c \<and> p \<noteq> None"
    and k2: "pending c = None \<and> \<not> is_dml x \<longrightarrow> a = s1 \<and> p = None"
    by (elim exE conjE)
  let ?c1 = "c\<lparr>committed := a, pending := p\<rparr>"
  from Cons.IH[of ?c1] rest v Cons.prems(2,3) obtain a' p' where
    r: "execute_all (pre @ q # post) ?c1 =
          (Some (Exception e), ?c1\<lparr>committed := a', pending := p'\<rparr>)"
    and h1: "pending ?c1 \<noteq> None \<longrightarrow> a' = committed ?c1"
    and h2: "pending ?c1 = None \<longrightarrow>
               run_all (map effect (autocommitted pre)) (committed ?c1) = Inr a'"
    by auto
  have g1: "execute_all ((x # pre) @ q # post) c =
      (Some (Exception e), c\<lparr>committed := a', pending := p'\<rparr>)"
    using e r by simp
  have g2: "pending c \<noteq> None \<longrightarrow> a' = committed c"
    using k h1 by auto
  have g3: "pending c = None \<longrightarrow>
      run_all (map effect (autocommitted (x # pre))) (committed c) = Inr a'"
  proof
    assume n: "pending c = None"
    then have vc: "view c = committed c" by (simp add: view_def)
    show "run_all (map effect (autocommitted (x # pre))) (committed c) = Inr a'"
    proof (cases "is_dml x")
      case True
      then show ?thesis using k h1 by auto
    next
      case False
      then have "a = s1" "p = None" using k2 n by auto
      then show ?thesis using False h2 s1 vc by simp
    qed
  qed
  show ?case
    by (intro exI[of _ a'] exI[of _ p'] conjI) (rule g1 g2 g3)+
qed

lemma transaction_failure:
  assumes "run_all (map effect pre) (view c) = Inr mid" and "effect q mid = Inl e"
    and "is_statement q"
  shows "\<exists>a. transaction (pre @ q # post) c = (Some e, c\<lparr>committed := a, pending := None\<rparr>) \<and>
           (pending c \<noteq> None \<longrightarrow> a = committed c) \<and>
           (pending c = None \<longrightarrow>
              run_all (map effect (autocommitted pre)) (committed c) = Inr a)"
proof -
  from execute_all_failure[OF assms, of post] obtain a p where
    e: "execute_all (pre @ q # post) c = (Some (Exception e), c\<lparr>committed := a, pending := p\<rparr>)"
    and k: "pending c \<noteq> None \<longrightarrow> a = committed c"
       "pending c = None \<longrightarrow> run_all (map effect (autocommitted pre)) (committed c) = Inr a"
    by (elim exE conjE)
  have "transaction (pre @ q # post) c = (Some e, c\<lparr>committed := a, pending := None\<rparr>)"
    unfolding transaction_def e by (simp add: rollback_def)
  then show ?thesis
    by (intro exI[of _ a] conjI) (simp_all add: k)
qed

text \<open>An exception that is no \<open>Exception\<close>: neither commit nor rollback.\<close>

lemma execute_all_append:
  "execute_all pre c = (None, c1) \<Longrightarrow> execute_all (pre @ rest) c = execute_all rest c1"
  by (induction pre arbitrary: c) (auto split: prod.splits option.splits)

lemma transaction_interrupted:
  assumes "run_all (map effect pre) (view c) = Inr mid"
  shows "transaction (pre @ Interrupt e # post) c = (Some e, snd (execute_all pre c)) \<and>
         view (snd (execute_all pre c)) = mid \<and>
         commits (snd (execute_all pre c)) = commits c"
proof -
  from execute_all_success[OF assms] obtain a p where
    e: "execute_all pre c = (None, c\<lparr>committed := a, pending := p\<rparr>)"
    and v: "view (c\<lparr>committed := a, pending := p\<rparr>) = mid" by blast
  have "execute_all (pre @ Interrupt e # post) c =
      (Some (BaseException e), c\<lparr>committed := a, pending := p\<rparr>)"
    using execute_all_append[OF e] by simp
  then show ?thesis using e v by (simp add: transaction_def)
qed

text \<open>Where the first failing statement of a list is.\<close>

lemma run_all_failure_split:
  "run_all qs s = Inl e \<Longrightarrow>
   \<exists>pre q post mid. qs = pre @ q # post \<and> run_all pre s = Inr mid \<and> q mid = Inl e"
proof (induction qs arbitrary: s)
  case Nil
  then show ?case by simp
next
  case (Cons x qs)
  show ?case
  proof (cases "x s")
    case (Inl e')
    then have "x # qs = [] @ x # qs \<and> run_all [] s = Inr s \<and> x s = Inl e"
      using Cons.prems by simp
    then show ?thesis by blast
  next
    case (Inr s1)
    then have "run_all qs s1 = Inl e" using Cons.prems by simp
    from Cons.IH[OF this] obtain pre q post mid where
      "qs = pre @ q # post" "run_all pre s1 = Inr mid" "q mid = Inl e" by blast
    then have "x # qs = (x # pre) @ q # post \<and> run_all (x # pre) s = Inr mid \<and> q mid = Inl e"
      using Inr by simp
    then show ?thesis by blast
  qed
qed

lemma all_dml_is_map: "list_all is_dml body \<Longrightarrow> body = map Dml (map effect body)"
proof (induction body)
  case Nil
  then show ?case by simp
next
  case (Cons q body)
  then show ?case by (cases q) simp_all
qed

lemma list_all_is_dml_map [simp]: "list_all is_dml (map Dml qs)"
  by (induction qs) simp_all

lemma map_effect_map_Dml [simp]: "map effect (map Dml qs) = qs"
  by (induction qs) simp_all

lemma effect_comp_Dml [simp]: "effect \<circ> Dml = (\<lambda>q. q)"
  by (rule ext) simp

lemma autocommitted_map_Dml [simp]: "autocommitted (map Dml qs) = []"
  by (cases qs) simp_all

text \<open>
  The repositories execute data-changing statements only, on a connection with no
  transaction open: the method either raises and leaves the connection as it was, or
  commits what its statements produced.
\<close>

lemma transaction_idle:
  assumes "pending c = None" and "list_all is_dml body"
  shows "transaction body c =
     (case run_all (map effect body) (committed c) of
        Inl e \<Rightarrow> (Some e, c)
      | Inr s' \<Rightarrow> (None, c\<lparr>committed := s', commits := commits c + 1\<rparr>))"
proof (cases "run_all (map effect body) (committed c)")
  case (Inr s')
  have v: "view c = committed c" using assms(1) by (simp add: view_def)
  have "c\<lparr>committed := s', pending := None, commits := commits c + 1\<rparr>
      = c\<lparr>committed := s', commits := commits c + 1\<rparr>" using assms(1) by simp
  then show ?thesis using transaction_success[of body c s'] Inr v by simp
next
  case (Inl e)
  have v: "view c = committed c" using assms(1) by (simp add: view_def)
  from run_all_failure_split[OF Inl] obtain pre q post mid where
    sp: "map effect body = pre @ q # post" "run_all pre (committed c) = Inr mid" "q mid = Inl e"
    by blast
  have body: "body = map Dml pre @ Dml q # map Dml post"
    using all_dml_is_map[OF assms(2)] sp(1) by simp
  have "run_all (map effect (map Dml pre)) (view c) = Inr mid" "effect (Dml q) mid = Inl e"
    "is_statement (Dml q)"
    using sp v by simp_all
  from transaction_failure[OF this, of "map Dml post"] obtain a where
    a: "transaction (map Dml pre @ Dml q # map Dml post) c =
          (Some e, c\<lparr>committed := a, pending := None\<rparr>)"
    and "pending c = None \<longrightarrow>
      run_all (map effect (autocommitted (map Dml pre))) (committed c) = Inr a"
    by (elim exE conjE)
  then have "a = committed c" using assms(1) by simp
  with a have "transaction body c = (Some e, c\<lparr>committed := a, pending := None\<rparr>)"
    "a = committed c"
    using body by simp_all
  moreover have "c\<lparr>committed := committed c, pending := None\<rparr> = c" using assms(1) by simp
  ultimately show ?thesis using Inl by simp
qed

text \<open>
  C4. Transaction atomicity, as far as it holds. When the steps \<open>pre\<close> succeed and the
  next statement \<open>q\<close> raises \<open>e\<close> (an \<open>Exception\<close>), the transaction raises
  that same \<open>e\<close>, nothing is pending and no commit was made. With a transaction open
  at entry the committed content is what it was. With none open, the committed content
  is what the schema statements at the head of the body, before its first data-changing
  statement, made of it: each ran in autocommit mode and stays; a body with no such
  statement leaves the connection exactly as it was. When the body raises \<open>i\<close>, an
  exception that is no \<open>Exception\<close>, it reaches the caller with neither rollback nor
  commit: the connection stays as the steps before left it. When every step of the body
  succeeds, the transaction raises nothing, the committed content is the content the
  body produced and \<open>commit\<close> was called exactly once.
\<close>

theorem transaction_atomic:
  "(run_all (map effect pre) (view c) = Inr mid \<and> effect q mid = Inl e \<and> is_statement q \<longrightarrow>
      (\<exists>c'. transaction (pre @ q # post) c = (Some e, c') \<and>
            pending c' = None \<and> commits c' = commits c \<and>
            (pending c \<noteq> None \<longrightarrow> committed c' = committed c) \<and>
            (pending c = None \<longrightarrow>
               run_all (map effect (autocommitted pre)) (committed c) = Inr (committed c')) \<and>
            (pending c = None \<and> autocommitted pre = [] \<longrightarrow> c' = c))) \<and>
   (run_all (map effect pre) (view c) = Inr mid \<longrightarrow>
      transaction (pre @ Interrupt i # post) c = (Some i, snd (execute_all pre c)) \<and>
      view (snd (execute_all pre c)) = mid \<and>
      commits (snd (execute_all pre c)) = commits c) \<and>
   (run_all (map effect body) (view c) = Inr s' \<longrightarrow>
      transaction body c =
        (None, c\<lparr>committed := s', pending := None, commits := commits c + 1\<rparr>))"
proof (intro conjI impI)
  assume a: "run_all (map effect pre) (view c) = Inr mid \<and> effect q mid = Inl e \<and>
    is_statement q"
  then have a1: "run_all (map effect pre) (view c) = Inr mid" and a2: "effect q mid = Inl e"
    and a3: "is_statement q" by simp_all
  from transaction_failure[OF a1 a2 a3, of post] obtain a' where t: "transaction (pre @ q # post) c =
      (Some e, c\<lparr>committed := a', pending := None\<rparr>)"
    and k: "pending c \<noteq> None \<longrightarrow> a' = committed c"
      "pending c = None \<longrightarrow> run_all (map effect (autocommitted pre)) (committed c) = Inr a'"
    by (elim exE conjE)
  have "pending c = None \<and> autocommitted pre = [] \<longrightarrow>
      c\<lparr>committed := a', pending := None\<rparr> = c"
    using k by auto
  then show "\<exists>c'. transaction (pre @ q # post) c = (Some e, c') \<and>
            pending c' = None \<and> commits c' = commits c \<and>
            (pending c \<noteq> None \<longrightarrow> committed c' = committed c) \<and>
            (pending c = None \<longrightarrow>
               run_all (map effect (autocommitted pre)) (committed c) = Inr (committed c')) \<and>
            (pending c = None \<and> autocommitted pre = [] \<longrightarrow> c' = c)"
    unfolding t using k by (intro exI[of _ "c\<lparr>committed := a', pending := None\<rparr>"]) simp
next
  assume "run_all (map effect pre) (view c) = Inr mid"
  then show "transaction (pre @ Interrupt i # post) c = (Some i, snd (execute_all pre c))"
    "view (snd (execute_all pre c)) = mid"
    "commits (snd (execute_all pre c)) = commits c"
    using transaction_interrupted[of pre c mid i post] by simp_all
next
  assume "run_all (map effect body) (view c) = Inr s'"
  then show "transaction body c =
        (None, c\<lparr>committed := s', pending := None, commits := commits c + 1\<rparr>)"
    by (rule transaction_success)
qed

theorem transaction_atomic_witness:
  "transaction
     ([Dml (upsert_app_state ''k'' ''v'')] @
      Dml (insert_template_exercise
        \<lparr>ter_id = 1, ter_template_id = 9, ter_name = ''Squats'', ter_order_index = 0,
         ter_uses_weight = 1\<rparr>) #
      [Dml (delete_app_state ''k'')])
     \<lparr>committed = empty_store, pending = None, commits = 0\<rparr>
   = (Some IntegrityError, \<lparr>committed = empty_store, pending = None, commits = 0\<rparr>) \<and>
   transaction
     ([Dml (upsert_app_state ''k'' ''v'')] @ Interrupt KeyboardInterrupt #
      [Dml (delete_app_state ''k'')])
     \<lparr>committed = empty_store, pending = None, commits = 0\<rparr>
   = (Some KeyboardInterrupt,
      \<lparr>committed = empty_store, pending = Some (empty_store\<lparr>app_state := [(''k'', ''v'')]\<rparr>),
       commits = 0\<rparr>) \<and>
   transaction [Dml (upsert_app_state ''k'' ''v''), Dml (upsert_template 1 ''Push Day'' 0)]
     \<lparr>committed = empty_store, pending = None, commits = 0\<rparr>
   = (None,
      \<lparr>committed = empty_store
         \<lparr>workout_templates := [\<lparr>tr_id = 1, tr_name = ''Push Day'', tr_created_at = 0\<rparr>],
          app_state := [(''k'', ''v'')]\<rparr>,
       pending = None, commits = 1\<rparr>)"
  using transaction_atomic [where c = "\<lparr>committed = empty_store, pending = None, commits = 0\<rparr>"
      and pre = "[Dml (upsert_app_state ''k'' ''v'')]"
      and q = "Dml (insert_template_exercise
        \<lparr>ter_id = 1, ter_template_id = 9, ter_name = ''Squats'', ter_order_index = 0,
         ter_uses_weight = 1\<rparr>)"
      and post = "[Dml (delete_app_state ''k'')]"
      and mid = "empty_store\<lparr>app_state := [(''k'', ''v'')]\<rparr>"
      and e = IntegrityError
      and i = KeyboardInterrupt
      and body = "[Dml (upsert_app_state ''k'' ''v''), Dml (upsert_template 1 ''Push Day'' 0)]"
      and s' = "empty_store
         \<lparr>workout_templates := [\<lparr>tr_id = 1, tr_name = ''Push Day'', tr_created_at = 0\<rparr>],
          app_state := [(''k'', ''v'')]\<rparr>"]
  by (auto simp: view_def empty_store_def upsert_app_state_def insert_template_exercise_def
      upsert_template_def has_key_def)

text \<open>
  A schema statement followed by a failing one, in one \<open>transaction()\<close> scope on a
  fresh database: the exception is raised and the table stays. A write followed by a
  \<open>KeyboardInterrupt\<close>: the transaction stays open with the write in it.
\<close>

theorem transaction_atomic_counterexample:
  "transaction
     [Ddl (create_table_if_not_exists ''workout_templates''),
      Ddl (create_index_if_not_exists ''idx_sets_session_exercise_id'' ''sets'')]
     \<lparr>committed = empty_database, pending = None, commits = 0\<rparr>
   = (Some OperationalError,
      \<lparr>committed = empty_database\<lparr>tables := [''workout_templates'']\<rparr>, pending = None,
       commits = 0\<rparr>) \<and>
   transaction [Dml (upsert_app_state ''k'' ''v''), Interrupt KeyboardInterrupt]
     \<lparr>committed = empty_store, pending = None, commits = 0\<rparr>
   = (Some KeyboardInterrupt,
      \<lparr>committed = empty_store, pending = Some (empty_store\<lparr>app_state := [(''k'', ''v'')]\<rparr>),
       commits = 0\<rparr>)"
  by (simp add: transaction_def rollback_def view_def empty_database_def empty_store_def
      create_table_if_not_exists_def create_index_if_not_exists_def upsert_app_state_def
      has_key_def)

section \<open>Verification: lists, keys and sorting\<close>

lemma notin_image_ne: "g x \<notin> g ` A \<Longrightarrow> y \<in> A \<Longrightarrow> g y \<noteq> g x"
  by (metis imageI)

lemma find_append:
  "find P (xs @ ys) = (case find P xs of None \<Rightarrow> find P ys | Some x \<Rightarrow> Some x)"
  by (induction xs) simp_all

lemma find_None_iff_key: "find (\<lambda>r. key r = k) rows = None \<longleftrightarrow> \<not> has_key key k rows"
  by (induction rows) (auto simp: has_key_def)

lemma find_Some_key:
  "find (\<lambda>r. key r = k) rows = Some r \<Longrightarrow> r \<in> set rows \<and> key r = k"
  by (induction rows) (auto split: if_splits)

lemma find_update_where:
  assumes "\<And>r. key (f r) = key r"
  shows "find (\<lambda>r. key r = k) (update_where key k' f rows) =
     map_option (\<lambda>r. if key r = k' then f r else r) (find (\<lambda>r. key r = k) rows)"
  by (induction rows) (simp_all add: update_where_def assms)

lemma distinct_map_sort_key: "distinct (map g (sort_key f xs)) = distinct (map g xs)"
  by (simp add: distinct_map)

lemma filter_key_singleton:
  "distinct (map g xs) \<Longrightarrow> x \<in> set xs \<Longrightarrow> filter (\<lambda>r. g r = g x) xs = [x]"
proof (induction xs)
  case Nil
  then show ?case by simp
next
  case (Cons a xs)
  show ?case
  proof (cases "a = x")
    case True
    have "g x \<notin> g ` set xs" using Cons.prems(1) True by simp
    then have "\<forall>r \<in> set xs. g r \<noteq> g x" by (auto dest: notin_image_ne)
    then have "filter (\<lambda>r. g r = g x) xs = []"
      by (simp add: filter_empty_conv)
    then show ?thesis using True by simp
  next
    case False
    then have "x \<in> set xs" using Cons.prems(2) by simp
    moreover have "g a \<notin> g ` set xs" using Cons.prems(1) by simp
    then have "g a \<noteq> g x" using \<open>x \<in> set xs\<close> by (metis imageI)
    ultimately have "x \<in> set xs" "g a \<noteq> g x" by simp_all
    then show ?thesis using Cons by simp
  qed
qed

lemma same_key_same_row:
  "distinct (map g xs) \<Longrightarrow> a \<in> set xs \<Longrightarrow> b \<in> set xs \<Longrightarrow> g a = g b \<Longrightarrow> a = b"
  by (meson distinct_map inj_on_def)

lemma py_bool_bool_to_int [simp]: "py_bool (bool_to_int b) = b"
  by (simp add: py_bool_def bool_to_int_def)

lemma has_key_iff: "has_key key k rows \<longleftrightarrow> (\<exists>r \<in> set rows. key r = k)"
  by (auto simp: has_key_def)

lemma has_key_Nil [simp]: "has_key key k [] = False"
  by (simp add: has_key_def)

lemma has_key_Cons [simp]: "has_key key k (x # xs) = (key x = k \<or> has_key key k xs)"
  by (auto simp: has_key_def)

lemma has_key_append [simp]: "has_key key k (xs @ ys) = (has_key key k xs \<or> has_key key k ys)"
  by (auto simp: has_key_def)

lemma has_key_update_where:
  assumes "\<And>r. key (f r) = key r"
  shows "has_key key k (update_where key k' f rows) = has_key key k rows"
proof -
  have "map key (update_where key k' f rows) = map key rows"
    by (induction rows) (simp_all add: update_where_def assms)
  then show ?thesis by (simp add: has_key_def)
qed

lemma insort_key_map_same_key:
  assumes "\<And>x. f (g x) = f x"
  shows "insort_key f (g x) (map g ys) = map g (insort_key f x ys)"
  by (induction ys) (simp_all add: assms)

lemma sort_key_map_same_key:
  assumes "\<And>x. f (g x) = f x"
  shows "sort_key f (map g xs) = map g (sort_key f xs)"
  by (induction xs) (simp_all add: insort_key_map_same_key assms)

lemma filter_map_same_test:
  assumes "\<And>x. P (g x) = P x"
  shows "filter P (map g xs) = map g (filter P xs)"
  by (induction xs) (simp_all add: assms)

lemma sort_key_head:
  assumes "sort_key f xs = y # ys"
  shows "y \<in> set xs \<and> (\<forall>x \<in> set xs. f y \<le> f x)"
proof -
  have "sorted (map f (y # ys))" using assms sorted_sort_key[of f xs] by simp
  moreover have "set (y # ys) = set xs" using assms set_sort[of f xs] by simp
  ultimately show ?thesis by auto
qed

lemma drop_nth_distinct:
  assumes "distinct (map g xs)" and "i < length xs"
  shows "distinct (map g (take i xs @ drop (Suc i) xs)) \<and>
         g (xs ! i) \<notin> g ` set (take i xs @ drop (Suc i) xs)"
proof -
  have "xs = take i xs @ xs ! i # drop (Suc i) xs"
    using assms(2) by (rule id_take_nth_drop)
  then have "distinct (map g (take i xs @ xs ! i # drop (Suc i) xs))"
    using assms(1) by simp
  then show ?thesis by auto
qed

lemma drop_nth_sorted:
  assumes "sorted (map f xs)" and "i < length xs"
  shows "sorted (map f (take i xs @ drop (Suc i) xs))"
proof -
  have "xs = take i xs @ xs ! i # drop (Suc i) xs"
    using assms(2) by (rule id_take_nth_drop)
  then have "sorted (map f (take i xs @ xs ! i # drop (Suc i) xs))"
    using assms(1) by simp
  then show ?thesis by (auto simp: sorted_append)
qed

lemma drop_nth_subset: "set (take i xs @ drop (Suc i) xs) \<subseteq> set xs"
  by (auto dest: in_set_takeD in_set_dropD)

section \<open>Verification: saving and loading a template\<close>

lemma insert_template_exercises_run:
  assumes "distinct (map te_id es)"
    and "\<forall>e \<in> set es. \<not> has_key ter_id (te_id e) (template_exercises s)"
    and "has_key tr_id tid (workout_templates s)"
  shows "run_all (map (\<lambda>e. insert_template_exercise (template_exercise_to_row tid e)) es) s =
     Inr (s\<lparr>template_exercises := template_exercises s @ map (template_exercise_to_row tid) es\<rparr>)"
  using assms
proof (induction es arbitrary: s)
  case Nil
  then show ?case by simp
next
  case (Cons e es)
  let ?s1 = "s\<lparr>template_exercises := template_exercises s @ [template_exercise_to_row tid e]\<rparr>"
  have step: "insert_template_exercise (template_exercise_to_row tid e) s = Inr ?s1"
    using Cons.prems by (simp add: insert_template_exercise_def template_exercise_to_row_def)
  have "te_id e \<notin> te_id ` set es" using Cons.prems(1) by simp
  then have ne: "\<forall>ea \<in> set es. te_id ea \<noteq> te_id e" by (auto dest: notin_image_ne)
  have fresh: "\<forall>ea \<in> set es. \<not> has_key ter_id (te_id ea) (template_exercises ?s1)"
    using Cons.prems(2) ne by (auto simp: template_exercise_to_row_def)
  have par: "has_key tr_id tid (workout_templates ?s1)"
    using Cons.prems(3) by simp
  have "distinct (map te_id es)" using Cons.prems(1) by simp
  from Cons.IH[OF this fresh par]
  have "run_all (map (\<lambda>e. insert_template_exercise (template_exercise_to_row tid e)) es) ?s1 =
     Inr (?s1\<lparr>template_exercises := template_exercises ?s1 @ map (template_exercise_to_row tid) es\<rparr>)" .
  then show ?case using step by simp
qed

lemma template_save_body_run:
  assumes "distinct (map te_id (t_exercises t))"
    and "\<forall>r \<in> set (template_exercises s).
        ter_id r \<in> set (map te_id (t_exercises t)) \<longrightarrow> ter_template_id r = t_id t"
  shows "run_all (TemplateRepository_save_body t) s = Inr (saved_template_store t s)"
proof -
  let ?tid = "t_id t"
  let ?ts = "if has_key tr_id ?tid (workout_templates s)
          then update_where tr_id ?tid (\<lambda>r. r\<lparr>tr_name := t_name t\<rparr>) (workout_templates s)
          else workout_templates s @
                 [\<lparr>tr_id = ?tid, tr_name = t_name t, tr_created_at = t_created_at t\<rparr>]"
  let ?s1 = "s\<lparr>workout_templates := ?ts\<rparr>"
  let ?s2 = "?s1\<lparr>template_exercises :=
      filter (\<lambda>r. ter_template_id r \<noteq> ?tid) (template_exercises s)\<rparr>"
  have u: "upsert_template ?tid (t_name t) (t_created_at t) s = Inr ?s1"
    by (simp add: upsert_template_def)
  have d: "delete_template_exercises ?tid ?s1 = Inr ?s2"
    by (simp add: delete_template_exercises_def)
  have hk: "has_key tr_id ?tid (workout_templates ?s2)"
    by (simp add: has_key_update_where)
  have fresh: "\<forall>e \<in> set (t_exercises t). \<not> has_key ter_id (te_id e) (template_exercises ?s2)"
  proof (intro ballI notI)
    fix e assume e: "e \<in> set (t_exercises t)"
      and "has_key ter_id (te_id e) (template_exercises ?s2)"
    then obtain r where r: "r \<in> set (template_exercises s)" "ter_template_id r \<noteq> ?tid"
      "ter_id r = te_id e"
      by (auto simp: has_key_iff)
    then have "ter_id r \<in> set (map te_id (t_exercises t))" using e by simp
    then show False using assms(2) r by blast
  qed
  have "run_all (map (\<lambda>e. insert_template_exercise (template_exercise_to_row ?tid e))
           (t_exercises t)) ?s2 =
     Inr (?s2\<lparr>template_exercises :=
            template_exercises ?s2 @ map (template_exercise_to_row ?tid) (t_exercises t)\<rparr>)"
    by (rule insert_template_exercises_run[OF assms(1) fresh hk])
  then show ?thesis
    using u d by (simp add: TemplateRepository_save_body_def saved_template_store_def)
qed

lemma template_save_result:
  assumes "pending c = None"
    and "distinct (map te_id (t_exercises t))"
    and "\<forall>r \<in> set (template_exercises (committed c)).
        ter_id r \<in> set (map te_id (t_exercises t)) \<longrightarrow> ter_template_id r = t_id t"
  shows "TemplateRepository_save t c =
     (None, c\<lparr>committed := saved_template_store t (committed c), commits := commits c + 1\<rparr>)"
  using assms
  by (simp add: TemplateRepository_save_def transaction_idle template_save_body_run)

lemma row_to_template_exercise_inverse:
  "row_to_template_exercise (template_exercise_to_row tid e) = e\<lparr>te_template_id := tid\<rparr>"
  by (simp add: row_to_template_exercise_def template_exercise_to_row_def)

lemma get_saved_template:
  assumes "pending c = None"
    and "committed c = saved_template_store t s"
    and "\<forall>r. find (\<lambda>r. tr_id r = t_id t) (workout_templates s) = Some r \<longrightarrow>
           tr_created_at r = t_created_at t"
    and "sorted (map te_order_index (t_exercises t))"
  shows "TemplateRepository_get_by_id (t_id t) c =
     Some (t\<lparr>t_exercises := map (\<lambda>e. e\<lparr>te_template_id := t_id t\<rparr>) (t_exercises t)\<rparr>)"
proof -
  let ?tid = "t_id t"
  have v: "view c = saved_template_store t s" using assms(1,2) by (simp add: view_def)
  have row: "\<exists>row. find (\<lambda>r. tr_id r = ?tid) (workout_templates (saved_template_store t s)) = Some row \<and>
      tr_id row = ?tid \<and> tr_name row = t_name t \<and> tr_created_at row = t_created_at t"
  proof (cases "has_key tr_id ?tid (workout_templates s)")
    case True
    then obtain r0 where r0: "find (\<lambda>r. tr_id r = ?tid) (workout_templates s) = Some r0"
      using find_None_iff_key[of tr_id ?tid "workout_templates s"] by (cases "find (\<lambda>r. tr_id r = ?tid) (workout_templates s)") auto
    from find_Some_key[OF r0] assms(3) r0 have "tr_id r0 = ?tid" "tr_created_at r0 = t_created_at t"
      by auto
    then show ?thesis
      using True r0 by (simp add: saved_template_store_def find_update_where)
  next
    case False
    then have "find (\<lambda>r. tr_id r = ?tid) (workout_templates s) = None"
      by (simp add: find_None_iff_key)
    then show ?thesis
      using False by (simp add: saved_template_store_def find_append)
  qed
  have flt: "filter (\<lambda>r. ter_template_id r = ?tid) (template_exercises (saved_template_store t s)) =
      map (template_exercise_to_row ?tid) (t_exercises t)"
  proof -
    have "filter (\<lambda>r. ter_template_id r = ?tid)
        (filter (\<lambda>r. ter_template_id r \<noteq> ?tid) (template_exercises s)) = []"
      by (simp add: filter_empty_conv)
    moreover have "filter (\<lambda>r. ter_template_id r = ?tid)
        (map (template_exercise_to_row ?tid) (t_exercises t)) =
        map (template_exercise_to_row ?tid) (t_exercises t)"
      by (simp add: filter_id_conv template_exercise_to_row_def)
    ultimately show ?thesis by (simp add: saved_template_store_def)
  qed
  have srt: "sort_key ter_order_index (map (template_exercise_to_row ?tid) (t_exercises t)) =
      map (template_exercise_to_row ?tid) (t_exercises t)"
    using assms(4)
    by (intro sort_key_id_if_sorted) (simp add: comp_def template_exercise_to_row_def)
  from row obtain rw where rw: "find (\<lambda>r. tr_id r = ?tid)
        (workout_templates (saved_template_store t s)) = Some rw"
      "tr_id rw = ?tid" "tr_name rw = t_name t" "tr_created_at rw = t_created_at t" by blast
  show ?thesis
    unfolding TemplateRepository_get_by_id_def Let_def v flt srt rw(1)
    using rw(2-4)
    by (simp add: comp_def row_to_template_exercise_inverse)
qed

section \<open>Verification: saving and loading a session\<close>

lemma calls_transactions:
  assumes "pending c = None" and "run_all qs (committed c) = Inr s'"
  shows "calls (map (\<lambda>q. transaction [Dml q]) qs) c =
     (None, c\<lparr>committed := s', commits := commits c + length qs\<rparr>)"
  using assms
proof (induction qs arbitrary: c)
  case Nil
  then show ?case by simp
next
  case (Cons q qs)
  from Cons.prems(2) obtain s1 where s1: "q (committed c) = Inr s1" "run_all qs s1 = Inr s'"
    by (auto split: sum.splits)
  let ?c1 = "c\<lparr>committed := s1, commits := commits c + 1\<rparr>"
  have t: "transaction [Dml q] c = (None, ?c1)"
    using Cons.prems(1) s1(1) by (simp add: transaction_idle)
  have "calls (map (\<lambda>q. transaction [Dml q]) qs) ?c1 =
     (None, ?c1\<lparr>committed := s', commits := commits ?c1 + length qs\<rparr>)"
    using Cons.prems(1) s1(2) by (intro Cons.IH) simp_all
  then show ?case using t by simp
qed

lemma save_session_calls_statements:
  "save_session_calls x = map (\<lambda>q. transaction [Dml q]) (session_statements x)"
proof -
  have eqs: "SessionRepository_save = (\<lambda>x. transaction [Dml (upsert_session (session_to_row x))])"
    "SessionRepository_save_exercise =
       (\<lambda>e. transaction [Dml (upsert_session_exercise (session_exercise_to_row e))])"
    "SessionRepository_save_set = (\<lambda>w. transaction [Dml (upsert_set (set_to_row w))])"
    by (auto simp: fun_eq_iff SessionRepository_save_def SessionRepository_save_exercise_def
        SessionRepository_save_set_def)
  show ?thesis
    unfolding save_session_calls_def session_statements_def eqs
    by (simp add: map_concat comp_def)
qed

subsection \<open>One table under a sequence of upserts\<close>

lemma map_key_update_where:
  assumes "\<And>r. key (f r) = key r"
  shows "map key (update_where key k f rows) = map key rows"
  by (induction rows) (simp_all add: update_where_def assms)

lemma map_key_put_row:
  assumes "\<And>n r. key (columns n r) = key r"
  shows "map key (put_row key columns new rows) =
     (if has_key key (key new) rows then map key rows else map key rows @ [key new])"
  by (simp add: put_row_def map_key_update_where assms)

lemma has_key_put_row:
  assumes "\<And>n r. key (columns n r) = key r"
  shows "has_key key k (put_row key columns new rows) = (k = key new \<or> has_key key k rows)"
proof -
  have "has_key key k (put_row key columns new rows) =
      (k \<in> set (map key (put_row key columns new rows)))"
    by (simp add: has_key_def)
  also have "\<dots> = (k = key new \<or> has_key key k rows)"
    unfolding map_key_put_row[of key columns, OF assms] by (auto simp: has_key_def)
  finally show ?thesis .
qed

lemma distinct_put_row:
  assumes "\<And>n r. key (columns n r) = key r" and "distinct (map key rows)"
  shows "distinct (map key (put_row key columns new rows))"
  unfolding map_key_put_row[of key columns, OF assms(1)]
  using assms(2) by (simp add: has_key_def)

lemma set_put_row:
  assumes "\<forall>r \<in> set rows. key r = key new \<longrightarrow> columns new r = new"
  shows "set (put_row key columns new rows) = {r \<in> set rows. key r \<noteq> key new} \<union> {new}"
proof (cases "has_key key (key new) rows")
  case True
  then obtain r0 where r0: "r0 \<in> set rows" "key r0 = key new" by (auto simp: has_key_iff)
  have "set (update_where key (key new) (columns new) rows) =
      (\<lambda>r. if key r = key new then new else r) ` set rows"
    unfolding update_where_def set_map using assms by (intro image_cong) auto
  also have "\<dots> = {r \<in> set rows. key r \<noteq> key new} \<union> {new}"
    using r0 by (auto simp: image_iff)
  finally show ?thesis using True by (simp add: put_row_def)
next
  case False
  then have "\<forall>r \<in> set rows. key r \<noteq> key new" by (auto simp: has_key_iff)
  then have "{r \<in> set rows. key r \<noteq> key new} = set rows" by auto
  then show ?thesis using False by (simp add: put_row_def)
qed

lemma has_key_fold_put_row:
  assumes "\<And>n r. key (columns n r) = key r"
  shows "has_key key k (fold (put_row key columns) news rows) =
     (k \<in> key ` set news \<or> has_key key k rows)"
  by (induction news arbitrary: rows) (auto simp: has_key_put_row[of key columns, OF assms])

lemma distinct_fold_put_row:
  assumes "\<And>n r. key (columns n r) = key r" and "distinct (map key rows)"
  shows "distinct (map key (fold (put_row key columns) news rows))"
  using assms(2)
  by (induction news arbitrary: rows) (simp_all add: distinct_put_row[of key columns, OF assms(1)])

lemma set_fold_put_row:
  assumes "distinct (map key news)"
    and "\<forall>r \<in> set rows. \<forall>n \<in> set news. key r = key n \<longrightarrow> columns n r = n"
  shows "set (fold (put_row key columns) news rows) =
     {r \<in> set rows. key r \<notin> key ` set news} \<union> set news"
  using assms
proof (induction news arbitrary: rows)
  case Nil
  then show ?case by simp
next
  case (Cons n ns)
  let ?rows' = "put_row key columns n rows"
  have s1: "set ?rows' = {r \<in> set rows. key r \<noteq> key n} \<union> {n}"
    using Cons.prems(2) by (intro set_put_row) simp
  have nk: "key n \<notin> key ` set ns" using Cons.prems(1) by simp
  have compat: "\<forall>r \<in> set ?rows'. \<forall>m \<in> set ns. key r = key m \<longrightarrow> columns m r = m"
  proof (intro ballI impI)
    fix r m assume r: "r \<in> set ?rows'" and m: "m \<in> set ns" and k: "key r = key m"
    have "key m \<noteq> key n" using nk m by (metis imageI)
    then have "r \<noteq> n" using k by auto
    then have "r \<in> set rows" using r s1 by auto
    then show "columns m r = m" using Cons.prems(2) m k by simp
  qed
  have d: "distinct (map key ns)" using Cons.prems(1) by simp
  have ih: "set (fold (put_row key columns) ns ?rows') =
      {r \<in> set ?rows'. key r \<notin> key ` set ns} \<union> set ns"
    using d compat by (rule Cons.IH)
  have "{r \<in> set ?rows'. key r \<notin> key ` set ns} =
      {r \<in> set rows. key r \<notin> key ` set (n # ns)} \<union> {n}"
    unfolding s1 using nk by auto
  then show ?case using ih by auto
qed

lemma sort_key_unique:
  assumes "distinct xs" and "set xs = set ys" and "sorted_wrt (<) (map k ys)"
  shows "sort_key k xs = ys"
proof -
  have sy: "sorted (map k ys)" "distinct (map k ys)"
    using assms(3) by (simp_all add: strict_sorted_iff)
  have inj: "inj_on k (set ys)" using sy(2) by (simp add: distinct_map)
  have "distinct (map k xs)" using assms(1,2) inj by (simp add: distinct_map)
  then have d: "distinct (map k (sort_key k xs))" by (simp add: distinct_map_sort_key)
  have "set (map k (sort_key k xs)) = set (map k ys)" using assms(2) by simp
  then have "map k (sort_key k xs) = map k ys"
    using sorted_distinct_set_unique[OF sorted_sort_key d sy] by simp
  moreover have "inj_on k (set (sort_key k xs) \<union> set ys)" using inj assms(2) by simp
  ultimately show ?thesis by (simp add: inj_on_map_eq_map)
qed

subsection \<open>The three upserts of a session\<close>

lemma set_to_row_columns [simp]:
  "sw_id (set_to_row w) = set_id w"
  "sw_session_exercise_id (set_to_row w) = set_session_exercise_id w"
  "sw_created_at (set_to_row w) = set_created_at w"
  by (simp_all add: set_to_row_def)

lemma session_exercise_to_row_columns [simp]:
  "ser_id (session_exercise_to_row e) = se_id e"
  "ser_session_id (session_exercise_to_row e) = se_session_id e"
  "ser_order_index (session_exercise_to_row e) = se_order_index e"
  by (simp_all add: session_exercise_to_row_def)

lemma session_to_row_columns [simp]:
  "sr_id (session_to_row x) = ws_id x"
  "sr_template_id (session_to_row x) = ws_template_id x"
  by (simp_all add: session_to_row_def)

lemma columns_keep_key [simp]:
  "sr_id (session_columns n r) = sr_id r"
  "ser_id (exercise_columns m q) = ser_id q"
  "ser_session_id (exercise_columns m q) = ser_session_id q"
  "sw_id (set_columns k w) = sw_id w"
  "sw_session_exercise_id (set_columns k w) = sw_session_exercise_id w"
  by (simp_all add: session_columns_def exercise_columns_def set_columns_def)

lemma upsert_session_put:
  "upsert_session row s =
     (if \<not> template_ref_ok (sr_template_id row) s then Inl IntegrityError
      else Inr (s\<lparr>workout_sessions :=
                   put_row sr_id session_columns row (workout_sessions s)\<rparr>))"
proof -
  have "session_columns row =
      (\<lambda>r. r\<lparr>sr_template_id := sr_template_id row, sr_template_name := sr_template_name row,
             sr_ended_at := sr_ended_at row, sr_duration_seconds := sr_duration_seconds row,
             sr_notes := sr_notes row\<rparr>)"
    by (rule ext) (simp add: session_columns_def)
  then show ?thesis by (simp add: upsert_session_def put_row_def)
qed

lemma upsert_session_exercise_put:
  "upsert_session_exercise row s =
     (if has_key ser_id (ser_id row) (session_exercises s) \<or>
         has_key sr_id (ser_session_id row) (workout_sessions s)
      then Inr (s\<lparr>session_exercises :=
                   put_row ser_id exercise_columns row (session_exercises s)\<rparr>)
      else Inl IntegrityError)"
proof -
  have "exercise_columns row =
      (\<lambda>r. r\<lparr>ser_name := ser_name row, ser_order_index := ser_order_index row,
             ser_uses_weight := ser_uses_weight row\<rparr>)"
    by (rule ext) (simp add: exercise_columns_def)
  then show ?thesis by (simp add: upsert_session_exercise_def put_row_def)
qed

lemma upsert_set_put:
  "upsert_set row s =
     (if has_key sw_id (sw_id row) (sets s) \<or>
         has_key ser_id (sw_session_exercise_id row) (session_exercises s)
      then Inr (s\<lparr>sets := put_row sw_id set_columns row (sets s)\<rparr>)
      else Inl IntegrityError)"
proof -
  have "set_columns row = (\<lambda>r. r\<lparr>sw_reps := sw_reps row, sw_weight := sw_weight row\<rparr>)"
    by (rule ext) (simp add: set_columns_def)
  then show ?thesis by (simp add: upsert_set_def put_row_def)
qed

lemma upsert_sets_run:
  assumes "\<forall>w \<in> set ws. has_key ser_id (set_session_exercise_id w) (session_exercises s)"
  shows "run_all (map (\<lambda>w. upsert_set (set_to_row w)) ws) s =
     Inr (s\<lparr>sets := fold (put_row sw_id set_columns) (map set_to_row ws) (sets s)\<rparr>)"
  using assms
proof (induction ws arbitrary: s)
  case Nil
  then show ?case by simp
next
  case (Cons w ws)
  let ?s1 = "s\<lparr>sets := put_row sw_id set_columns (set_to_row w) (sets s)\<rparr>"
  have step: "upsert_set (set_to_row w) s = Inr ?s1"
    using Cons.prems by (simp add: upsert_set_put)
  have "\<forall>w' \<in> set ws. has_key ser_id (set_session_exercise_id w') (session_exercises ?s1)"
    using Cons.prems by simp
  from Cons.IH[OF this] show ?case using step by simp
qed

lemma upsert_exercises_run:
  assumes "\<forall>e \<in> set es. has_key sr_id (se_session_id e) (workout_sessions s)"
    and "\<forall>e \<in> set es. \<forall>w \<in> set (se_sets e). set_session_exercise_id w = se_id e"
  shows "run_all (exercise_statements es) s =
     Inr (s\<lparr>session_exercises :=
              fold (put_row ser_id exercise_columns) (map session_exercise_to_row es)
                (session_exercises s),
            sets := fold (put_row sw_id set_columns)
                      (map set_to_row (concat (map se_sets es))) (sets s)\<rparr>)"
  using assms
proof (induction es arbitrary: s)
  case Nil
  then show ?case by (simp add: exercise_statements_def)
next
  case (Cons e es)
  let ?s1 = "s\<lparr>session_exercises :=
      put_row ser_id exercise_columns (session_exercise_to_row e) (session_exercises s)\<rparr>"
  let ?s2 = "?s1\<lparr>sets := fold (put_row sw_id set_columns) (map set_to_row (se_sets e)) (sets s)\<rparr>"
  have step1: "upsert_session_exercise (session_exercise_to_row e) s = Inr ?s1"
    using Cons.prems(1) by (simp add: upsert_session_exercise_put)
  have "\<forall>w \<in> set (se_sets e).
      has_key ser_id (set_session_exercise_id w) (session_exercises ?s1)"
    using Cons.prems(2) by (simp add: has_key_put_row)
  from upsert_sets_run[OF this]
  have step2: "run_all (map (\<lambda>w. upsert_set (set_to_row w)) (se_sets e)) ?s1 = Inr ?s2"
    by simp
  have ih: "run_all (exercise_statements es) ?s2 =
     Inr (?s2\<lparr>session_exercises :=
              fold (put_row ser_id exercise_columns) (map session_exercise_to_row es)
                (session_exercises ?s2),
            sets := fold (put_row sw_id set_columns)
                      (map set_to_row (concat (map se_sets es))) (sets ?s2)\<rparr>)"
    using Cons.prems by (intro Cons.IH) simp_all
  have "exercise_statements (e # es) =
      upsert_session_exercise (session_exercise_to_row e) #
      map (\<lambda>w. upsert_set (set_to_row w)) (se_sets e) @ exercise_statements es"
    by (simp add: exercise_statements_def)
  then show ?case
    using step1 step2 ih by (simp add: run_all_append)
qed

lemma session_statements_run:
  assumes "session_wf x" and "template_ref_ok (ws_template_id x) s"
  shows "run_all (session_statements x) s = Inr (saved_session_store x s)"
proof -
  let ?s1 = "s\<lparr>workout_sessions :=
      put_row sr_id session_columns (session_to_row x) (workout_sessions s)\<rparr>"
  have step: "upsert_session (session_to_row x) s = Inr ?s1"
    using assms(2) by (simp add: upsert_session_put)
  have "run_all (exercise_statements (ws_exercises x)) ?s1 =
     Inr (?s1\<lparr>session_exercises :=
              fold (put_row ser_id exercise_columns)
                (map session_exercise_to_row (ws_exercises x)) (session_exercises ?s1),
            sets := fold (put_row sw_id set_columns)
                      (map set_to_row (concat (map se_sets (ws_exercises x)))) (sets ?s1)\<rparr>)"
    using assms(1)
    by (intro upsert_exercises_run) (simp_all add: session_wf_def has_key_put_row)
  then show ?thesis
    using step
    by (simp add: session_statements_def exercise_statements_def saved_session_store_def
        all_sets_def)
qed

subsection \<open>Loading what was saved\<close>

lemma row_to_set_inverse [simp]: "row_to_set (set_to_row w) = w"
  by (simp add: row_to_set_def set_to_row_def)

text \<open>Every in-memory set belongs to one in-memory exercise.\<close>

lemma all_sets_owner:
  assumes "w \<in> set (all_sets x)"
  obtains e where "e \<in> set (ws_exercises x)" and "w \<in> set (se_sets e)"
  using assms by (auto simp: all_sets_def)

lemma load_saved_sets:
  assumes "session_wf x" and "session_fits x s" and "e \<in> set (ws_exercises x)"
  shows "load_sets (saved_session_store x s) (se_id e) = se_sets e"
proof -
  let ?news = "map set_to_row (all_sets x)"
  let ?R = "fold (put_row sw_id set_columns) ?news (sets s)"
  let ?L = "filter (\<lambda>r. sw_session_exercise_id r = se_id e) ?R"
  have own: "\<And>e' w. e' \<in> set (ws_exercises x) \<Longrightarrow> w \<in> set (se_sets e') \<Longrightarrow>
      set_session_exercise_id w = se_id e'"
    using assms(1) by (simp add: session_wf_def)
  have stored: "\<And>r e' w. r \<in> set (sets s) \<Longrightarrow> e' \<in> set (ws_exercises x) \<Longrightarrow>
      w \<in> set (se_sets e') \<Longrightarrow> sw_id r = set_id w \<Longrightarrow>
      sw_session_exercise_id r = se_id e' \<and> sw_created_at r = set_created_at w"
    using assms(2) unfolding session_fits_def by blast
  have under: "\<And>r. r \<in> set (sets s) \<Longrightarrow> sw_session_exercise_id r = se_id e \<Longrightarrow>
      sw_id r \<in> set (map set_id (se_sets e))"
    using assms(2,3) unfolding session_fits_def by blast
  have dn: "distinct (map sw_id ?news)"
    using assms(1) by (simp add: session_wf_def comp_def)
  have compat: "\<forall>r \<in> set (sets s). \<forall>n \<in> set ?news. sw_id r = sw_id n \<longrightarrow> set_columns n r = n"
  proof (intro ballI impI)
    fix r n assume r: "r \<in> set (sets s)" and n: "n \<in> set ?news" and k: "sw_id r = sw_id n"
    from n obtain w where w: "w \<in> set (all_sets x)" "n = set_to_row w" by auto
    from w(1) obtain e' where e': "e' \<in> set (ws_exercises x)" "w \<in> set (se_sets e')"
      by (rule all_sets_owner)
    have "sw_id r = set_id w" using k w(2) by simp
    from stored[OF r e' this] own[OF e']
    have "sw_session_exercise_id r = set_session_exercise_id w"
      "sw_created_at r = set_created_at w" by simp_all
    then show "set_columns n r = n"
      using \<open>sw_id r = set_id w\<close> w(2) by (cases r) (simp add: set_columns_def set_to_row_def)
  qed
  have R: "set ?R = {r \<in> set (sets s). sw_id r \<notin> sw_id ` set ?news} \<union> set ?news"
    using dn compat by (rule set_fold_put_row)
  have "distinct (map sw_id (sets s))" using assms(2) by (simp add: session_fits_def)
  then have "distinct (map sw_id ?R)"
    by (intro distinct_fold_put_row) simp_all
  then have dL: "distinct ?L" by (simp add: distinct_map)
  have "set ?L = set (map set_to_row (se_sets e))"
  proof (intro set_eqI iffI)
    fix r assume "r \<in> set ?L"
    then have rR: "r \<in> set ?R" and p: "sw_session_exercise_id r = se_id e" by simp_all
    from rR R consider (old) "r \<in> set (sets s)" "sw_id r \<notin> sw_id ` set ?news"
      | (new) "r \<in> set ?news" by blast
    then show "r \<in> set (map set_to_row (se_sets e))"
    proof cases
      case old
      from under[OF old(1) p] obtain w where w: "w \<in> set (se_sets e)" "set_id w = sw_id r"
        by auto
      then have "w \<in> set (all_sets x)" using assms(3) by (auto simp: all_sets_def)
      then have "sw_id (set_to_row w) \<in> sw_id ` set ?news" by (metis imageI set_map)
      then show ?thesis using old(2) w(2) by simp
    next
      case new
      then obtain w where w: "w \<in> set (all_sets x)" "r = set_to_row w" by auto
      from w(1) obtain e' where e': "e' \<in> set (ws_exercises x)" "w \<in> set (se_sets e')"
        by (rule all_sets_owner)
      have "se_id e' = se_id e" using own[OF e'] p w(2) by simp
      moreover have "distinct (map se_id (ws_exercises x))"
        using assms(1) by (simp add: session_wf_def)
      ultimately have "e' = e" using e'(1) assms(3) by (meson same_key_same_row)
      then show ?thesis using e'(2) w(2) by simp
    qed
  next
    fix r assume "r \<in> set (map set_to_row (se_sets e))"
    then obtain w where w: "w \<in> set (se_sets e)" "r = set_to_row w" by auto
    then have "w \<in> set (all_sets x)" using assms(3) by (auto simp: all_sets_def)
    then have "r \<in> set ?R" using R w(2) by simp
    moreover have "sw_session_exercise_id r = se_id e" using own[OF assms(3) w(1)] w(2) by simp
    ultimately show "r \<in> set ?L" by simp
  qed
  moreover have "sorted_wrt (<) (map sw_created_at (map set_to_row (se_sets e)))"
    using assms(1,3) by (simp add: session_wf_def comp_def)
  ultimately have "sort_key sw_created_at ?L = map set_to_row (se_sets e)"
    using dL by (intro sort_key_unique)
  then show ?thesis
    by (simp add: load_sets_def saved_session_store_def comp_def)
qed

lemma load_saved_exercises:
  assumes "session_wf x" and "session_fits x s"
  shows "load_exercises (saved_session_store x s) (ws_id x) = ws_exercises x"
proof -
  let ?s' = "saved_session_store x s"
  let ?news = "map session_exercise_to_row (ws_exercises x)"
  let ?R = "fold (put_row ser_id exercise_columns) ?news (session_exercises s)"
  let ?L = "filter (\<lambda>r. ser_session_id r = ws_id x) ?R"
  have own: "\<And>e. e \<in> set (ws_exercises x) \<Longrightarrow> se_session_id e = ws_id x"
    using assms(1) by (simp add: session_wf_def)
  have stored: "\<And>r. r \<in> set (session_exercises s) \<Longrightarrow>
      (ser_session_id r = ws_id x) = (ser_id r \<in> set (map se_id (ws_exercises x)))"
    using assms(2) unfolding session_fits_def by blast
  have dn: "distinct (map ser_id ?news)"
    using assms(1) by (simp add: session_wf_def comp_def)
  have compat: "\<forall>r \<in> set (session_exercises s). \<forall>n \<in> set ?news.
      ser_id r = ser_id n \<longrightarrow> exercise_columns n r = n"
  proof (intro ballI impI)
    fix r n assume r: "r \<in> set (session_exercises s)" and n: "n \<in> set ?news"
      and k: "ser_id r = ser_id n"
    from n obtain e where e: "e \<in> set (ws_exercises x)" "n = session_exercise_to_row e" by auto
    have "ser_id r = se_id e" using k e(2) by simp
    then have "ser_id r \<in> set (map se_id (ws_exercises x))" using e(1) by auto
    then have "ser_session_id r = se_session_id e" using stored[OF r] own[OF e(1)] by simp
    then show "exercise_columns n r = n"
      using \<open>ser_id r = se_id e\<close> e(2)
      by (cases r) (simp add: exercise_columns_def session_exercise_to_row_def)
  qed
  have R: "set ?R = {r \<in> set (session_exercises s). ser_id r \<notin> ser_id ` set ?news} \<union> set ?news"
    using dn compat by (rule set_fold_put_row)
  have "distinct (map ser_id (session_exercises s))"
    using assms(2) by (simp add: session_fits_def)
  then have "distinct (map ser_id ?R)"
    by (intro distinct_fold_put_row) simp_all
  then have dL: "distinct ?L" by (simp add: distinct_map)
  have "set ?L = set ?news"
  proof (intro set_eqI iffI)
    fix r assume "r \<in> set ?L"
    then have rR: "r \<in> set ?R" and p: "ser_session_id r = ws_id x" by simp_all
    from rR R consider (old) "r \<in> set (session_exercises s)" "ser_id r \<notin> ser_id ` set ?news"
      | (new) "r \<in> set ?news" by blast
    then show "r \<in> set ?news"
    proof cases
      case old
      from stored[OF old(1)] p obtain e where e: "e \<in> set (ws_exercises x)" "se_id e = ser_id r"
        by auto
      then have "ser_id (session_exercise_to_row e) \<in> ser_id ` set ?news"
        by (metis imageI set_map)
      then show ?thesis using old(2) e(2) by simp
    next
      case new
      then show ?thesis .
    qed
  next
    fix r assume n: "r \<in> set ?news"
    then obtain e where e: "e \<in> set (ws_exercises x)" "r = session_exercise_to_row e" by auto
    have "r \<in> set ?R" using R n by simp
    moreover have "ser_session_id r = ws_id x" using own[OF e(1)] e(2) by simp
    ultimately show "r \<in> set ?L" by simp
  qed
  moreover have "sorted_wrt (<) (map ser_order_index ?news)"
    using assms(1) by (simp add: session_wf_def comp_def)
  ultimately have srt: "sort_key ser_order_index ?L = ?news"
    using dL by (intro sort_key_unique)
  have "map (\<lambda>r. \<lparr>se_id = ser_id r, se_session_id = ser_session_id r, se_name = ser_name r,
               se_order_index = ser_order_index r,
               se_uses_weight = py_bool (ser_uses_weight r),
               se_sets = load_sets ?s' (ser_id r)\<rparr>) ?news = ws_exercises x"
    unfolding map_map comp_def
    by (rule map_idI) (simp add: session_exercise_to_row_def load_saved_sets[OF assms])
  moreover have "filter (\<lambda>r. ser_session_id r = ws_id x) (session_exercises ?s') = ?L"
    by (simp add: saved_session_store_def)
  ultimately show ?thesis
    by (simp add: load_exercises_def srt)
qed

lemma find_put_row:
  assumes "\<And>n r. key (columns n r) = key r"
    and "\<forall>r \<in> set rows. key r = key new \<longrightarrow> columns new r = new"
  shows "find (\<lambda>r. key r = key new) (put_row key columns new rows) = Some new"
proof (cases "has_key key (key new) rows")
  case True
  then obtain r where r: "find (\<lambda>r. key r = key new) rows = Some r"
    using find_None_iff_key[of key "key new" rows] by (cases "find (\<lambda>r. key r = key new) rows") auto
  have "columns new r = new" using find_Some_key[OF r] assms(2) by simp
  then show ?thesis
    using True r find_Some_key[OF r]
    by (simp add: put_row_def find_update_where[of key "columns new", OF assms(1)])
next
  case False
  then have "find (\<lambda>r. key r = key new) rows = None" by (simp add: find_None_iff_key)
  then show ?thesis using False by (simp add: put_row_def find_append)
qed

lemma get_saved_session:
  assumes "session_wf x" and "session_fits x s" and "view c = saved_session_store x s"
  shows "SessionRepository_get_by_id (ws_id x) c = Some x"
proof -
  have "\<forall>r \<in> set (workout_sessions s). sr_id r = sr_id (session_to_row x) \<longrightarrow>
      session_columns (session_to_row x) r = session_to_row x"
  proof (intro ballI impI)
    fix r assume r: "r \<in> set (workout_sessions s)" and k: "sr_id r = sr_id (session_to_row x)"
    then have "sr_started_at r = ws_started_at x"
      using assms(2) by (simp add: session_fits_def)
    then show "session_columns (session_to_row x) r = session_to_row x"
      using k by (cases r) (simp add: session_columns_def session_to_row_def)
  qed
  then have "find (\<lambda>r. sr_id r = sr_id (session_to_row x))
      (put_row sr_id session_columns (session_to_row x) (workout_sessions s)) =
      Some (session_to_row x)"
    by (intro find_put_row) simp_all
  then have f: "find (\<lambda>r. sr_id r = ws_id x) (workout_sessions (saved_session_store x s)) =
      Some (session_to_row x)"
    by (simp add: saved_session_store_def)
  show ?thesis
    unfolding SessionRepository_get_by_id_def Let_def assms(3) f
    by (simp add: load_saved_exercises[OF assms(1,2)] row_to_session_def session_to_row_def)
qed

text \<open>A session that is new to a store with unique keys fits it.\<close>

lemma new_session_fits:
  assumes "session_new_to x s" and "distinct (map ser_id (session_exercises s))"
    and "distinct (map sw_id (sets s))"
  shows "session_fits x s"
  unfolding session_fits_def
proof (intro conjI ballI impI)
  fix r assume "r \<in> set (workout_sessions s)" "sr_id r = ws_id x"
  then show "sr_started_at r = ws_started_at x"
    using assms(1) by (auto simp: session_new_to_def has_key_iff)
next
  show "distinct (map ser_id (session_exercises s))" by (rule assms(2))
next
  fix r assume "r \<in> set (session_exercises s)"
  then show "(ser_session_id r = ws_id x) = (ser_id r \<in> set (map se_id (ws_exercises x)))"
    using assms(1) by (simp add: session_new_to_def)
next
  show "distinct (map sw_id (sets s))" by (rule assms(3))
next
  fix r e assume r: "r \<in> set (sets s)" and e: "e \<in> set (ws_exercises x)"
    and "sw_session_exercise_id r = se_id e"
  then have "sw_session_exercise_id r \<in> set (map se_id (ws_exercises x))" by simp
  then show "sw_id r \<in> set (map set_id (se_sets e))"
    using assms(1) r by (simp add: session_new_to_def)
next
  fix r e w assume r: "r \<in> set (sets s)" and e: "e \<in> set (ws_exercises x)"
    and w: "w \<in> set (se_sets e)" and k: "sw_id r = set_id w"
  have "w \<in> set (all_sets x)" using e w by (auto simp: all_sets_def)
  then have "sw_id r \<in> set (map set_id (all_sets x))" using k by simp
  then have False using assms(1) r by (simp add: session_new_to_def)
  then show "sw_session_exercise_id r = se_id e" "sw_created_at r = set_created_at w"
    by simp_all
qed

text \<open>
  C3, as the code has it. A well-formed template that fits the store (see
  \<open>template_wf\<close> and \<open>template_fits\<close>) is returned by \<open>get_by_id\<close> exactly as it
  was saved: every field, every exercise, in the same order. A well-formed session that
  fits the store (see \<open>session_wf\<close> and \<open>session_fits\<close>: it may be stored already,
  with any of its exercises and sets, as long as the store holds no child of it that
  the in-memory copy lacks) and whose template, if it names one, is stored, is returned
  by \<open>get_by_id\<close> exactly as it was saved by \<open>save\<close>, \<open>save_exercise\<close> for each
  exercise and \<open>save_set\<close> for each set.
\<close>

theorem save_then_get_by_id:
  "(pending c = None \<and> template_wf t \<and> template_fits t (committed c) \<longrightarrow>
      (\<exists>c'. TemplateRepository_save t c = (None, c') \<and>
            TemplateRepository_get_by_id (t_id t) c' = Some t)) \<and>
   (pending c = None \<and> session_wf x \<and> session_fits x (committed c) \<and>
    template_ref_ok (ws_template_id x) (committed c) \<longrightarrow>
      (\<exists>c'. save_session_aggregate x c = (None, c') \<and>
            SessionRepository_get_by_id (ws_id x) c' = Some x))"
proof (intro conjI impI)
  assume a: "pending c = None \<and> template_wf t \<and> template_fits t (committed c)"
  let ?c' = "c\<lparr>committed := saved_template_store t (committed c), commits := commits c + 1\<rparr>"
  have save: "TemplateRepository_save t c = (None, ?c')"
    using a by (intro template_save_result) (simp_all add: template_wf_def template_fits_def)
  have "sorted (map te_order_index (t_exercises t))"
    using a by (auto simp: template_wf_def intro: strict_sorted_imp_sorted)
  then have "TemplateRepository_get_by_id (t_id t) ?c' =
     Some (t\<lparr>t_exercises := map (\<lambda>e. e\<lparr>te_template_id := t_id t\<rparr>) (t_exercises t)\<rparr>)"
    using a by (intro get_saved_template[where s = "committed c"])
      (auto simp: template_fits_def dest: find_Some_key)
  moreover have "map (\<lambda>e. e\<lparr>te_template_id := t_id t\<rparr>) (t_exercises t) = t_exercises t"
    using a by (intro map_idI) (simp add: template_wf_def)
  ultimately have "TemplateRepository_get_by_id (t_id t) ?c' = Some t" by simp
  then show "\<exists>c'. TemplateRepository_save t c = (None, c') \<and>
            TemplateRepository_get_by_id (t_id t) c' = Some t"
    using save by blast
next
  assume a: "pending c = None \<and> session_wf x \<and> session_fits x (committed c) \<and>
    template_ref_ok (ws_template_id x) (committed c)"
  let ?s' = "saved_session_store x (committed c)"
  let ?c' = "c\<lparr>committed := ?s', commits := commits c + length (session_statements x)\<rparr>"
  have run: "run_all (session_statements x) (committed c) = Inr ?s'"
    using a by (intro session_statements_run) simp_all
  have save: "save_session_aggregate x c = (None, ?c')"
    unfolding save_session_aggregate_def save_session_calls_statements
    using a run by (intro calls_transactions) simp_all
  have "view ?c' = ?s'" using a by (simp add: view_def)
  then have "SessionRepository_get_by_id (ws_id x) ?c' = Some x"
    using a by (intro get_saved_session[where s = "committed c"]) simp_all
  then show "\<exists>c'. save_session_aggregate x c = (None, c') \<and>
            SessionRepository_get_by_id (ws_id x) c' = Some x"
    using save by blast
qed

text \<open>
  C6. For a persisted template, saving the in-memory copy from which the \<open>i\<close>-th
  exercise was dropped succeeds; afterwards no row of \<open>template_exercises\<close> has the
  identifier of the dropped exercise, every exercise of the in-memory list has exactly
  one row, and \<open>get_by_id\<close> returns the in-memory copy.
\<close>

theorem template_save_replaces_children:
  assumes "pending c = None"
    and "distinct (map ter_id (template_exercises (committed c)))"
    and "TemplateRepository_get_by_id tid c = Some t"
    and "i < length (t_exercises t)"
  shows "let dropped = t_exercises t ! i;
             t' = t\<lparr>t_exercises := take i (t_exercises t) @ drop (Suc i) (t_exercises t)\<rparr>
         in \<exists>c'. TemplateRepository_save t' c = (None, c') \<and> pending c' = None \<and>
              \<not> has_key ter_id (te_id dropped) (template_exercises (committed c')) \<and>
              (\<forall>e \<in> set (t_exercises t').
                 length (filter (\<lambda>r. ter_id r = te_id e)
                           (template_exercises (committed c'))) = 1) \<and>
              TemplateRepository_get_by_id tid c' = Some t'"
proof -
  let ?s = "committed c"
  let ?rows = "template_exercises ?s"
  let ?L = "sort_key ter_order_index (filter (\<lambda>r. ter_template_id r = tid) ?rows)"
  let ?es = "t_exercises t"
  let ?es' = "take i ?es @ drop (Suc i) ?es"
  let ?t' = "t\<lparr>t_exercises := ?es'\<rparr>"
  have v: "view c = ?s" using assms(1) by (simp add: view_def)
  obtain row where row: "find (\<lambda>r. tr_id r = tid) (workout_templates ?s) = Some row"
    and t: "t = \<lparr>t_id = tr_id row, t_name = tr_name row, t_created_at = tr_created_at row,
                  t_exercises = map row_to_template_exercise ?L\<rparr>"
    using assms(3) unfolding TemplateRepository_get_by_id_def Let_def v
    by (auto split: option.splits)
  have tid: "t_id t = tid" using find_Some_key[OF row] t by simp
  have es: "?es = map row_to_template_exercise ?L" using t by simp
  have ids: "map te_id ?es = map ter_id ?L"
    unfolding es by (simp add: comp_def row_to_template_exercise_def)
  have ords: "map te_order_index ?es = map ter_order_index ?L"
    unfolding es by (simp add: comp_def row_to_template_exercise_def)
  have dL: "distinct (map ter_id ?L)"
    using assms(2) by (simp add: distinct_map_sort_key distinct_map_filter)
  then have d_es: "distinct (map te_id ?es)" using ids by simp
  have owned: "\<And>e. e \<in> set ?es \<Longrightarrow>
      \<exists>r0 \<in> set ?rows. ter_template_id r0 = tid \<and> ter_id r0 = te_id e \<and> te_template_id e = tid"
    unfolding es by (auto simp: row_to_template_exercise_def)
  have others: "\<And>e r. e \<in> set ?es \<Longrightarrow> r \<in> set ?rows \<Longrightarrow> ter_id r = te_id e \<Longrightarrow>
      ter_template_id r = tid"
  proof -
    fix e r assume "e \<in> set ?es" and r: "r \<in> set ?rows" "ter_id r = te_id e"
    then obtain r0 where r0: "r0 \<in> set ?rows" "ter_template_id r0 = tid" "ter_id r0 = te_id e"
      using owned by blast
    have "r = r0" using same_key_same_row[OF assms(2) r(1) r0(1)] r(2) r0(3) by simp
    then show "ter_template_id r = tid" using r0(2) by simp
  qed
  from drop_nth_distinct[OF d_es assms(4)]
  have d_es': "distinct (map te_id ?es')"
    and gone: "te_id (?es ! i) \<notin> te_id ` set ?es'" by auto
  have sub: "set ?es' \<subseteq> set ?es" by (rule drop_nth_subset)
  have nth: "?es ! i \<in> set ?es" using assms(4) by simp
  have fits: "\<forall>r \<in> set ?rows. ter_id r \<in> set (map te_id ?es') \<longrightarrow> ter_template_id r = tid"
  proof (intro ballI impI)
    fix r assume r: "r \<in> set ?rows" and "ter_id r \<in> set (map te_id ?es')"
    then obtain e where "e \<in> set ?es'" "ter_id r = te_id e" by auto
    then show "ter_template_id r = tid" using others[of e r] sub r by auto
  qed
  let ?s' = "saved_template_store ?t' ?s"
  let ?c' = "c\<lparr>committed := ?s', commits := commits c + 1\<rparr>"
  have save: "TemplateRepository_save ?t' c = (None, ?c')"
    using assms(1) d_es' fits tid by (intro template_save_result) simp_all
  have rows': "template_exercises ?s' =
      filter (\<lambda>r. ter_template_id r \<noteq> tid) ?rows @ map (template_exercise_to_row tid) ?es'"
    using tid by (simp add: saved_template_store_def)
  have no_other: "\<And>e. e \<in> set ?es \<Longrightarrow>
      filter (\<lambda>r. ter_id r = te_id e) (filter (\<lambda>r. ter_template_id r \<noteq> tid) ?rows) = []"
    using others by (auto simp: filter_empty_conv)
  have absent: "\<not> has_key ter_id (te_id (?es ! i)) (template_exercises ?s')"
  proof
    assume "has_key ter_id (te_id (?es ! i)) (template_exercises ?s')"
    then have "has_key ter_id (te_id (?es ! i)) (filter (\<lambda>r. ter_template_id r \<noteq> tid) ?rows) \<or>
        has_key ter_id (te_id (?es ! i)) (map (template_exercise_to_row tid) ?es')"
      unfolding rows' by simp
    then show False
    proof
      assume "has_key ter_id (te_id (?es ! i)) (filter (\<lambda>r. ter_template_id r \<noteq> tid) ?rows)"
      then obtain r where "r \<in> set ?rows" "ter_template_id r \<noteq> tid"
        "ter_id r = te_id (?es ! i)"
        unfolding has_key_iff by auto
      then show False using others[OF nth, of r] by simp
    next
      assume "has_key ter_id (te_id (?es ! i)) (map (template_exercise_to_row tid) ?es')"
      then obtain rb where "rb \<in> set (map (template_exercise_to_row tid) ?es')"
        "ter_id rb = te_id (?es ! i)"
        unfolding has_key_iff by blast
      then obtain e where e: "e \<in> set ?es'" "rb = template_exercise_to_row tid e"
        "ter_id rb = te_id (?es ! i)"
        unfolding set_map by blast
      have "te_id e = te_id (?es ! i)"
        using e(2,3) by (simp add: template_exercise_to_row_def)
      then show False using gone e(1) by (metis imageI)
    qed
  qed
  have once: "\<forall>e \<in> set ?es'.
      length (filter (\<lambda>r. ter_id r = te_id e) (template_exercises ?s')) = 1"
  proof
    fix e assume e: "e \<in> set ?es'"
    let ?B = "map (template_exercise_to_row tid) ?es'"
    have dB: "distinct (map ter_id ?B)"
      using d_es' by (simp add: comp_def template_exercise_to_row_def)
    have inB: "template_exercise_to_row tid e \<in> set ?B" using e by (metis imageI set_map)
    have "filter (\<lambda>r. ter_id r = ter_id (template_exercise_to_row tid e)) ?B =
        [template_exercise_to_row tid e]"
      by (rule filter_key_singleton[OF dB inB])
    then have "filter (\<lambda>r. ter_id r = te_id e) ?B = [template_exercise_to_row tid e]"
      by (simp add: template_exercise_to_row_def)
    then show "length (filter (\<lambda>r. ter_id r = te_id e) (template_exercises ?s')) = 1"
      unfolding rows' using no_other[of e] e sub by auto
  qed
  have "sorted (map te_order_index ?es)" unfolding ords by simp
  then have srt: "sorted (map te_order_index ?es')" using assms(4) by (rule drop_nth_sorted)
  have "TemplateRepository_get_by_id (t_id ?t') ?c' =
     Some (?t'\<lparr>t_exercises := map (\<lambda>e. e\<lparr>te_template_id := t_id ?t'\<rparr>) (t_exercises ?t')\<rparr>)"
  proof (rule get_saved_template[where s = ?s])
    show "pending ?c' = None" using assms(1) by simp
    show "committed ?c' = saved_template_store ?t' ?s" by simp
    show "\<forall>r. find (\<lambda>r. tr_id r = t_id ?t') (workout_templates ?s) = Some r \<longrightarrow>
           tr_created_at r = t_created_at ?t'"
      using row tid t by auto
    show "sorted (map te_order_index (t_exercises ?t'))" using srt by simp
  qed
  moreover have "map (\<lambda>e. e\<lparr>te_template_id := tid\<rparr>) ?es' = ?es'"
  proof (rule map_idI)
    fix e assume "e \<in> set ?es'"
    then have "e \<in> set ?es" using sub by blast
    then have "te_template_id e = tid" using owned by blast
    then show "e\<lparr>te_template_id := tid\<rparr> = e" by simp
  qed
  ultimately have get: "TemplateRepository_get_by_id tid ?c' = Some ?t'"
    using tid by simp
  show ?thesis
    unfolding Let_def using save absent once get assms(1)
    by (intro exI[of _ ?c']) simp
qed

text \<open>
  C7. For a session whose identifier is stored, \<open>save\<close> leaves every row of
  \<open>session_exercises\<close> and \<open>sets\<close> (and of the template tables and \<open>app_state\<close>)
  as it was, keeps the identifier and \<open>started_at\<close> of every session row, and, when
  it succeeds, changes in the row of the session the columns \<open>template_id\<close>,
  \<open>template_name\<close>, \<open>ended_at\<close>, \<open>duration_seconds\<close> and \<open>notes\<close> only. When
  it raises, the connection is as before.
\<close>

theorem session_save_frame:
  assumes "pending c = None"
    and "has_key sr_id (ws_id x) (workout_sessions (committed c))"
  shows "\<exists>r c'. SessionRepository_save x c = (r, c') \<and> pending c' = None \<and>
           session_exercises (committed c') = session_exercises (committed c) \<and>
           sets (committed c') = sets (committed c) \<and>
           workout_templates (committed c') = workout_templates (committed c) \<and>
           template_exercises (committed c') = template_exercises (committed c) \<and>
           app_state (committed c') = app_state (committed c) \<and>
           map sr_id (workout_sessions (committed c')) =
             map sr_id (workout_sessions (committed c)) \<and>
           map sr_started_at (workout_sessions (committed c')) =
             map sr_started_at (workout_sessions (committed c)) \<and>
           (r = None \<longrightarrow>
              workout_sessions (committed c') =
                map (\<lambda>row. if sr_id row = ws_id x
                            then row\<lparr>sr_template_id := ws_template_id x,
                                     sr_template_name := ws_template_name x,
                                     sr_ended_at := ws_ended_at x,
                                     sr_duration_seconds := ws_duration_seconds x,
                                     sr_notes := ws_notes x\<rparr>
                            else row)
                  (workout_sessions (committed c))) \<and>
           (r \<noteq> None \<longrightarrow> c' = c) \<and>
           (\<forall>sid. map_option ws_started_at (SessionRepository_get_by_id sid c') =
                    map_option ws_started_at (SessionRepository_get_by_id sid c) \<and>
                  map_option ws_exercises (SessionRepository_get_by_id sid c') =
                    map_option ws_exercises (SessionRepository_get_by_id sid c))"
proof (cases "template_ref_ok (ws_template_id x) (committed c)")
  case False
  then have "SessionRepository_save x c = (Some IntegrityError, c)"
    using assms(1)
    by (simp add: SessionRepository_save_def transaction_idle upsert_session_def session_to_row_def)
  then show ?thesis using assms(1) by simp
next
  case True
  let ?f = "\<lambda>row. row\<lparr>sr_template_id := ws_template_id x,
                                     sr_template_name := ws_template_name x,
                                     sr_ended_at := ws_ended_at x,
                                     sr_duration_seconds := ws_duration_seconds x,
                                     sr_notes := ws_notes x\<rparr>"
  let ?s' = "(committed c)\<lparr>workout_sessions :=
      update_where sr_id (ws_id x) ?f (workout_sessions (committed c))\<rparr>"
  let ?c' = "c\<lparr>committed := ?s', commits := commits c + 1\<rparr>"
  have save: "SessionRepository_save x c = (None, ?c')"
    using assms True
    by (simp add: SessionRepository_save_def transaction_idle upsert_session_def session_to_row_def)
  have v: "view ?c' = ?s'" "view c = committed c" using assms(1) by (simp_all add: view_def)
  have fnd: "\<And>sid. find (\<lambda>r. sr_id r = sid) (workout_sessions ?s') =
     map_option (\<lambda>r. if sr_id r = ws_id x then ?f r else r)
       (find (\<lambda>r. sr_id r = sid) (workout_sessions (committed c)))"
    by (simp add: find_update_where)
  have ld: "\<And>sid. load_exercises ?s' sid = load_exercises (committed c) sid"
    by (simp add: load_exercises_def load_sets_def)
  have get: "\<And>sid. map_option ws_started_at (SessionRepository_get_by_id sid ?c') =
                    map_option ws_started_at (SessionRepository_get_by_id sid c) \<and>
                  map_option ws_exercises (SessionRepository_get_by_id sid ?c') =
                    map_option ws_exercises (SessionRepository_get_by_id sid c)"
    unfolding SessionRepository_get_by_id_def Let_def v fnd ld
    by (auto simp: row_to_session_def split: option.splits)
  show ?thesis
    unfolding save using assms(1) get
    by (auto simp: update_where_def comp_def)
qed

text \<open>
  C10. For a set whose identifier is stored, \<open>save_set\<close> succeeds and changes the
  columns \<open>reps\<close> and \<open>weight\<close> of that row only: \<open>created_at\<close> and
  \<open>session_exercise_id\<close> of every row stay, the other tables stay, and the sets
  loaded for any exercise come in the same order (the same identifiers and creation
  times at the same positions).
\<close>

theorem save_set_frame:
  assumes "pending c = None"
    and "has_key sw_id (set_id w) (sets (committed c))"
  shows "\<exists>c'. SessionRepository_save_set w c = (None, c') \<and> pending c' = None \<and>
           sets (committed c') =
             map (\<lambda>row. if sw_id row = set_id w
                         then row\<lparr>sw_reps := set_reps w, sw_weight := set_weight w\<rparr>
                         else row)
               (sets (committed c)) \<and>
           map sw_id (sets (committed c')) = map sw_id (sets (committed c)) \<and>
           map sw_created_at (sets (committed c')) = map sw_created_at (sets (committed c)) \<and>
           map sw_session_exercise_id (sets (committed c')) =
             map sw_session_exercise_id (sets (committed c)) \<and>
           session_exercises (committed c') = session_exercises (committed c) \<and>
           workout_sessions (committed c') = workout_sessions (committed c) \<and>
           workout_templates (committed c') = workout_templates (committed c) \<and>
           template_exercises (committed c') = template_exercises (committed c) \<and>
           app_state (committed c') = app_state (committed c) \<and>
           (\<forall>eid. map set_id (load_sets (view c') eid) = map set_id (load_sets (view c) eid) \<and>
                  map set_created_at (load_sets (view c') eid) =
                    map set_created_at (load_sets (view c) eid))"
proof -
  let ?g = "\<lambda>row. if sw_id row = set_id w
                         then row\<lparr>sw_reps := set_reps w, sw_weight := set_weight w\<rparr>
                         else row"
  let ?s' = "(committed c)\<lparr>sets := map ?g (sets (committed c))\<rparr>"
  let ?c' = "c\<lparr>committed := ?s', commits := commits c + 1\<rparr>"
  have save: "SessionRepository_save_set w c = (None, ?c')"
    using assms
    by (simp add: SessionRepository_save_set_def transaction_idle upsert_set_def
        set_to_row_def update_where_def)
  have v: "view ?c' = ?s'" "view c = committed c" using assms(1) by (simp_all add: view_def)
  have ld: "\<And>eid. load_sets ?s' eid =
      map row_to_set (map ?g (sort_key sw_created_at
         (filter (\<lambda>r. sw_session_exercise_id r = eid) (sets (committed c)))))"
    unfolding load_sets_def
    by (simp add: filter_map_same_test[where g = ?g] sort_key_map_same_key[where g = ?g])
  have "\<And>eid. map set_id (load_sets (view ?c') eid) = map set_id (load_sets (view c) eid) \<and>
                  map set_created_at (load_sets (view ?c') eid) =
                    map set_created_at (load_sets (view c) eid)"
    unfolding v ld by (simp add: load_sets_def row_to_set_def comp_def)
  moreover have "map sw_id (map ?g (sets (committed c))) = map sw_id (sets (committed c))"
    "map sw_created_at (map ?g (sets (committed c))) = map sw_created_at (sets (committed c))"
    "map sw_session_exercise_id (map ?g (sets (committed c))) =
       map sw_session_exercise_id (sets (committed c))"
    by (simp_all add: comp_def)
  ultimately show ?thesis
    unfolding save using assms(1) by (intro exI[of _ ?c']) simp
qed

section \<open>Verification: the last weight of an exercise\<close>

lemma set_weighted_sets_of:
  "set (weighted_sets_of s n) =
     {r \<in> set (sets s). sw_weight r \<noteq> None \<and>
        (\<exists>e \<in> set (session_exercises s). ser_id e = sw_session_exercise_id r \<and> ser_name e = n)}"
proof -
  have "\<And>r. r \<in> set (weighted_sets_of s n) \<longleftrightarrow>
      r \<in> set (sets s) \<and> sw_weight r \<noteq> None \<and>
        (\<exists>e \<in> set (session_exercises s). ser_id e = sw_session_exercise_id r \<and> ser_name e = n)"
    unfolding weighted_sets_of_def by (auto simp: image_iff)
  then show ?thesis by blast
qed

text \<open>
  C8. \<open>get_last_weight_for_exercise\<close> answers \<open>None\<close> exactly when no set has a
  weight and belongs to a session exercise of the given name; otherwise it answers the
  weight of such a set whose \<open>created_at\<close> is greatest among all of them, over all
  sessions.
\<close>

theorem last_weight_correct:
  "(case SessionRepository_get_last_weight_for_exercise n c of
      None \<Rightarrow>
        \<not> (\<exists>r \<in> set (sets (view c)). sw_weight r \<noteq> None \<and>
             (\<exists>e \<in> set (session_exercises (view c)).
                ser_id e = sw_session_exercise_id r \<and> ser_name e = n))
    | Some w \<Rightarrow>
        (\<exists>r \<in> set (sets (view c)).
           sw_weight r = Some w \<and>
           (\<exists>e \<in> set (session_exercises (view c)).
              ser_id e = sw_session_exercise_id r \<and> ser_name e = n) \<and>
           (\<forall>r' \<in> set (sets (view c)).
              sw_weight r' \<noteq> None \<and>
              (\<exists>e \<in> set (session_exercises (view c)).
                 ser_id e = sw_session_exercise_id r' \<and> ser_name e = n)
              \<longrightarrow> sw_created_at r' \<le> sw_created_at r)))"
proof (cases "sort_key (\<lambda>r. - sw_created_at r) (weighted_sets_of (view c) n)")
  case Nil
  then have "set (weighted_sets_of (view c) n) = {}"
    using set_sort[of "\<lambda>r. - sw_created_at r" "weighted_sets_of (view c) n"] by simp
  then have "\<not> (\<exists>r \<in> set (sets (view c)). sw_weight r \<noteq> None \<and>
             (\<exists>e \<in> set (session_exercises (view c)).
                ser_id e = sw_session_exercise_id r \<and> ser_name e = n))"
    unfolding set_weighted_sets_of by blast
  then show ?thesis
    using Nil by (simp add: SessionRepository_get_last_weight_for_exercise_def)
next
  case (Cons y ys)
  from sort_key_head[OF Cons]
  have y: "y \<in> set (weighted_sets_of (view c) n)"
    and top: "\<forall>x \<in> set (weighted_sets_of (view c) n). sw_created_at x \<le> sw_created_at y"
    by auto
  from y obtain w where w: "sw_weight y = Some w"
    unfolding set_weighted_sets_of by auto
  have res: "SessionRepository_get_last_weight_for_exercise n c = Some w"
    using Cons w by (simp add: SessionRepository_get_last_weight_for_exercise_def)
  show ?thesis
    unfolding res using y top w unfolding set_weighted_sets_of
    by (auto intro!: bexI[of _ y])
qed

section \<open>Verification: reading the timer snapshot\<close>

text \<open>
  What \<open>get_timer_state\<close> answers with "no saved state": no entry, a snapshot that
  is not JSON, a JSON object that lacks a field. A snapshot that is JSON but no object
  leaves the method with a \<open>TypeError\<close>.
\<close>

lemma get_timer_state_fallbacks:
  "AppStateRepository_get ''timer_state'' c = None \<Longrightarrow>
     AppStateRepository_get_timer_state loads fromisoformat c = Inr None"
  "AppStateRepository_get ''timer_state'' c = Some v \<Longrightarrow> loads v = None \<Longrightarrow>
     AppStateRepository_get_timer_state loads fromisoformat c = Inr None"
  "AppStateRepository_get ''timer_state'' c = Some v \<Longrightarrow> loads v = Some (JObject kvs) \<Longrightarrow>
     map_of kvs ''is_running'' = None \<Longrightarrow>
     AppStateRepository_get_timer_state loads fromisoformat c = Inr None"
  by (simp_all add: AppStateRepository_get_timer_state_def decode_timer_state_def sum_bind_def)

lemma get_timer_state_not_an_object:
  assumes "AppStateRepository_get ''timer_state'' c = Some v"
    and "loads v = Some data" and "\<forall>kvs. data \<noteq> JObject kvs"
  shows "AppStateRepository_get_timer_state loads fromisoformat c = Inl TypeError"
  using assms
  by (cases data)
     (simp_all add: AppStateRepository_get_timer_state_def decode_timer_state_def sum_bind_def)

text \<open>
  C9, as the code has it. The handler of \<open>get_timer_state\<close> catches
  \<open>JSONDecodeError\<close> and \<open>KeyError\<close> only. A snapshot that decodes to an object
  with the fields \<open>is_running\<close> and \<open>is_paused\<close> and a non-empty \<open>start_time\<close>
  string that \<open>datetime.fromisoformat\<close> rejects makes the method raise
  \<open>ValueError\<close>; it does not answer "no saved state".
\<close>

theorem get_timer_state_malformed_timestamp:
  assumes "AppStateRepository_get ''timer_state'' c = Some v"
    and "loads v = Some (JObject kvs)"
    and "map_of kvs ''is_running'' = Some r"
    and "map_of kvs ''is_paused'' = Some p"
    and "map_of kvs ''start_time'' = Some (JString x)"
    and "x \<noteq> []"
    and "fromisoformat x = None"
  shows "AppStateRepository_get_timer_state loads fromisoformat c = Inl ValueError"
  using assms
  by (simp add: AppStateRepository_get_timer_state_def decode_timer_state_def sum_bind_def
      optional_time_def)

theorem get_timer_state_malformed_timestamp_witness:
  "AppStateRepository_get ''timer_state'' demo_db = Some demo_snapshot \<and>
   demo_loads demo_snapshot =
     Some (JObject
             [(''is_running'', JBool True), (''is_paused'', JBool False),
              (''start_time'', JString ''soon''), (''pause_time'', JNull),
              (''accumulated_seconds'', JNumber (25 / 2))]) \<and>
   AppStateRepository_get_timer_state demo_loads (\<lambda>x. None) demo_db = Inl ValueError"
proof -
  have h1: "AppStateRepository_get ''timer_state'' demo_db = Some demo_snapshot"
    by (simp add: AppStateRepository_get_def demo_db_def demo_store_def view_def)
  have h2: "demo_loads demo_snapshot =
     Some (JObject
             [(''is_running'', JBool True), (''is_paused'', JBool False),
              (''start_time'', JString ''soon''), (''pause_time'', JNull),
              (''accumulated_seconds'', JNumber (25 / 2))])"
    by (simp add: demo_loads_def)
  have c: "AppStateRepository_get_timer_state demo_loads (\<lambda>x. None) demo_db = Inl ValueError"
    by (rule get_timer_state_malformed_timestamp
        [where loads = demo_loads and v = demo_snapshot and x = "''soon''"
           and r = "JBool True" and p = "JBool False", OF h1 h2])
       simp_all
  show ?thesis by (intro conjI h1 h2 c)
qed

section \<open>Verification: the migration engine\<close>

lemma grows_refl: "grows d d"
  by (simp add: grows_def)

lemma grows_trans: "grows a b \<Longrightarrow> grows b c \<Longrightarrow> grows a c"
  by (auto simp: grows_def)

lemma growing_create_table: "growing (create_table_if_not_exists n)"
  by (auto simp: growing_def grows_def create_table_if_not_exists_def)

lemma growing_create_index: "growing (create_index_if_not_exists n t)"
  by (auto simp: growing_def grows_def create_index_if_not_exists_def split: if_splits)

lemma growing_on_table: "growing (on_table t q)"
  by (auto simp: growing_def grows_def on_table_def split: if_splits sum.splits)

lemma growing_insert_schema_version: "growing (insert_schema_version v t)"
  by (auto simp: growing_def grows_def insert_schema_version_def split: if_splits)

lemma run_all_grows:
  "\<forall>q \<in> set qs. growing q \<Longrightarrow> run_all qs d = Inr d' \<Longrightarrow> grows d d'"
proof (induction qs arbitrary: d)
  case Nil
  then show ?case by (simp add: grows_refl)
next
  case (Cons q qs)
  then show ?case
    by (auto simp: growing_def split: sum.splits intro: grows_trans)
qed

text \<open>
  One statement inside a scope: what is committed and what the connection sees only
  grow, and what is raised is an \<open>Exception\<close>.
\<close>

lemma execute_grows:
  assumes "is_statement q" and "growing (effect q)" and "execute q c = (r, c1)"
  shows "grows (committed c) (committed c1) \<and> grows (view c) (view c1) \<and>
         r \<noteq> Some (BaseException i)"
proof (cases q)
  case (Dml f)
  then show ?thesis
    using assms(2,3)
    by (cases "f (view c)") (auto simp: growing_def grows_refl view_def)
next
  case (Ddl f)
  show ?thesis
  proof (cases "pending c")
    case None
    then show ?thesis
      using assms(2,3) Ddl
      by (cases "f (committed c)") (auto simp: growing_def grows_refl view_def)
  next
    case (Some s)
    then show ?thesis
      using assms(2,3) Ddl
      by (cases "f s") (auto simp: growing_def grows_refl view_def)
  qed
next
  case (Interrupt e)
  then show ?thesis using assms(1) by simp
qed

lemma execute_all_grows:
  "\<forall>q \<in> set body. is_statement q \<and> growing (effect q) \<Longrightarrow>
   execute_all body c = (r, c1) \<Longrightarrow>
   grows (committed c) (committed c1) \<and> grows (view c) (view c1) \<and>
   r \<noteq> Some (BaseException i)"
proof (induction body arbitrary: c)
  case Nil
  then show ?case by (simp add: grows_refl)
next
  case (Cons q body)
  obtain r' c' where e: "execute q c = (r', c')" by (cases "execute q c")
  have q: "is_statement q" "growing (effect q)" using Cons.prems(1) by simp_all
  note g = execute_grows[OF q e, of i]
  show ?case
  proof (cases r')
    case (Some x)
    then have "r = r'" "c1 = c'" using Cons.prems(2) e by simp_all
    then show ?thesis using g by simp
  next
    case None
    then have "execute_all body c' = (r, c1)" using Cons.prems(2) e by simp
    from Cons.IH[OF _ this] Cons.prems(1)
    have "grows (committed c') (committed c1) \<and> grows (view c') (view c1) \<and>
        r \<noteq> Some (BaseException i)"
      by simp
    then show ?thesis using g by (blast intro: grows_trans)
  qed
qed

lemma transaction_grows:
  assumes "\<forall>q \<in> set body. is_statement q \<and> growing (effect q)"
    and "pending c = None" and "transaction body c = (r, c')"
  shows "pending c' = None \<and> grows (committed c) (committed c')"
proof -
  obtain r1 c1 where e: "execute_all body c = (r1, c1)" by (cases "execute_all body c")
  have g: "grows (committed c) (committed c1)" "grows (view c) (view c1)"
    and nb: "\<And>i. r1 \<noteq> Some (BaseException i)"
    using execute_all_grows[OF assms(1) e] by simp_all
  have v: "view c = committed c" using assms(2) by (simp add: view_def)
  show ?thesis
  proof (cases r1)
    case None
    then have "c' = commit c1" using assms(3) e by (simp add: transaction_def)
    then show ?thesis using g(2) v by (simp add: commit_def)
  next
    case (Some x)
    then obtain err where x: "x = Exception err" using nb by (cases x) auto
    then have "c' = rollback c1" using assms(3) e Some by (simp add: transaction_def)
    then show ?thesis using g(1) by (simp add: rollback_def)
  qed
qed

lemma seed_exercise_statements_growing:
  "\<forall>q \<in> set (seed_exercise_statements e tid k i xs). growing q"
  by (induction e tid k i xs rule: seed_exercise_statements.induct)
     (simp_all add: growing_on_table)

lemma seed_statements_growing:
  "\<forall>q \<in> set (seed_statements e k j xs). growing q"
  by (induction e k j xs rule: seed_statements.induct)
     (auto simp: growing_on_table seed_exercise_statements_growing)

lemma migration_001_grows:
  assumes "pending c = None" and "migration_001_initial_schema c = (r, c')"
  shows "pending c' = None \<and> grows (committed c) (committed c')"
  using assms(2) unfolding migration_001_initial_schema_def
  by (rule transaction_grows[rotated 2])
     (simp_all add: growing_create_table growing_create_index assms(1))

lemma migration_002_grows:
  assumes "pending c = None" and "migration_002_seed_templates e c = (r, c')"
  shows "pending c' = None \<and> grows (committed c) (committed c')"
  using assms(2) unfolding migration_002_seed_templates_def
  by (rule transaction_grows[rotated 2]) (simp_all add: seed_statements_growing assms(1))

lemma insert_ledger_grows:
  assumes "pending c = None"
    and "transaction [Dml (insert_schema_version v t)] c = (r, c')"
  shows "pending c' = None \<and> grows (committed c) (committed c') \<and>
         (r = None \<longrightarrow> (v, t) \<in> set (schema_version (committed c')))"
  using assms
  by (auto simp: transaction_idle insert_schema_version_def grows_def
      split: sum.splits if_splits)

text \<open>The loop keeps what it finds and records every version it applies.\<close>

lemma apply_pending_grows:
  assumes "\<forall>(v, n, f) \<in> set ms. well_behaved f"
    and "pending c = None"
    and "apply_pending e cur ms c = (printed, r, c')"
  shows "pending c' = None \<and> grows (committed c) (committed c') \<and>
         (r = None \<longrightarrow> (\<forall>(v, n, f) \<in> set ms. v > cur \<longrightarrow>
             v \<in> fst ` set (schema_version (committed c'))))"
  using assms
proof (induction ms arbitrary: c printed r c')
  case Nil
  then show ?case by (simp add: grows_refl)
next
  case (Cons m ms)
  obtain v n f where m: "m = (v, n, f)" by (cases m)
  have wb: "well_behaved f" and wbs: "\<forall>(v, n, f) \<in> set ms. well_behaved f"
    using Cons.prems(1) m by auto
  show ?case
  proof (cases "v > cur")
    case False
    then have "apply_pending e cur ms c = (printed, r, c')"
      using Cons.prems(3) m by simp
    from Cons.IH[OF wbs Cons.prems(2) this] show ?thesis
      using False m by auto
  next
    case True
    obtain r1 c1 where f: "f c = (r1, c1)" by (cases "f c")
    have c1: "pending c1 = None" "grows (committed c) (committed c1)"
      using wb Cons.prems(2) f by (auto simp: well_behaved_def)
    show ?thesis
    proof (cases r1)
      case (Some err)
      then show ?thesis using Cons.prems(3) m True f c1 by auto
    next
      case None
      obtain r2 c2 where l: "transaction [Dml (insert_schema_version v (env_applied_at e v))] c1 = (r2, c2)"
        by (cases "transaction [Dml (insert_schema_version v (env_applied_at e v))] c1")
      note c2 = insert_ledger_grows[OF c1(1) l]
      show ?thesis
      proof (cases r2)
        case (Some err)
        then show ?thesis
          using Cons.prems(3) m True f None l c1 c2 by (auto intro: grows_trans)
      next
        case r2: None
        obtain p3 r3 c3 where rest: "apply_pending e cur ms c2 = (p3, r3, c3)"
          by (cases "apply_pending e cur ms c2")
        have res: "r = r3" "c' = c3"
          using Cons.prems(3) m True f None l r2 rest by auto
        from Cons.IH[OF wbs _ rest] c2
        have c3: "pending c3 = None" "grows (committed c2) (committed c3)"
          "r3 = None \<longrightarrow> (\<forall>(v, n, f) \<in> set ms. v > cur \<longrightarrow>
             v \<in> fst ` set (schema_version (committed c3)))"
          by auto
        have "v \<in> fst ` set (schema_version (committed c3))"
          using c2 r2 c3(2) by (force simp: grows_def)
        then show ?thesis
          using res c3 c2 c1 m by (auto intro: grows_trans)
      qed
    qed
  qed
qed

lemma apply_pending_nothing:
  "\<forall>(v, n, f) \<in> set ms. v \<le> cur \<Longrightarrow> apply_pending e cur ms c = ([], None, c)"
  by (induction ms) auto

lemma current_version_ge:
  assumes "''schema_version'' \<in> set (tables (view c))"
    and "v \<in> fst ` set (schema_version (view c))"
  shows "v \<le> get_current_version c"
proof (cases "sort_key (\<lambda>v. - v) (map fst (schema_version (view c)))")
  case Nil
  then have "set (map fst (schema_version (view c))) = {}"
    using set_sort[of "\<lambda>v. - v" "map fst (schema_version (view c))"] by simp
  then show ?thesis using assms(2) by simp
next
  case (Cons y ys)
  from sort_key_head[OF Cons] assms(2) have "v \<le> y" by auto
  then show ?thesis using assms(1) Cons by (simp add: get_current_version_def)
qed

lemma well_behaved_MIGRATIONS: "\<forall>(v, n, f) \<in> set (MIGRATIONS e). well_behaved f"
proof -
  have "well_behaved migration_001_initial_schema"
    unfolding well_behaved_def using migration_001_grows by blast
  moreover have "well_behaved (migration_002_seed_templates e)"
    unfolding well_behaved_def using migration_002_grows by blast
  ultimately show ?thesis by (simp add: MIGRATIONS_def)
qed

text \<open>The first step of \<open>apply_migrations\<close> never raises.\<close>

lemma ensure_ledger_table:
  assumes "transaction [Ddl (create_table_if_not_exists n)] c = (r0, c0)"
  shows "r0 = None \<and> pending c0 = None \<and> n \<in> set (tables (committed c0))"
  using assms
  by (cases "pending c")
     (auto simp: transaction_def commit_def view_def create_table_if_not_exists_def)

lemma ensure_ledger_table_present:
  assumes "pending c = None" and "n \<in> set (tables (committed c))"
  shows "transaction [Ddl (create_table_if_not_exists n)] c =
     (None, c\<lparr>commits := commits c + 1\<rparr>)"
proof -
  have "c\<lparr>committed := committed c, pending := None, commits := commits c + 1\<rparr> =
      c\<lparr>commits := commits c + 1\<rparr>"
    using assms(1) by simp
  then show ?thesis
    using assms by (simp add: transaction_def commit_def view_def create_table_if_not_exists_def)
qed

lemma apply_migrations_up_to_date:
  assumes "pending c = None" and "''schema_version'' \<in> set (tables (committed c))"
    and "2 \<le> get_current_version c"
  shows "apply_migrations e c = ([], None, c\<lparr>commits := commits c + 1\<rparr>)"
proof -
  let ?c0 = "c\<lparr>commits := commits c + 1\<rparr>"
  have t: "transaction [Ddl (create_table_if_not_exists ''schema_version'')] c = (None, ?c0)"
    using assms(1,2) by (rule ensure_ledger_table_present)
  have "get_current_version ?c0 = get_current_version c"
    using assms(1) by (simp add: get_current_version_def view_def)
  then have "apply_pending e (get_current_version ?c0) (MIGRATIONS e) ?c0 = ([], None, ?c0)"
    using assms(3) by (intro apply_pending_nothing) (simp add: MIGRATIONS_def)
  then show ?thesis by (simp add: apply_migrations_def t)
qed

text \<open>
  C5. Migration idempotence. After a run of \<open>apply_migrations\<close> that raised nothing,
  a second run (in any environment) raises nothing, prints nothing, so applies no
  migration, and leaves the connection as it was but for one more call of \<open>commit\<close>:
  the catalogue, the ledger and the rows are unchanged.
\<close>

theorem apply_migrations_idempotent:
  assumes "apply_migrations e c = (printed, None, c')"
  shows "apply_migrations e' c' = ([], None, c'\<lparr>commits := commits c' + 1\<rparr>)"
proof -
  obtain r0 c0 where
    t: "transaction [Ddl (create_table_if_not_exists ''schema_version'')] c = (r0, c0)"
    by (cases "transaction [Ddl (create_table_if_not_exists ''schema_version'')] c")
  have r0: "r0 = None" and c0: "pending c0 = None"
    "''schema_version'' \<in> set (tables (committed c0))"
    using ensure_ledger_table[OF t] by simp_all
  let ?cur = "get_current_version c0"
  have ap: "apply_pending e ?cur (MIGRATIONS e) c0 = (printed, None, c')"
    using assms t r0 by (simp add: apply_migrations_def)
  from apply_pending_grows[OF well_behaved_MIGRATIONS c0(1) ap]
  have c': "pending c' = None" "grows (committed c0) (committed c')"
    "\<forall>(v, n, f) \<in> set (MIGRATIONS e). v > ?cur \<longrightarrow>
        v \<in> fst ` set (schema_version (committed c'))"
    by auto
  have tbl: "''schema_version'' \<in> set (tables (committed c'))"
    using c0(2) c'(2) by (auto simp: grows_def)
  have vw: "view c' = committed c'" "view c0 = committed c0"
    using c'(1) c0(1) by (simp_all add: view_def)
  have "2 \<le> get_current_version c'"
  proof (cases "2 \<le> ?cur")
    case True
    then have "apply_pending e ?cur (MIGRATIONS e) c0 = ([], None, c0)"
      by (intro apply_pending_nothing) (simp add: MIGRATIONS_def)
    then have "c' = c0" using ap by simp
    then show ?thesis using True by simp
  next
    case False
    then have "2 \<in> fst ` set (schema_version (committed c'))"
      using c'(3) by (simp add: MIGRATIONS_def)
    then show ?thesis
      using current_version_ge[of c' 2] tbl vw by simp
  qed
  then show ?thesis
    using apply_migrations_up_to_date[OF c'(1) tbl] by simp
qed

section \<open>Verification: two runs of the migrations on an empty database\<close>

lemma stage0:
  "transaction [Ddl (create_table_if_not_exists ''schema_version'')] fresh_connection =
     (None, \<lparr>committed = empty_database\<lparr>tables := [''schema_version'']\<rparr>,
             pending = None, commits = 1\<rparr>)"
  by (simp add: transaction_def commit_def view_def fresh_connection_def
      create_table_if_not_exists_def empty_database_def)

lemma stage1:
  "migration_001_initial_schema
      \<lparr>committed = empty_database\<lparr>tables := [''schema_version'']\<rparr>,
       pending = None, commits = 1\<rparr> =
     (None, \<lparr>committed = empty_database\<lparr>tables := migrated_tables,
                indexes := [''idx_template_exercises_template_id'',
                  ''idx_session_exercises_session_id'', ''idx_sets_session_exercise_id'',
                  ''idx_workout_sessions_started_at'']\<rparr>,
             pending = None, commits = 2\<rparr>)"
  by (simp add: migration_001_initial_schema_def transaction_def commit_def view_def
      create_table_if_not_exists_def create_index_if_not_exists_def empty_database_def
      migrated_tables_def)

lemma stage2:
  "transaction [Dml (insert_schema_version 1 6)]
      \<lparr>committed = empty_database\<lparr>tables := migrated_tables, indexes := migrated_indexes\<rparr>,
       pending = None, commits = 2\<rparr> =
     (None, \<lparr>committed = empty_database\<lparr>tables := migrated_tables,
                indexes := migrated_indexes, schema_version := [(1, 6)]\<rparr>,
             pending = None, commits = 3\<rparr>)"
  by (simp add: transaction_idle insert_schema_version_def empty_database_def migrated_tables_def)

lemma stage3:
  "\<exists>s. run_all (seed_statements demo_env 0 0 seed_templates)
          (empty_database\<lparr>tables := migrated_tables, indexes := migrated_indexes,
             schema_version := [(1, 6)]\<rparr>) =
        Inr (empty_database\<lparr>tables := migrated_tables, indexes := migrated_indexes,
               schema_version := [(1, 6)], content := s\<rparr>) \<and>
       map tr_name (workout_templates s) = [''Push Day'', ''Pull Day'', ''Leg Day''] \<and>
       length (template_exercises s) = 15"
  by (simp add: seed_templates_def demo_env_def on_table_def insert_template_def
      insert_template_exercise_def empty_database_def empty_store_def migrated_tables_def
      has_key_def bool_to_int_def)

lemma first_run_from_seed:
  assumes run: "run_all (seed_statements demo_env 0 0 seed_templates)
          (empty_database\<lparr>tables := migrated_tables, indexes := migrated_indexes,
             schema_version := [(1, 6)]\<rparr>) =
        Inr (empty_database\<lparr>tables := migrated_tables, indexes := migrated_indexes,
               schema_version := [(1, 6)], content := s\<rparr>)"
  shows "apply_migrations demo_env fresh_connection =
     ([Applying 1 ''initial_schema'', Applied 1, Applying 2 ''seed_templates'', Applied 2],
      None,
      \<lparr>committed = empty_database\<lparr>tables := migrated_tables, indexes := migrated_indexes,
          schema_version := [(1, 6), (2, 6)], content := s\<rparr>,
       pending = None, commits = 5\<rparr>)"
proof -
  have cur: "get_current_version
      \<lparr>committed = empty_database\<lparr>tables := [''schema_version'']\<rparr>,
       pending = None, commits = Suc 0\<rparr> = 0"
    by (simp add: get_current_version_def view_def empty_database_def)
  have m2: "migration_002_seed_templates demo_env
      \<lparr>committed = empty_database\<lparr>tables := migrated_tables, indexes := migrated_indexes,
          schema_version := [(1, 6)]\<rparr>,
       pending = None, commits = 3\<rparr> =
     (None, \<lparr>committed = empty_database\<lparr>tables := migrated_tables,
                indexes := migrated_indexes, schema_version := [(1, 6)], content := s\<rparr>,
             pending = None, commits = 4\<rparr>)"
    by (simp add: migration_002_seed_templates_def transaction_idle run)
  have l2: "transaction [Dml (insert_schema_version 2 6)]
      \<lparr>committed = empty_database\<lparr>tables := migrated_tables, indexes := migrated_indexes,
          schema_version := [(1, 6)], content := s\<rparr>,
       pending = None, commits = 4\<rparr> =
     (None, \<lparr>committed = empty_database\<lparr>tables := migrated_tables,
                indexes := migrated_indexes, schema_version := [(1, 6), (2, 6)],
                content := s\<rparr>,
             pending = None, commits = 5\<rparr>)"
    by (simp add: transaction_idle insert_schema_version_def empty_database_def
        migrated_tables_def)
  have app: "env_applied_at demo_env 1 = 6" "env_applied_at demo_env 2 = 6"
    by (simp_all add: demo_env_def)
  have p2: "apply_pending demo_env 0
      [(2, ''seed_templates'', migration_002_seed_templates demo_env)]
      \<lparr>committed = empty_database\<lparr>tables := migrated_tables, indexes := migrated_indexes,
          schema_version := [(1, 6)]\<rparr>,
       pending = None, commits = 3\<rparr> =
     ([Applying 2 ''seed_templates'', Applied 2], None,
      \<lparr>committed = empty_database\<lparr>tables := migrated_tables, indexes := migrated_indexes,
          schema_version := [(1, 6), (2, 6)], content := s\<rparr>,
       pending = None, commits = 5\<rparr>)"
    by (subst apply_pending.simps) (simp add: m2 l2 app)
  have s1: "migration_001_initial_schema
      \<lparr>committed = empty_database\<lparr>tables := [''schema_version'']\<rparr>,
       pending = None, commits = Suc 0\<rparr> =
     (None, \<lparr>committed = empty_database\<lparr>tables := migrated_tables,
                indexes := migrated_indexes\<rparr>,
             pending = None, commits = 2\<rparr>)"
    using stage1 by (simp add: migrated_indexes_def)
  have p1: "apply_pending demo_env 0 (MIGRATIONS demo_env)
      \<lparr>committed = empty_database\<lparr>tables := [''schema_version'']\<rparr>,
       pending = None, commits = Suc 0\<rparr> =
     ([Applying 1 ''initial_schema'', Applied 1, Applying 2 ''seed_templates'', Applied 2],
      None,
      \<lparr>committed = empty_database\<lparr>tables := migrated_tables, indexes := migrated_indexes,
          schema_version := [(1, 6), (2, 6)], content := s\<rparr>,
       pending = None, commits = 5\<rparr>)"
    unfolding MIGRATIONS_def
    by (subst apply_pending.simps) (simp add: s1 stage2 m2 l2 app)
  show ?thesis
    unfolding apply_migrations_def stage0 by (simp add: cur p1)
qed

theorem apply_migrations_idempotent_witness:
  "fst (snd (apply_migrations demo_env fresh_connection)) = None \<and>
   apply_migrations demo_env (snd (snd (apply_migrations demo_env fresh_connection))) =
     ([], None,
      (snd (snd (apply_migrations demo_env fresh_connection)))
        \<lparr>commits := commits (snd (snd (apply_migrations demo_env fresh_connection))) + 1\<rparr>) \<and>
   schema_version (committed (snd (snd (apply_migrations demo_env fresh_connection)))) =
     [(1, 6), (2, 6)]"
proof -
  from stage3 obtain s where
    run: "run_all (seed_statements demo_env 0 0 seed_templates)
          (empty_database\<lparr>tables := migrated_tables, indexes := migrated_indexes,
             schema_version := [(1, 6)]\<rparr>) =
        Inr (empty_database\<lparr>tables := migrated_tables, indexes := migrated_indexes,
               schema_version := [(1, 6)], content := s\<rparr>)"
    by (elim exE conjE)
  note r = first_run_from_seed [OF run]
  from apply_migrations_idempotent [OF r, of demo_env] show ?thesis
    unfolding r by simp
qed

section \<open>Verification: the properties on the example data\<close>

text \<open>The definitions that evaluate a statement on the example store.\<close>

lemmas demo_defs = demo_db_def demo_store_def view_def has_key_def update_where_def
  py_bool_def bool_to_int_def

theorem last_weight_correct_witness:
  "SessionRepository_get_last_weight_for_exercise ''Squats'' demo_db = Some 175 \<and>
   SessionRepository_get_last_weight_for_exercise ''Bench Press'' demo_db = None"
  using last_weight_correct [where n = "''Squats''" and c = demo_db]
    last_weight_correct [where n = "''Bench Press''" and c = demo_db]
  by (simp add: SessionRepository_get_last_weight_for_exercise_def weighted_sets_of_def demo_defs)

theorem session_save_frame_witness:
  "pending demo_db = None \<and>
   has_key sr_id (ws_id edited_session) (workout_sessions (committed demo_db)) \<and>
   SessionRepository_save edited_session demo_db =
     (None,
      demo_db\<lparr>committed := demo_store\<lparr>workout_sessions :=
          [\<lparr>sr_id = 2, sr_template_id = None, sr_template_name = Some ''Legs'',
            sr_started_at = 100, sr_ended_at = Some 400, sr_duration_seconds = Some 300,
            sr_notes = Some ''heavy''\<rparr>]\<rparr>,
        commits := 1\<rparr>)"
proof -
  have h1: "pending demo_db = None" by (simp add: demo_db_def)
  have h2: "has_key sr_id (ws_id edited_session) (workout_sessions (committed demo_db))"
    by (simp add: demo_defs edited_session_def)
  from session_save_frame [OF h1 h2] obtain r c' where
    c: "SessionRepository_save edited_session demo_db = (r, c')" by blast
  have "SessionRepository_save edited_session demo_db =
     (None,
      demo_db\<lparr>committed := demo_store\<lparr>workout_sessions :=
          [\<lparr>sr_id = 2, sr_template_id = None, sr_template_name = Some ''Legs'',
            sr_started_at = 100, sr_ended_at = Some 400, sr_duration_seconds = Some 300,
            sr_notes = Some ''heavy''\<rparr>]\<rparr>,
        commits := 1\<rparr>)"
    using c
    by (simp add: SessionRepository_save_def transaction_idle h1 upsert_session_def
        template_ref_ok_def session_to_row_def edited_session_def demo_defs)
  then show ?thesis using h1 h2 by blast
qed

theorem save_set_frame_witness:
  "pending demo_db = None \<and>
   has_key sw_id (set_id edited_set) (sets (committed demo_db)) \<and>
   SessionRepository_save_set edited_set demo_db =
     (None,
      demo_db\<lparr>committed := demo_store\<lparr>sets :=
          [\<lparr>sw_id = 31, sw_session_exercise_id = 21, sw_reps = 5, sw_weight = Some 135,
            sw_created_at = 110\<rparr>,
           \<lparr>sw_id = 32, sw_session_exercise_id = 21, sw_reps = 3, sw_weight = None,
            sw_created_at = 120\<rparr>,
           \<lparr>sw_id = 33, sw_session_exercise_id = 21, sw_reps = 5, sw_weight = Some 175,
            sw_created_at = 130\<rparr>]\<rparr>,
        commits := 1\<rparr>)"
proof -
  have h1: "pending demo_db = None" by (simp add: demo_db_def)
  have h2: "has_key sw_id (set_id edited_set) (sets (committed demo_db))"
    by (simp add: demo_defs edited_set_def)
  from save_set_frame [OF h1 h2] obtain c' where
    c: "SessionRepository_save_set edited_set demo_db = (None, c')"
      "sets (committed c') =
             map (\<lambda>row. if sw_id row = set_id edited_set
                         then row\<lparr>sw_reps := set_reps edited_set, sw_weight := set_weight edited_set\<rparr>
                         else row)
               (sets (committed demo_db))" by blast
  have "SessionRepository_save_set edited_set demo_db =
     (None,
      demo_db\<lparr>committed := demo_store\<lparr>sets :=
          [\<lparr>sw_id = 31, sw_session_exercise_id = 21, sw_reps = 5, sw_weight = Some 135,
            sw_created_at = 110\<rparr>,
           \<lparr>sw_id = 32, sw_session_exercise_id = 21, sw_reps = 3, sw_weight = None,
            sw_created_at = 120\<rparr>,
           \<lparr>sw_id = 33, sw_session_exercise_id = 21, sw_reps = 5, sw_weight = Some 175,
            sw_created_at = 130\<rparr>]\<rparr>,
        commits := 1\<rparr>)"
    using c
    by (simp add: SessionRepository_save_set_def transaction_idle h1 upsert_set_def
        set_to_row_def edited_set_def demo_defs)
  then show ?thesis using h1 h2 by blast
qed

theorem save_then_get_by_id_witness:
  "(pending demo_db = None \<and> template_wf new_template \<and>
      template_fits new_template (committed demo_db)) \<and>
   (\<exists>c'. TemplateRepository_save new_template demo_db = (None, c') \<and>
         TemplateRepository_get_by_id (t_id new_template) c' = Some new_template) \<and>
   (pending demo_db = None \<and> session_wf resaved_session \<and>
      session_fits resaved_session (committed demo_db) \<and>
      template_ref_ok (ws_template_id resaved_session) (committed demo_db)) \<and>
   (\<exists>c'. save_session_aggregate resaved_session demo_db = (None, c') \<and>
         SessionRepository_get_by_id (ws_id resaved_session) c' = Some resaved_session) \<and>
   (pending demo_db = None \<and> session_wf new_session \<and>
      session_fits new_session (committed demo_db) \<and>
      template_ref_ok (ws_template_id new_session) (committed demo_db)) \<and>
   (\<exists>c'. save_session_aggregate new_session demo_db = (None, c') \<and>
         SessionRepository_get_by_id (ws_id new_session) c' = Some new_session)"
proof -
  have h1: "pending demo_db = None \<and> template_wf new_template \<and>
      template_fits new_template (committed demo_db)"
    by (simp add: template_wf_def template_fits_def new_template_def demo_defs)
  have h2: "pending demo_db = None \<and> session_wf resaved_session \<and>
      session_fits resaved_session (committed demo_db) \<and>
      template_ref_ok (ws_template_id resaved_session) (committed demo_db)"
    by (simp add: session_wf_def session_fits_def template_ref_ok_def all_sets_def
        resaved_session_def demo_defs)
  have h3: "pending demo_db = None \<and> session_wf new_session \<and>
      session_fits new_session (committed demo_db) \<and>
      template_ref_ok (ws_template_id new_session) (committed demo_db)"
    by (simp add: session_wf_def session_fits_def template_ref_ok_def all_sets_def
        new_session_def demo_defs)
  note rt = save_then_get_by_id [where c = demo_db and t = new_template
      and x = resaved_session]
  note rt' = save_then_get_by_id [where c = demo_db and t = new_template and x = new_session]
  have c1: "\<exists>c'. TemplateRepository_save new_template demo_db = (None, c') \<and>
         TemplateRepository_get_by_id (t_id new_template) c' = Some new_template"
    using rt h1 by blast
  have c2: "\<exists>c'. save_session_aggregate resaved_session demo_db = (None, c') \<and>
         SessionRepository_get_by_id (ws_id resaved_session) c' = Some resaved_session"
    using rt h2 by blast
  have c3: "\<exists>c'. save_session_aggregate new_session demo_db = (None, c') \<and>
         SessionRepository_get_by_id (ws_id new_session) c' = Some new_session"
    using rt' h3 by blast
  show ?thesis by (intro conjI h1 h2 h3 c1 c2 c3)
qed

theorem save_then_get_by_id_counterexample:
  "fst (save_session_aggregate demo_session demo_db) = None \<and>
   SessionRepository_get_by_id (ws_id demo_session)
     (snd (save_session_aggregate demo_session demo_db)) \<noteq> Some demo_session \<and>
   fst (TemplateRepository_save unordered_template demo_db) = None \<and>
   TemplateRepository_get_by_id (t_id unordered_template)
     (snd (TemplateRepository_save unordered_template demo_db)) \<noteq> Some unordered_template"
proof -
  have p: "pending demo_db = None" by (simp add: demo_db_def)
  have s: "save_session_aggregate demo_session demo_db = (None, demo_db\<lparr>commits := 1\<rparr>)"
    by (simp add: save_session_aggregate_def save_session_calls_def SessionRepository_save_def
        transaction_idle p upsert_session_def template_ref_ok_def session_to_row_def
        demo_session_def demo_defs)
  have g: "map_option ws_exercises (SessionRepository_get_by_id 2 (demo_db\<lparr>commits := 1\<rparr>)) \<noteq>
      Some []"
    by (simp add: SessionRepository_get_by_id_def load_exercises_def row_to_session_def demo_defs)
  have "ws_id demo_session = 2" "ws_exercises demo_session = []"
    by (simp_all add: demo_session_def)
  then have a: "SessionRepository_get_by_id (ws_id demo_session)
     (snd (save_session_aggregate demo_session demo_db)) \<noteq> Some demo_session"
    using g s by auto
  have t: "TemplateRepository_save unordered_template demo_db =
      (None, demo_db\<lparr>committed := saved_template_store unordered_template demo_store,
               commits := 1\<rparr>)"
    using template_save_result[of demo_db unordered_template]
    by (simp add: unordered_template_def demo_defs)
  have "map_option (map te_id \<circ> t_exercises)
      (TemplateRepository_get_by_id 7
         (demo_db\<lparr>committed := saved_template_store unordered_template demo_store,
               commits := 1\<rparr>)) = Some [72, 71]"
    by (simp add: TemplateRepository_get_by_id_def saved_template_store_def
        template_exercise_to_row_def row_to_template_exercise_def unordered_template_def demo_defs)
  moreover have "t_id unordered_template = 7"
    "map te_id (t_exercises unordered_template) = [71, 72]"
    by (simp_all add: unordered_template_def)
  ultimately have b: "TemplateRepository_get_by_id (t_id unordered_template)
     (snd (TemplateRepository_save unordered_template demo_db)) \<noteq> Some unordered_template"
    using t by auto
  show ?thesis using s a t b by simp
qed

theorem template_save_replaces_children_witness:
  "pending demo_db = None \<and>
   distinct (map ter_id (template_exercises (committed demo_db))) \<and>
   TemplateRepository_get_by_id 1 demo_db = Some demo_template \<and>
   1 < length (t_exercises demo_template) \<and>
   (let dropped = t_exercises demo_template ! 1;
        t' = demo_template\<lparr>t_exercises := take 1 (t_exercises demo_template) @
                                         drop (Suc 1) (t_exercises demo_template)\<rparr>
    in \<exists>c'. TemplateRepository_save t' demo_db = (None, c') \<and> pending c' = None \<and>
         \<not> has_key ter_id (te_id dropped) (template_exercises (committed c')) \<and>
         (\<forall>e \<in> set (t_exercises t').
            length (filter (\<lambda>r. ter_id r = te_id e)
                      (template_exercises (committed c'))) = 1) \<and>
         TemplateRepository_get_by_id 1 c' = Some t')"
proof -
  have h1: "pending demo_db = None" by (simp add: demo_db_def)
  have h2: "distinct (map ter_id (template_exercises (committed demo_db)))"
    by (simp add: demo_defs)
  have h3: "TemplateRepository_get_by_id 1 demo_db = Some demo_template"
    by (simp add: TemplateRepository_get_by_id_def row_to_template_exercise_def
        demo_template_def demo_defs)
  have h4: "1 < length (t_exercises demo_template)" by (simp add: demo_template_def)
  note c = template_save_replaces_children [OF h1 h2 h3 h4]
  show ?thesis by (intro conjI h1 h2 h3 h4 c)
qed

end
